(* ===== verification/Fly_Prelude.thy ===== *)
theory Fly_Prelude
  imports Main "HOL-Library.Sublist"
begin

text \<open>
  The ground every component stands on: bytes and strings as Go has them (a Go string is
  a byte sequence, a HOL \<open>char\<close> is one byte), the functions of the packages
  \<^verbatim>\<open>strings\<close> and \<^verbatim>\<open>strconv\<close> that the sources under
  \<^verbatim>\<open>src/\<close> call, and the list lemmas about them. These definitions model the
  language's library, so they have no line of the repository of their own.
\<close>

named_theorems go_defs \<open>definitions of library functions, for evaluating closed terms\<close>
named_theorems split_simps \<open>facts about splitting and joining byte strings\<close>

type_synonym bytes = string

abbreviation LF :: char where "LF \<equiv> CHR 0x0A"
abbreviation CR :: char where "CR \<equiv> CHR 0x0D"
abbreviation SP :: char where "SP \<equiv> CHR 0x20"
abbreviation SLASH :: char where "SLASH \<equiv> CHR ''/''"

section \<open>Generic list lemmas\<close>

lemma takeWhile_neq_append [simp]:
  "c \<notin> set xs \<Longrightarrow> takeWhile (\<lambda>x. x \<noteq> c) (xs @ c # ys) = xs"
  by (induction xs) auto

lemma dropWhile_neq_append [simp]:
  "c \<notin> set xs \<Longrightarrow> dropWhile (\<lambda>x. x \<noteq> c) (xs @ c # ys) = c # ys"
  by (induction xs) auto

lemma takeWhile_neq_id [simp]: "c \<notin> set xs \<Longrightarrow> takeWhile (\<lambda>x. x \<noteq> c) xs = xs"
  by (induction xs) auto

lemma dropWhile_neq_cases:
  "c \<in> set xs \<Longrightarrow> \<exists>ys. dropWhile (\<lambda>x. x \<noteq> c) xs = c # ys"
  by (induction xs) auto

lemma notin_takeWhile_neq [simp]: "c \<notin> set (takeWhile (\<lambda>x. x \<noteq> c) xs)"
  by (induction xs) auto

lemma split_at_first:
  assumes "c \<in> set xs"
  shows "xs = takeWhile (\<lambda>x. x \<noteq> c) xs @ c # tl (dropWhile (\<lambda>x. x \<noteq> c) xs)"
proof -
  obtain ys where "dropWhile (\<lambda>x. x \<noteq> c) xs = c # ys"
    using dropWhile_neq_cases [OF assms] by blast
  moreover have "takeWhile (\<lambda>x. x \<noteq> c) xs @ dropWhile (\<lambda>x. x \<noteq> c) xs = xs"
    by (rule takeWhile_dropWhile_id)
  ultimately show ?thesis by simp
qed

lemma append_sep_inject [simp]:
  "c \<notin> set p \<Longrightarrow> c \<notin> set q \<Longrightarrow> p @ c # x = q @ c # y \<longleftrightarrow> p = q \<and> x = y"
  by (induction p arbitrary: q) (case_tac q; auto)+

section \<open>Package strings\<close>

text \<open>\<open>strings.Split\<close> with a one-byte separator, and \<open>strings.Join\<close>.\<close>

fun split_on :: "char \<Rightarrow> string \<Rightarrow> string list" where
  "split_on c [] = [[]]"
| "split_on c (x # xs) =
     (if x = c then [] # split_on c xs
      else (x # hd (split_on c xs)) # tl (split_on c xs))"

fun join_on :: "string \<Rightarrow> string list \<Rightarrow> string" where
  "join_on sep [] = []"
| "join_on sep [x] = x"
| "join_on sep (x # y # zs) = x @ sep @ join_on sep (y # zs)"

lemma split_on_not_Nil [simp]: "split_on c s \<noteq> []"
  by (induction s) auto

lemma split_on_no_sep [simp]: "c \<notin> set s \<Longrightarrow> split_on c s = [s]"
  by (induction s) auto

lemma split_on_append_sep [split_simps]:
  "split_on c (xs @ c # ys) = split_on c xs @ split_on c ys"
  by (induction xs) auto

lemma split_on_parts: "x \<in> set (split_on c s) \<Longrightarrow> c \<notin> set x"
proof (induction s arbitrary: x)
  case (Cons a s)
  show ?case
  proof (cases "a = c")
    case False
    obtain p ps where s: "split_on c s = p # ps" by (cases "split_on c s") auto
    show ?thesis using Cons s False by auto
  qed (use Cons in auto)
qed simp

lemma join_on_Cons:
  "join_on sep (x # xs) = (if xs = [] then x else x @ sep @ join_on sep xs)"
  by (cases xs) auto

lemma join_on_append [split_simps]:
  "xs \<noteq> [] \<Longrightarrow> ys \<noteq> [] \<Longrightarrow> join_on sep (xs @ ys) = join_on sep xs @ sep @ join_on sep ys"
proof (induction xs)
  case (Cons x xs)
  then show ?case by (cases "xs = []") (auto simp: join_on_Cons)
qed simp

lemma join_split [split_simps]: "join_on [c] (split_on c s) = s"
proof (induction s)
  case (Cons a s)
  obtain p ps where "split_on c s = p # ps" by (cases "split_on c s") auto
  with Cons show ?case by (cases ps) auto
qed simp

lemma split_join [split_simps]:
  "xs \<noteq> [] \<Longrightarrow> (\<forall>x \<in> set xs. c \<notin> set x) \<Longrightarrow> split_on c (join_on [c] xs) = xs"
proof (induction xs)
  case (Cons x xs)
  then show ?case
    by (cases "xs = []") (auto simp: join_on_Cons split_on_append_sep)
qed simp

lemma set_join_on: "set (join_on sep xs) \<subseteq> (\<Union>x \<in> set xs. set x) \<union> set sep"
  by (induction sep xs rule: join_on.induct) auto

text \<open>\<open>strings.Trim s cutset\<close> for a cutset of one-byte characters.\<close>

definition TrimLeft :: "string \<Rightarrow> string \<Rightarrow> string" where
  "TrimLeft s cs = dropWhile (\<lambda>c. c \<in> set cs) s"

definition TrimRight :: "string \<Rightarrow> string \<Rightarrow> string" where
  "TrimRight s cs = rev (dropWhile (\<lambda>c. c \<in> set cs) (rev s))"

definition Trim :: "string \<Rightarrow> string \<Rightarrow> string" where
  "Trim s cs = TrimRight (TrimLeft s cs) cs"

declare TrimLeft_def [go_defs] TrimRight_def [go_defs] Trim_def [go_defs]

lemma TrimRight_single [simp]: "x \<notin> set xs \<Longrightarrow> TrimRight (xs @ [x]) [x] = xs"
  by (cases xs rule: rev_cases) (auto simp: TrimRight_def)

text \<open>\<open>strings.TrimPrefix s p\<close> and \<open>strings.HasPrefix s p\<close> (= \<open>prefix p s\<close>).\<close>

definition TrimPrefix :: "string \<Rightarrow> string \<Rightarrow> string" where
  "TrimPrefix s p = (if prefix p s then drop (length p) s else s)"

declare TrimPrefix_def [go_defs]

text \<open>
  \<open>strings.TrimSpace\<close>: the runes of \<open>unicode.IsSpace\<close>, by their UTF-8 encodings, are
  dropped at both ends. A run of trailing bytes decodes to such a rune exactly when it
  ends with the encoding, because an encoding starts with the only rune-start byte in it.
\<close>

definition space_runes :: "string list" where
  "space_runes =
     [[CHR 0x09], [CHR 0x0A], [CHR 0x0B], [CHR 0x0C], [CHR 0x0D], [CHR 0x20],
      [CHR 0xC2, CHR 0x85], [CHR 0xC2, CHR 0xA0], [CHR 0xE1, CHR 0x9A, CHR 0x80],
      [CHR 0xE2, CHR 0x80, CHR 0x80], [CHR 0xE2, CHR 0x80, CHR 0x81],
      [CHR 0xE2, CHR 0x80, CHR 0x82], [CHR 0xE2, CHR 0x80, CHR 0x83],
      [CHR 0xE2, CHR 0x80, CHR 0x84], [CHR 0xE2, CHR 0x80, CHR 0x85],
      [CHR 0xE2, CHR 0x80, CHR 0x86], [CHR 0xE2, CHR 0x80, CHR 0x87],
      [CHR 0xE2, CHR 0x80, CHR 0x88], [CHR 0xE2, CHR 0x80, CHR 0x89],
      [CHR 0xE2, CHR 0x80, CHR 0x8A], [CHR 0xE2, CHR 0x80, CHR 0xA8],
      [CHR 0xE2, CHR 0x80, CHR 0xA9], [CHR 0xE2, CHR 0x80, CHR 0xAF],
      [CHR 0xE2, CHR 0x81, CHR 0x9F], [CHR 0xE3, CHR 0x80, CHR 0x80]]"

text \<open>Drop leading members of a list of non-empty words, as long as one is a prefix.\<close>

function drop_words :: "string list \<Rightarrow> string \<Rightarrow> string" where
  "drop_words ws s =
     (case find (\<lambda>w. w \<noteq> [] \<and> prefix w s) ws of
        None \<Rightarrow> s
      | Some w \<Rightarrow> drop_words ws (drop (length w) s))"
  by pat_completeness auto
termination
proof (relation "measure (\<lambda>(ws, s). length s)")
  fix ws s w
  assume "find (\<lambda>w. w \<noteq> [] \<and> prefix w s) ws = Some w"
  then have "w \<noteq> [] \<and> prefix w s" by (auto simp: find_Some_iff)
  then show "((ws, drop (length w) s), (ws, s)) \<in> measure (\<lambda>(ws, s). length s)"
    by (cases s) (auto simp: prefix_def)
qed simp

declare drop_words.simps [simp del]

definition TrimSpace :: "string \<Rightarrow> string" where
  "TrimSpace s = rev (drop_words (map rev space_runes) (rev (drop_words space_runes s)))"

lemma TrimSpace_dot [simp]: "TrimSpace ''.'' = ''.''"
  and TrimSpace_dotdot [simp]: "TrimSpace ''..'' = ''..''"
  and TrimSpace_Nil [simp]: "TrimSpace [] = []"
  by (simp_all add: TrimSpace_def drop_words.simps space_runes_def)

text \<open>
  \<open>strings.ToUpper\<close>, exact as far as the result is compared with ASCII constants: of the
  runes above ASCII only dotless i (C4 B1) and long s (C5 BF) have an ASCII upper case;
  every other non-ASCII rune goes to a non-ASCII rune, here left as it is.
\<close>

definition upper_byte :: "char \<Rightarrow> char" where
  "upper_byte c = (if 97 \<le> (of_char c :: nat) \<and> (of_char c :: nat) \<le> 122
                   then char_of ((of_char c :: nat) - 32) else c)"

fun ToUpper :: "string \<Rightarrow> string" where
  "ToUpper [] = []"
| "ToUpper [c] = [upper_byte c]"
| "ToUpper (c # d # s) =
     (if c = CHR 0xC4 \<and> d = CHR 0xB1 then CHR ''I'' # ToUpper s
      else if c = CHR 0xC5 \<and> d = CHR 0xBF then CHR ''S'' # ToUpper s
      else upper_byte c # ToUpper (d # s))"

declare upper_byte_def [go_defs]

text \<open>\<open>strings.ReplaceAll s [c] r\<close> for a one-byte old string.\<close>

definition ReplaceAll :: "string \<Rightarrow> char \<Rightarrow> string \<Rightarrow> string" where
  "ReplaceAll s c r = concat (map (\<lambda>x. if x = c then r else [x]) s)"

lemma ReplaceAll_id [simp]: "c \<notin> set s \<Longrightarrow> ReplaceAll s c r = s"
  by (induction s) (auto simp: ReplaceAll_def)

section \<open>Package strconv: decimal integers of 64 bits\<close>

definition int64 :: "int \<Rightarrow> bool" where
  "int64 n \<longleftrightarrow> - (2 ^ 63) \<le> n \<and> n < 2 ^ 63"

definition digit :: "nat \<Rightarrow> char" where
  "digit n = char_of (48 + n)"

definition is_digit :: "char \<Rightarrow> bool" where
  "is_digit c \<longleftrightarrow> 48 \<le> (of_char c :: nat) \<and> (of_char c :: nat) \<le> 57"

definition digit_val :: "char \<Rightarrow> nat" where
  "digit_val c = of_char c - 48"

fun show_nat :: "nat \<Rightarrow> string" where
  "show_nat n = (if n < 10 then [digit n] else show_nat (n div 10) @ [digit (n mod 10)])"

declare show_nat.simps [simp del]

definition Itoa :: "int \<Rightarrow> string" where
  "Itoa i = (if i < 0 then CHR ''-'' # show_nat (nat (- i)) else show_nat (nat i))"

fun parse_nat :: "nat \<Rightarrow> string \<Rightarrow> nat option" where
  "parse_nat acc [] = Some acc"
| "parse_nat acc (c # cs) =
     (if is_digit c then parse_nat (acc * 10 + digit_val c) cs else None)"

definition atoi_sign :: "string \<Rightarrow> bool \<times> string" where
  "atoi_sign s = (case s of
       [] \<Rightarrow> (False, [])
     | c # cs \<Rightarrow> if c = CHR ''-'' then (True, cs)
                 else if c = CHR ''+'' then (False, cs) else (False, c # cs))"

text \<open>\<open>strconv.Atoi\<close>: \<open>None\<close> stands for both its errors (syntax and range).\<close>

definition Atoi :: "string \<Rightarrow> int option" where
  "Atoi s = (case atoi_sign s of (neg, t) \<Rightarrow>
     if t = [] then None
     else case parse_nat 0 t of
         None \<Rightarrow> None
       | Some n \<Rightarrow> (let v = (if neg then - int n else int n)
                   in if int64 v then Some v else None))"

declare Itoa_def [go_defs] Atoi_def [go_defs] atoi_sign_def [go_defs]
declare digit_def [go_defs] is_digit_def [go_defs] digit_val_def [go_defs]
declare int64_def [go_defs]

lemma digit_facts [simp]:
  "n < 10 \<Longrightarrow> is_digit (digit n)" "n < 10 \<Longrightarrow> digit_val (digit n) = n"
  by (simp_all add: digit_def is_digit_def digit_val_def)

lemma is_digit_not [simp]:
  "\<not> is_digit CHR ''-''" "\<not> is_digit CHR ''+''" "\<not> is_digit LF" "\<not> is_digit CHR '',''"
  "\<not> is_digit SP"
  by (simp_all add: is_digit_def)

lemmas show_nat_numeral [go_defs] =
  show_nat.simps [of "numeral k" for k] show_nat.simps [of 0] show_nat.simps [of 1]

lemmas char_of_bits [go_defs] = char_of_def bit_Suc_0_iff

lemma show_nat_not_Nil [simp]: "show_nat n \<noteq> []"
  by (subst show_nat.simps) simp

lemma show_nat_digits: "c \<in> set (show_nat n) \<Longrightarrow> is_digit c"
proof (induction n rule: show_nat.induct)
  case (1 n)
  then show ?case
    by (cases "n < 10") (subst (asm) (2) show_nat.simps; auto)+
qed

lemma parse_nat_append:
  "parse_nat acc (xs @ ys) = Option.bind (parse_nat acc xs) (\<lambda>a. parse_nat a ys)"
  by (induction xs arbitrary: acc) auto

lemma parse_show_nat [simp]: "parse_nat 0 (show_nat n) = Some n"
proof (induction n rule: show_nat.induct)
  case (1 n)
  show ?case
  proof (cases "n < 10")
    case True
    then show ?thesis by (subst show_nat.simps) simp
  next
    case False
    with 1 show ?thesis by (subst show_nat.simps) (simp add: parse_nat_append)
  qed
qed

lemma show_nat_no_sign: "hd (show_nat n) \<noteq> CHR ''-'' \<and> hd (show_nat n) \<noteq> CHR ''+''"
  using show_nat_digits [of "hd (show_nat n)" n] by (auto simp: is_digit_def)

lemma Itoa_not_Nil [simp]: "Itoa i \<noteq> []"
  by (simp add: Itoa_def)

lemma Itoa_no_char: "\<not> is_digit c \<Longrightarrow> c \<noteq> CHR ''-'' \<Longrightarrow> c \<notin> set (Itoa i)"
  by (auto simp: Itoa_def dest: show_nat_digits)

lemma Itoa_no_LF [simp]: "LF \<notin> set (Itoa i)" and Itoa_no_comma [simp]: "CHR '','' \<notin> set (Itoa i)"
  by (rule Itoa_no_char; simp)+

lemma Atoi_Itoa [simp]:
  assumes "int64 i"
  shows "Atoi (Itoa i) = Some i"
proof (cases "i < 0")
  case True
  with assms show ?thesis by (simp add: Itoa_def Atoi_def atoi_sign_def)
next
  case False
  obtain c cs where s: "show_nat (nat i) = c # cs" by (cases "show_nat (nat i)") auto
  with show_nat_no_sign [of "nat i"] have "atoi_sign (show_nat (nat i)) = (False, show_nat (nat i))"
    by (simp add: atoi_sign_def)
  with False assms show ?thesis by (simp add: Itoa_def Atoi_def)
qed

lemma Atoi_int64: "Atoi s = Some i \<Longrightarrow> int64 i"
  by (auto simp: Atoi_def Let_def split: prod.splits if_splits option.splits)

end
