(* ===== verification/Go_Fmt.thy ===== *)
theory Go_Fmt
  imports Fly_Prelude
begin

text \<open>
  \<^verbatim>\<open>fmt.Sprintf(format)\<close> called with no operands, as \<open>wire.NewError\<close> calls it
  on text that comes from the peer: the formatter of package \<^verbatim>\<open>fmt\<close> (Go 1.16,
  \<open>doPrintf\<close>) specialised to an empty operand list, and the rune functions of package
  \<^verbatim>\<open>utf8\<close> it needs. The fact the components use is \<open>sprintf0_id\<close>: a text without a
  percent sign is printed as it is.
\<close>

section \<open>Runes\<close>

abbreviation byte_val :: "char \<Rightarrow> nat" where "byte_val c \<equiv> of_char c"

text \<open>The printed form of a one-byte rune (\<open>%c\<close> of a byte): two bytes above ASCII.\<close>

definition show_rune_byte :: "char \<Rightarrow> string" where
  "show_rune_byte c =
     (if byte_val c < 128 then [c]
      else [char_of (192 + byte_val c div 64), char_of (128 + byte_val c mod 64)])"

definition cont_byte :: "nat \<Rightarrow> nat \<Rightarrow> char \<Rightarrow> bool" where
  "cont_byte lo hi c \<longleftrightarrow> lo \<le> byte_val c \<and> byte_val c \<le> hi"

text \<open>Number of bytes of the valid UTF-8 rune a string starts with, 0 if it does not.\<close>

fun rune_len :: "string \<Rightarrow> nat" where
  "rune_len [] = 0"
| "rune_len (a # s) =
     (let x = byte_val a in
      if x < 128 then 1
      else if 194 \<le> x \<and> x \<le> 223 then
        (case s of b # _ \<Rightarrow> if cont_byte 128 191 b then 2 else 0 | _ \<Rightarrow> 0)
      else if 224 \<le> x \<and> x \<le> 239 then
        (case s of
           b # c # _ \<Rightarrow>
             if cont_byte (if x = 224 then 160 else 128) (if x = 237 then 159 else 191) b
                \<and> cont_byte 128 191 c then 3 else 0
         | _ \<Rightarrow> 0)
      else if 240 \<le> x \<and> x \<le> 244 then
        (case s of
           b # c # d # _ \<Rightarrow>
             if cont_byte (if x = 240 then 144 else 128) (if x = 244 then 143 else 191) b
                \<and> cont_byte 128 191 c \<and> cont_byte 128 191 d then 4 else 0
         | _ \<Rightarrow> 0)
      else 0)"

text \<open>Decode the first rune and print it again: invalid bytes become U+FFFD, one at a time.\<close>

definition take_rune :: "string \<Rightarrow> string \<times> string" where
  "take_rune s =
     (if rune_len s = 0 then ([CHR 0xEF, CHR 0xBF, CHR 0xBD], tl s)
      else (take (rune_len s) s, drop (rune_len s) s))"

section \<open>Parts of a verb\<close>

fun parsenum :: "nat \<Rightarrow> bool \<Rightarrow> string \<Rightarrow> bool \<times> string" where
  "parsenum num isnum [] = (isnum, [])"
| "parsenum num isnum (c # cs) =
     (if is_digit c then
        if num > 1000000 then (False, []) else parsenum (num * 10 + digit_val c) True cs
      else (isnum, c # cs))"

text \<open>\<open>parseArgNumber\<close> on a string that starts with an open bracket: width and success.\<close>

definition parseArgNumber :: "string \<Rightarrow> nat \<times> bool" where
  "parseArgNumber s =
     (if length s < 3 \<or> CHR '']'' \<notin> set (tl s) then (1, False)
      else let inner = takeWhile (\<lambda>c. c \<noteq> CHR '']'') (tl s)
           in (length inner + 2, parsenum 0 False inner = (True, [])))"

text \<open>\<open>argNumber\<close> with no operands: the good-index flag, the rest, whether it was found.\<close>

definition argNumber :: "bool \<Rightarrow> string \<Rightarrow> bool \<times> string \<times> bool" where
  "argNumber good s =
     (if s \<noteq> [] \<and> hd s = CHR ''['' then
        (case parseArgNumber s of (wid, found) \<Rightarrow> (False, drop wid s, found))
      else (good, s, False))"

definition starts_with :: "char \<Rightarrow> string \<Rightarrow> bool" where
  "starts_with c s \<longleftrightarrow> s \<noteq> [] \<and> hd s = c"

text \<open>
  The steps of one verb, each from the good-index and after-index flags and the rest of the
  format to what is printed and the same three again: width, precision, last index.
\<close>

definition fmt_width :: "bool \<Rightarrow> bool \<Rightarrow> string \<Rightarrow> string \<times> bool \<times> bool \<times> string" where
  "fmt_width good after s =
     (if starts_with CHR ''*'' s then (''%!(BADWIDTH)'', good, False, tl s)
      else case parsenum 0 False s of
          (wid, r) \<Rightarrow> ([], good \<and> \<not> (after \<and> wid), after, r))"

definition fmt_prec :: "bool \<Rightarrow> bool \<Rightarrow> string \<Rightarrow> string \<times> bool \<times> bool \<times> string" where
  "fmt_prec good after s =
     (if starts_with CHR ''.'' s then
        (case argNumber (good \<and> \<not> after) (tl s) of (g, r, a) \<Rightarrow>
           if starts_with CHR ''*'' r then (''%!(BADPREC)'', g, False, tl r)
           else ([], g, a, snd (parsenum 0 False r)))
      else ([], good, after, s))"

definition fmt_last :: "bool \<Rightarrow> bool \<Rightarrow> string \<Rightarrow> bool \<times> string" where
  "fmt_last good after s =
     (if after then (good, s) else case argNumber good s of (g, r, a) \<Rightarrow> (g, r))"

definition fmt_verb :: "bool \<Rightarrow> string \<Rightarrow> string \<times> string" where
  "fmt_verb good s =
     (if s = [] then (''%!(NOVERB)'', [])
      else case take_rune s of (v, r) \<Rightarrow>
        (if v = ''%'' then ''%''
         else if \<not> good then ''%!'' @ v @ ''(BADINDEX)''
         else ''%!'' @ v @ ''(MISSING)'', r))"

text \<open>Everything after the percent sign: what is printed and what remains.\<close>

definition sprintf0_verb :: "string \<Rightarrow> string \<times> string" where
  "sprintf0_verb s =
     (case argNumber True (dropWhile (\<lambda>c. c \<in> set ''#0+- '') s) of (g1, r1, a1) \<Rightarrow>
      case fmt_width g1 a1 r1 of (o2, g2, a2, r2) \<Rightarrow>
      case fmt_prec g2 a2 r2 of (o3, g3, a3, r3) \<Rightarrow>
      case fmt_last g3 a3 r3 of (g4, r4) \<Rightarrow>
      case fmt_verb g4 r4 of (o5, r5) \<Rightarrow> (o2 @ o3 @ o5, r5))"

lemma parsenum_length: "parsenum n b s = (w, r) \<Longrightarrow> length r \<le> length s"
  by (induction n b s rule: parsenum.induct) (auto split: if_splits)

lemma argNumber_length: "argNumber g s = (g', r, f) \<Longrightarrow> length r \<le> length s"
  by (auto simp: argNumber_def split: if_splits prod.splits)

lemma take_rune_length: "s \<noteq> [] \<Longrightarrow> take_rune s = (v, r) \<Longrightarrow> length r < length s"
  by (cases s) (auto simp: take_rune_def simp del: rune_len.simps split: if_splits)

lemma fmt_width_length: "fmt_width g a s = (x, g', a', r) \<Longrightarrow> length r \<le> length s"
  by (auto simp: fmt_width_def split: if_splits prod.splits dest: parsenum_length)

lemma fmt_prec_length:
  assumes "fmt_prec g a s = (x, g', a', r)"
  shows "length r \<le> length s"
proof (cases "starts_with CHR ''.'' s")
  case True
  obtain h q b where q: "argNumber (g \<and> \<not> a) (tl s) = (h, q, b)"
    by (cases "argNumber (g \<and> \<not> a) (tl s)")
  from argNumber_length [OF q] have "length q \<le> length s" by simp
  moreover obtain w t where "parsenum 0 False q = (w, t)" by fastforce
  moreover from parsenum_length [OF this] have "length t \<le> length q" .
  ultimately show ?thesis using assms True q by (auto simp: fmt_prec_def split: if_splits)
qed (use assms in \<open>simp add: fmt_prec_def\<close>)

lemma fmt_last_length: "fmt_last g a s = (g', r) \<Longrightarrow> length r \<le> length s"
  by (auto simp: fmt_last_def split: if_splits prod.splits dest: argNumber_length)

lemma fmt_verb_length: "fmt_verb g s = (x, r) \<Longrightarrow> length r \<le> length s"
  by (auto simp: fmt_verb_def split: if_splits prod.splits dest: take_rune_length)

lemma sprintf0_verb_length:
  assumes "sprintf0_verb s = (x, r)"
  shows "length r \<le> length s"
proof -
  have "length (dropWhile (\<lambda>c. c \<in> set ''#0+- '') s) \<le> length s" by (rule length_dropWhile_le)
  then show ?thesis using assms unfolding sprintf0_verb_def
    by (auto split: prod.splits dest!: argNumber_length fmt_width_length fmt_prec_length
        fmt_last_length fmt_verb_length)
qed

section \<open>The formatter\<close>

function sprintf0 :: "string \<Rightarrow> string" where
  "sprintf0 [] = []"
| "sprintf0 (c # s) =
     (if c = CHR ''%'' then (case sprintf0_verb s of (out, r) \<Rightarrow> out @ sprintf0 r)
      else c # sprintf0 s)"
  by pat_completeness auto
termination
  by (relation "measure length") (auto dest: sprintf0_verb_length [OF sym])

lemma sprintf0_id [simp]: "CHR ''%'' \<notin> set s \<Longrightarrow> sprintf0 s = s"
  by (induction s) auto

lemmas fmt_defs [go_defs] = sprintf0_verb_def argNumber_def fmt_width_def fmt_prec_def
  fmt_last_def fmt_verb_def starts_with_def take_rune_def parseArgNumber_def

lemma sprintf0_examples:
  "sprintf0 ''100%% of %d'' = ''100% of %!d(MISSING)''"
  "sprintf0 ''50% sure'' = ''50%!s(MISSING)ure''"
  "sprintf0 ''a%[1]d b%'' = ''a%!d(BADINDEX) b%!(NOVERB)''"
  by (simp_all add: go_defs)

end
