(* ===== verification/Wire_Values.thy ===== *)
theory Wire_Values
  imports Go_Fmt
begin

text \<open>
  The values of the protocol and how they are written: \<^verbatim>\<open>src/internal/wire/wire.go\<close>,
  the struct types, the constructors, \<open>WriteTo\<close>, \<open>Name\<close> and the table operations
  \<open>Add\<close> and \<open>Row\<close>. The reader is in theory \<open>Wire_Reader\<close>.
\<close>

named_theorems wire_simps \<open>the shapes of encoded values\<close>

section \<open>Values\<close>

text \<open>
  The interface \<open>Value\<close> is the type, its implementations are the constructors. A Go
  \<open>int\<close> is an \<open>int\<close> here (64 bits where it is read, see \<open>int64\<close>). The entries of a
  \<open>Map\<close> are listed in the order in which one \<open>range\<close> loop visits them, which Go leaves
  open: what is proved for every list holds for every order.
\<close>

datatype wvalue =
    Null
  | Bool bool
  | String string
  | Blob bytes
  | Integer int
  | Error string string
  | Array "wvalue list"
  | Table int int "wvalue list"
  | Map "(string \<times> wvalue) list"
  | TaggedValue string wvalue

definition OK :: wvalue where
  "OK = String ''OK''"

text \<open>The constructor functions; \<open>NewError\<close> prints its message argument as a format.\<close>

definition NewString :: "string \<Rightarrow> wvalue" where "NewString val = String val"
definition NewBlob :: "bytes \<Rightarrow> wvalue" where "NewBlob d = Blob d"
definition NewInteger :: "int \<Rightarrow> wvalue" where "NewInteger val = Integer val"
definition NewBoolean :: "bool \<Rightarrow> wvalue" where "NewBoolean val = Bool val"
definition NewMap :: "(string \<times> wvalue) list \<Rightarrow> wvalue" where "NewMap m = Map m"
definition NewArray :: "wvalue list \<Rightarrow> wvalue" where "NewArray a = Array a"
definition NewTaggedValue :: "wvalue \<Rightarrow> string \<Rightarrow> wvalue" where
  "NewTaggedValue val tag = TaggedValue tag val"

definition NewError :: "string \<Rightarrow> string \<Rightarrow> wvalue" where
  "NewError code format = Error code (sprintf0 format)"

text \<open>
  A call with operands, all of them strings under \<open>%s\<close> or \<open>%v\<close>: the format is given
  already split at its verbs, so that printing is concatenation.
\<close>

definition NewErrorf :: "string \<Rightarrow> string list \<Rightarrow> wvalue" where
  "NewErrorf code parts = Error code (concat parts)"

lemmas wire_constructors [wire_simps] = NewString_def NewBlob_def NewInteger_def
  NewBoolean_def NewMap_def NewArray_def NewTaggedValue_def

fun Name :: "wvalue \<Rightarrow> string" where
  "Name (TaggedValue _ _) = ''tagged value''"
| "Name Null = ''null''"
| "Name (Array _) = ''array''"
| "Name (Bool _) = ''boolean''"
| "Name (String _) = ''string''"
| "Name (Blob _) = ''blob''"
| "Name (Integer _) = ''integer''"
| "Name (Error _ _) = ''error''"
| "Name (Map _) = ''map''"
| "Name (Table _ _ _) = ''table''"

section \<open>Writing\<close>

text \<open>
  The bytes one call of \<open>WriteTo\<close> hands to the writer. Composite values are built in a
  buffer and written at once.
\<close>

definition write_String :: "string \<Rightarrow> bytes" where
  "write_String s = ''+'' @ s @ [LF]"

fun WriteTo :: "wvalue \<Rightarrow> bytes" where
  "WriteTo (Bool b) = (if b then ''#t'' @ [LF] else ''#f'' @ [LF])"
| "WriteTo (String s) = write_String s"
| "WriteTo (Blob d) = ''$'' @ Itoa (int (length d)) @ [LF] @ d @ [LF]"
| "WriteTo (Integer i) = '':'' @ Itoa i @ [LF]"
| "WriteTo (TaggedValue tag v) = ''@'' @ tag @ [LF] @ WriteTo v"
| "WriteTo (Error code msg) = ''-'' @ code @ '' '' @ msg @ [LF]"
| "WriteTo Null = ''_'' @ [LF]"
| "WriteTo (Array vs) = ''*'' @ Itoa (int (length vs)) @ [LF] @ concat (map WriteTo vs)"
| "WriteTo (Table rows cols d) =
     ''='' @ Itoa rows @ '','' @ Itoa cols @ [LF] @ concat (map WriteTo d)"
| "WriteTo (Map m) =
     ''%'' @ Itoa (int (length m)) @ [LF]
       @ concat (map (\<lambda>(k, v). write_String k @ WriteTo v) m)"

declare write_String_def [wire_simps]

lemma WriteTo_not_Nil [simp]: "WriteTo v \<noteq> []"
  by (cases v) (auto simp: write_String_def)

section \<open>Tables\<close>

text \<open>\<open>Table.Add\<close> on the three fields: row count, column count, data.\<close>

type_synonym table = "int \<times> int \<times> wvalue list"

definition Add :: "table \<Rightarrow> wvalue list \<Rightarrow> table" where
  "Add t row =
     (case t of (rows, cols, d) \<Rightarrow>
        if length d = 0 then (0 + 1, int (length row), d @ row)
        else (rows + 1, cols, d @ row))"

text \<open>
  \<open>Table.Row\<close>: the empty list for an index out of range (Go's nil), \<open>None\<close> where the
  slice expression is out of the bounds of the data. (Go checks against the capacity; for a
  table with \<open>table_ok\<close> the two agree.)
\<close>

definition Row :: "table \<Rightarrow> int \<Rightarrow> wvalue list option" where
  "Row t i =
     (case t of (rows, cols, d) \<Rightarrow>
        if i < 0 \<or> i \<ge> rows then Some []
        else if 0 \<le> i * cols \<and> i * cols \<le> (i + 1) * cols \<and> (i + 1) * cols \<le> int (length d)
        then Some (take (nat cols) (drop (nat (i * cols)) d))
        else None)"

text \<open>What keeps \<open>Row\<close> in bounds: the data is exactly the rows.\<close>

definition table_ok :: "table \<Rightarrow> bool" where
  "table_ok t = (case t of (rows, cols, d) \<Rightarrow>
     0 \<le> rows \<and> (d \<noteq> [] \<longrightarrow> 0 \<le> cols) \<and> rows * (if d = [] then 0 else cols) = int (length d))"

text \<open>A table made by adding rows of one length, as every caller makes it.\<close>

definition table_of_rows :: "wvalue list list \<Rightarrow> table" where
  "table_of_rows rs = foldl Add (0, 0, []) rs"

lemma foldl_Add:
  assumes "\<forall>r \<in> set rs. int (length r) = cols" and "0 < cols" and "d \<noteq> []"
  shows "foldl Add (rows, cols, d) rs = (rows + int (length rs), cols, d @ concat rs)"
  using assms by (induction rs arbitrary: rows d) (auto simp: Add_def)

lemma table_of_rows_eq:
  assumes "\<forall>r \<in> set rs. int (length r) = cols" and "0 < cols" and "rs \<noteq> []"
  shows "table_of_rows rs = (int (length rs), cols, concat rs)"
proof (cases rs)
  case (Cons r rest)
  with assms have "Add (0, 0, []) r = (1, cols, r)" and "r \<noteq> []"
    by (auto simp: Add_def)
  with Cons assms show ?thesis
    by (simp add: table_of_rows_def foldl_Add)
qed (use assms in simp)

lemma concat_rows_length: "(\<forall>r \<in> set rs. length r = n) \<Longrightarrow> length (concat rs) = length rs * n"
  by (induction rs) auto

lemma concat_rows_drop:
  "(\<forall>r \<in> set rs. length r = n) \<Longrightarrow> i < length rs \<Longrightarrow>
   take n (drop (i * n) (concat rs)) = rs ! i"
proof (induction rs arbitrary: i)
  case (Cons r rs)
  then show ?case by (cases i) auto
qed simp

end
