(* ===== verification/Wire_Reader_Facts.thy ===== *)
theory Wire_Reader_Facts
  imports Wire_Reader
begin

text \<open>
  How the reader uses its input: it only ever drops bytes from the front, a successful read
  drops at least one, what it reads does not depend on the bytes behind it, and the fuel of
  \<open>Read\<close> is always enough. The contract of a nested reader is the locale
  \<open>consuming_reader\<close>; the loops of arrays and tables are proved against it once, and it
  is discharged for \<open>readValue\<close> by induction on the fuel, and for \<open>Read\<close>.
\<close>

section \<open>Lines and sizes\<close>

lemma ReadByte_Inr_iff: "ReadByte r s = (Inr b, s') \<longleftrightarrow> s = b # s'"
  by (cases s) auto

lemma ReadByte_Inl_iff: "ReadByte r s = (Inl e, s') \<longleftrightarrow> s = [] \<and> s' = [] \<and> e = err_text r"
  by (cases s) auto

lemma readLine_Inl: "readLine r s = (Inl e, s') \<Longrightarrow> s' = []"
  by (auto simp: readLine_def split: prod.splits sum.splits dest: ReadBytes_Inl)

lemma nextLine_suffix: "nextLine r s = (x, s') \<Longrightarrow> suffix s' s"
proof (induction r s rule: nextLine.induct)
  case (1 r s)
  show ?case
  proof (cases "readLine r s")
    case (Pair y t)
    show ?thesis
    proof (cases y)
      case (Inl e)
      with Pair 1 have "s' = []"
        by (subst (asm) nextLine.simps) (auto dest: readLine_Inl)
      then show ?thesis by simp
    next
      case (Inr l)
      with Pair have s: "s = l @ LF # t" by (simp add: readLine_Inr_iff)
      then have "suffix t s" by (simp add: suffix_def)
      then show ?thesis
        using "1.IH" [OF Pair [symmetric] Inr] "1.prems" Pair Inr
        by (subst (asm) nextLine.simps)
           (auto split: if_splits intro: suffix_order.trans)
    qed
  qed
qed

lemma nextLine_local: "nextLine r s = (Inr l, s') \<Longrightarrow> nextLine r (s @ q) = (Inr l, s' @ q)"
proof (induction r s rule: nextLine.induct)
  case (1 r s)
  from "1.prems" obtain k t where k: "readLine r s = (Inr k, t)"
    by (subst (asm) nextLine.simps) (auto split: prod.splits sum.splits)
  then have q: "readLine r (s @ q) = (Inr k, t @ q)"
    by (simp add: readLine_Inr_iff)
  show ?case
  proof (cases "k = []")
    case True
    with "1.prems" k have "nextLine r t = (Inr l, s')"
      by (subst (asm) nextLine.simps) simp
    with "1.IH" [OF k [symmetric] refl] True q show ?thesis
      by (subst nextLine.simps) simp
  next
    case False
    with "1.prems" k have "l = k" and "s' = t"
      by (subst (asm) nextLine.simps, simp)+
    with False q show ?thesis by (subst nextLine.simps) simp
  qed
qed

lemma nextLine_line [simp]:
  "l \<noteq> [] \<Longrightarrow> LF \<notin> set l \<Longrightarrow> nextLine r (l @ LF # s) = (Inr l, s)"
  using readLine_Inr_iff [of r "l @ LF # s" l s] by (subst nextLine.simps) simp

lemma nextLine_no_LF: "LF \<notin> set s \<Longrightarrow> nextLine r s = (Inl (''I/O error: '' @ err_text r), [])"
  by (subst nextLine.simps) (simp add: readLine_def ReadBytes_def)

lemma nextLine_nonempty: "nextLine r s = (Inr l, s') \<Longrightarrow> l \<noteq> [] \<and> LF \<notin> set l"
proof (induction r s rule: nextLine.induct)
  case (1 r s)
  from "1.prems" obtain k t where k: "readLine r s = (Inr k, t)"
    by (subst (asm) nextLine.simps) (auto split: prod.splits sum.splits)
  then show ?case
    using "1.IH" [OF k [symmetric] refl] "1.prems" k
    by (subst (asm) (2) nextLine.simps) (auto simp: readLine_Inr_iff split: if_splits)
qed

lemma readSize_suffix: "readSize r s = (x, s') \<Longrightarrow> suffix s' s"
  by (auto simp: readSize_def split: prod.splits sum.splits option.splits dest: nextLine_suffix)

lemma readSize_local: "readSize r s = (Inr n, s') \<Longrightarrow> readSize r (s @ q) = (Inr n, s' @ q)"
  by (auto simp: readSize_def nextLine_local split: prod.splits sum.splits option.splits)

lemma readSize_int64: "readSize r s = (Inr n, s') \<Longrightarrow> int64 n"
  by (auto simp: readSize_def split: prod.splits sum.splits option.splits dest: Atoi_int64)

lemma readSize_Itoa [simp]: "int64 n \<Longrightarrow> readSize r (Itoa n @ LF # s) = (Inr n, s)"
  by (simp add: readSize_def)

lemma readTableSize_suffix: "readTableSize r s = (x, s') \<Longrightarrow> suffix s' s"
  by (auto simp: readTableSize_def split: prod.splits sum.splits option.splits if_splits
      dest: nextLine_suffix)

lemma readTableSize_local:
  "readTableSize r s = (Inr n, s') \<Longrightarrow> readTableSize r (s @ q) = (Inr n, s' @ q)"
  by (auto simp: readTableSize_def nextLine_local
      split: prod.splits sum.splits option.splits if_splits)

lemma readTableSize_int64:
  "readTableSize r s = (Inr (m, n), s') \<Longrightarrow> int64 m \<and> int64 n"
  by (auto simp: readTableSize_def split: prod.splits sum.splits option.splits if_splits
      dest: Atoi_int64)

lemma readTableSize_Itoa [simp]:
  assumes "int64 m" and "int64 n"
  shows "readTableSize r (Itoa m @ CHR '','' # Itoa n @ LF # s) = (Inr (m, n), s)"
proof -
  have "nextLine r ((Itoa m @ CHR '','' # Itoa n) @ LF # s) = (Inr (Itoa m @ CHR '','' # Itoa n), s)"
    by (rule nextLine_line) auto
  with assms show ?thesis by (simp add: readTableSize_def)
qed

section \<open>Values without nested values\<close>

lemmas handle_leaf_defs = handleNull_def handleBoolean_def handleString_def handleError_def
  handleBlob_def ReadFull_def

lemma ReadBytes_suffix: "ReadBytes r c s = (x, s') \<Longrightarrow> suffix s' s"
  by (cases x) (auto simp: ReadBytes_Inr_iff suffix_def dest: ReadBytes_Inl)

lemma ReadByte_suffix: "ReadByte r s = (x, s') \<Longrightarrow> suffix s' s"
  by (cases s) (auto simp: suffix_def)

lemmas source_suffix = ReadBytes_suffix ReadByte_suffix readSize_suffix readTableSize_suffix

lemma handle_leaf_suffix:
  "handleNull r s = (x, s') \<Longrightarrow> suffix s' s"
  "handleBoolean r s = (x, s') \<Longrightarrow> suffix s' s"
  "handleString r s = (x, s') \<Longrightarrow> suffix s' s"
  "handleError r s = (x, s') \<Longrightarrow> suffix s' s"
  "handleBlob r n s = (x, s') \<Longrightarrow> suffix s' s"
  by (auto simp: handle_leaf_defs Let_def suffix_drop
      split: prod.splits sum.splits if_splits dest!: source_suffix
      intro: suffix_order.trans suffix_drop)

lemma handle_leaf_local:
  "handleNull r s = (Inr v, s') \<Longrightarrow> handleNull r (s @ q) = (Inr v, s' @ q)"
  "handleBoolean r s = (Inr v, s') \<Longrightarrow> handleBoolean r (s @ q) = (Inr v, s' @ q)"
  "handleString r s = (Inr v, s') \<Longrightarrow> handleString r (s @ q) = (Inr v, s' @ q)"
  "handleError r s = (Inr v, s') \<Longrightarrow> handleError r (s @ q) = (Inr v, s' @ q)"
  "handleBlob r n s = (Inr v, s') \<Longrightarrow> handleBlob r n (s @ q) = (Inr v, s' @ q)"
  by (auto simp: handle_leaf_defs Let_def ReadByte_Inr_iff ReadBytes_Inr_iff
      split: prod.splits sum.splits if_splits)

lemma handle_leaf_fuel:
  "fst (handleNull r s) \<noteq> Inl NoFuel" "fst (handleBoolean r s) \<noteq> Inl NoFuel"
  "fst (handleString r s) \<noteq> Inl NoFuel" "fst (handleError r s) \<noteq> Inl NoFuel"
  "fst (handleBlob r n s) \<noteq> Inl NoFuel"
  by (auto simp: handle_leaf_defs Let_def wrapIO_def wrapFormat_def unexpected_def makeslice_def
      split: prod.splits sum.splits if_splits)

section \<open>Inversion of the loops and the composite values\<close>

lemma read_n_Suc_iff:
  "read_n rv (Suc n) s = (Inr vs, s') \<longleftrightarrow>
   (\<exists>v t ws. rv s = (Inr v, t) \<and> read_n rv n t = (Inr ws, s') \<and> vs = v # ws)"
  by (auto split: prod.splits sum.splits)

lemma read_rows_Suc_iff:
  "read_rows rv c (Suc n) t s = (Inr u, s') \<longleftrightarrow>
   (\<exists>k row s1. makeslice value_size c = Inr k \<and> read_n rv k s = (Inr row, s1)
      \<and> read_rows rv c n (Add t row) s1 = (Inr u, s'))"
  by (auto split: prod.splits sum.splits)

lemma handleArray_iff:
  "handleArray rv n s = (Inr v, s') \<longleftrightarrow>
   (\<exists>k vs. makeslice value_size n = Inr k \<and> read_n rv k s = (Inr vs, s') \<and> v = Array vs)"
  by (auto simp: handleArray_def split: prod.splits sum.splits)

lemma handleTable_iff:
  "handleTable r rv s = (Inr v, s') \<longleftrightarrow>
   (\<exists>rows cols s1 rc cc d. readTableSize r s = (Inr (rows, cols), s1)
      \<and> read_rows rv cols (nat rows) (0, cols, []) s1 = (Inr (rc, cc, d), s')
      \<and> v = Table rc cc d)"
  by (auto simp: handleTable_def split: prod.splits sum.splits)

lemma handleTag_iff:
  "handleTag r rv b s = (Inr v, s') \<longleftrightarrow>
   (\<exists>tag s1 w. b \<and> LF \<notin> set tag \<and> s = tag @ LF # s1 \<and> rv s1 = (Inr w, s')
      \<and> v = TaggedValue tag w)"
  by (auto simp: handleTag_def Let_def ReadBytes_Inr_iff wire_constructors
      split: prod.splits sum.splits)

lemmas loop_iffs = read_n_Suc_iff read_rows_Suc_iff handleArray_iff handleTable_iff handleTag_iff

section \<open>The contract of a nested reader\<close>

locale consuming_reader =
  fixes rv :: "'a rd"
  assumes rest: "rv s = (x, s') \<Longrightarrow> suffix s' s"
    and progress: "rv s = (Inr v, s') \<Longrightarrow> s' \<noteq> s"
    and extend: "rv s = (Inr v, s') \<Longrightarrow> rv (s @ q) = (Inr v, s' @ q)"
begin

lemma shorter: "rv s = (Inr v, s') \<Longrightarrow> length s' < length s"
  using rest [of s "Inr v" s'] progress [of s v s'] by (auto simp: suffix_def)

lemma read_n_rest: "read_n rv n s = (x, s') \<Longrightarrow> suffix s' s"
proof (induction n arbitrary: s x s')
  case (Suc n)
  obtain y t where y: "rv s = (y, t)" by (cases "rv s")
  then have t: "suffix t s" by (rule rest)
  show ?case
  proof (cases y)
    case (Inr v)
    obtain z u where z: "read_n rv n t = (z, u)" by (cases "read_n rv n t")
    from Suc.IH [OF z] t have "suffix u s" by (rule suffix_order.trans)
    with Suc.prems y Inr z show ?thesis by (auto split: sum.splits)
  qed (use Suc.prems y t in auto)
qed simp

lemma read_n_extend: "read_n rv n s = (Inr vs, s') \<Longrightarrow> read_n rv n (s @ q) = (Inr vs, s' @ q)"
proof (induction n arbitrary: s vs)
  case (Suc n)
  then show ?case unfolding read_n_Suc_iff by (blast dest: extend)
qed simp

lemma read_n_length: "read_n rv n s = (Inr vs, s') \<Longrightarrow> length vs = n"
  by (induction n arbitrary: s vs) (auto split: prod.splits sum.splits)

text \<open>A prefix that holds one encoding read completely cannot yield a value when cut short.\<close>

lemma no_partial_value:
  assumes "rv (p @ q) = (Inr v, [])" and "q \<noteq> []"
  shows "\<nexists>w s'. rv p = (Inr w, s')"
proof
  assume "\<exists>w s'. rv p = (Inr w, s')"
  then obtain w s' where "rv p = (Inr w, s')" by blast
  from extend [OF this, of q] assms show False by simp
qed

end

text \<open>The loops and composite values over any nested reader of wire values.\<close>

locale consuming_value_reader = consuming_reader rv for rv :: "wvalue rd"
begin

lemma read_rows_rest: "read_rows rv c n t s = (x, s') \<Longrightarrow> suffix s' s"
proof (induction n arbitrary: t s x s')
  case (Suc n)
  show ?case
  proof (cases "makeslice value_size c")
    case (Inr k)
    obtain y u where y: "read_n rv k s = (y, u)" by (cases "read_n rv k s")
    from read_n_rest [OF this] have u: "suffix u s" .
    show ?thesis
    proof (cases y)
      case (Inr row)
      with Suc.prems y \<open>makeslice value_size c = Inr k\<close>
      have "read_rows rv c n (Add t row) u = (x, s')" by simp
      from Suc.IH [OF this] u show ?thesis by (rule suffix_order.trans)
    qed (use Suc.prems y \<open>makeslice value_size c = Inr k\<close> u in auto)
  qed (use Suc.prems in auto)
qed simp

lemma read_rows_extend:
  "read_rows rv c n t s = (Inr u, s') \<Longrightarrow> read_rows rv c n t (s @ q) = (Inr u, s' @ q)"
proof (induction n arbitrary: t s)
  case (Suc n)
  then show ?case unfolding read_rows_Suc_iff by (blast dest: read_n_extend)
qed simp

lemma handleArray_rest: "handleArray rv n s = (x, s') \<Longrightarrow> suffix s' s"
  by (auto simp: handleArray_def split: sum.splits prod.splits dest: read_n_rest)

lemma handleArray_extend:
  "handleArray rv n s = (Inr v, s') \<Longrightarrow> handleArray rv n (s @ q) = (Inr v, s' @ q)"
  unfolding handleArray_iff by (blast dest: read_n_extend)

lemma handleTable_rest: "handleTable r rv s = (x, s') \<Longrightarrow> suffix s' s"
  by (auto simp: handleTable_def split: sum.splits prod.splits
      dest!: read_rows_rest readTableSize_suffix dest: suffix_order.trans)

lemma handleTable_extend:
  "handleTable r rv s = (Inr v, s') \<Longrightarrow> handleTable r rv (s @ q) = (Inr v, s' @ q)"
  unfolding handleTable_iff by (blast dest: read_rows_extend readTableSize_local)

lemma handleTag_rest: "handleTag r rv b s = (x, s') \<Longrightarrow> suffix s' s"
  by (auto simp: handleTag_def Let_def split: sum.splits prod.splits if_splits
      dest!: rest ReadBytes_suffix dest: suffix_order.trans)

lemma handleTag_extend:
  "handleTag r rv b s = (Inr v, s') \<Longrightarrow> handleTag r rv b (s @ q) = (Inr v, s' @ q)"
  unfolding handleTag_iff by (elim exE conjE, rule_tac x = tag in exI) (auto dest: extend)

end

section \<open>readValue keeps the contract\<close>

lemma readValue_Cons:
  "readValue (Suc d) r t (b # s) =
     (if b = CHR ''_'' then handleNull r s
      else if b = CHR ''#'' then handleBoolean r s
      else if b = CHR ''+'' then handleString r s
      else if b = CHR ''-'' then handleError r s
      else if b = CHR ''@'' then handleTag r (readValue d r False) t s
      else if b = CHR ''='' then handleTable r (readValue d r False) s
      else if b = CHR ''*'' \<or> b = CHR ''$'' \<or> b = CHR '':'' then
        (case readSize r s of
           (Inl e, s2) \<Rightarrow> (Inl (wrapFormat e), s2)
         | (Inr n, s2) \<Rightarrow>
             if b = CHR ''*'' then handleArray (readValue d r False) n s2
             else if b = CHR ''$'' then handleBlob r n s2
             else (Inr (Integer n), s2))
      else (Inl (unexpected b []), s))"
  by simp

declare readValue.simps(2) [simp del]

lemma readValue_Nil [simp]: "readValue (Suc d) r t [] = (Inl (wrapIO (err_text r)), [])"
  by (simp add: readValue.simps(2))

lemma readValue_cases:
  assumes "readValue (Suc d) r t (b # s) = res"
  obtains (null) "b = CHR ''_''" "res = handleNull r s"
    | (boolean) "b = CHR ''#''" "res = handleBoolean r s"
    | (string) "b = CHR ''+''" "res = handleString r s"
    | (error) "b = CHR ''-''" "res = handleError r s"
    | (tag) "b = CHR ''@''" "res = handleTag r (readValue d r False) t s"
    | (table) "b = CHR ''=''" "res = handleTable r (readValue d r False) s"
    | (bad_size) e s2 where "b \<in> {CHR ''*'', CHR ''$'', CHR '':''}"
        "readSize r s = (Inl e, s2)" "res = (Inl (wrapFormat e), s2)"
    | (array) n s2 where "b = CHR ''*''" "readSize r s = (Inr n, s2)"
        "res = handleArray (readValue d r False) n s2"
    | (blob) n s2 where "b = CHR ''$''" "readSize r s = (Inr n, s2)" "res = handleBlob r n s2"
    | (int) n s2 where "b = CHR '':''" "readSize r s = (Inr n, s2)" "res = (Inr (Integer n), s2)"
    | (other) "b \<notin> set ''_#+-@=*$:''" "res = (Inl (unexpected b []), s)"
proof (cases "b \<in> {CHR ''*'', CHR ''$'', CHR '':''}")
  case True
  obtain y s2 where y: "readSize r s = (y, s2)" by (cases "readSize r s")
  show thesis
  proof (cases y)
    case (Inl e)
    with True y assms that(7) [of e s2] show thesis by (auto simp: readValue_Cons)
  next
    case (Inr n)
    from True consider "b = CHR ''*''" | "b = CHR ''$''" | "b = CHR '':''" by blast
    then show thesis
      using y Inr assms that(8,9,10) [of n s2] by cases (simp_all add: readValue_Cons)
  qed
next
  case False
  consider "b = CHR ''_''" | "b = CHR ''#''" | "b = CHR ''+''" | "b = CHR ''-''"
    | "b = CHR ''@''" | "b = CHR ''=''" | "b \<notin> set ''_#+-@=*$:''"
    using False by fastforce
  then show thesis
    using assms False that(1-6,11) by cases (simp_all add: readValue_Cons)
qed

lemma consuming_value_readerI:
  fixes rv :: "wvalue rd"
  assumes "\<And>s x s'. rv s = (x, s') \<Longrightarrow> suffix s' s"
    and "\<And>s v s'. rv s = (Inr v, s') \<Longrightarrow> s' \<noteq> s"
    and "\<And>s v s' q. rv s = (Inr v, s') \<Longrightarrow> rv (s @ q) = (Inr v, s' @ q)"
  shows "consuming_value_reader rv"
  unfolding consuming_value_reader_def consuming_reader_def using assms by blast

lemma readValue_step_rest:
  assumes nested: "consuming_value_reader (readValue d r False)"
    and res: "readValue (Suc d) r t (b # s) = (x, s')"
  shows "suffix s' s"
  using res
proof (cases rule: readValue_cases)
  case (array n s2)
  have "suffix s' s2"
    by (rule consuming_value_reader.handleArray_rest [OF nested array(3) [symmetric]])
  then show ?thesis using readSize_suffix [OF array(2)] by (rule suffix_order.trans)
next
  case (blob n s2)
  have "suffix s' s2" by (rule handle_leaf_suffix(5) [OF blob(3) [symmetric]])
  then show ?thesis using readSize_suffix [OF blob(2)] by (rule suffix_order.trans)
next
  case tag
  then show ?thesis
    by (metis consuming_value_reader.handleTag_rest [OF nested])
next
  case table
  then show ?thesis
    by (metis consuming_value_reader.handleTable_rest [OF nested])
qed (auto dest: handle_leaf_suffix [OF sym] readSize_suffix)

lemma readValue_step_extend:
  assumes nested: "consuming_value_reader (readValue d r False)"
    and res: "readValue (Suc d) r t (b # s) = (Inr v, s')"
  shows "readValue (Suc d) r t (b # s @ q) = (Inr v, s' @ q)"
  using res
proof (cases rule: readValue_cases)
  case (array n s2)
  with consuming_value_reader.handleArray_extend [OF nested array(3) [symmetric], of q]
    readSize_local [OF array(2), of q]
  show ?thesis by (simp add: readValue_Cons)
next
  case (blob n s2)
  with handle_leaf_local(5) [OF blob(3) [symmetric], of q] readSize_local [OF blob(2), of q]
  show ?thesis by (simp add: readValue_Cons)
next
  case (int n s2)
  with readSize_local [OF int(2), of q] show ?thesis by (simp add: readValue_Cons)
next
  case tag
  with consuming_value_reader.handleTag_extend [OF nested tag(2) [symmetric], of q]
  show ?thesis by (simp add: readValue_Cons)
next
  case table
  with consuming_value_reader.handleTable_extend [OF nested table(2) [symmetric], of q]
  show ?thesis by (simp add: readValue_Cons)
qed (auto simp: readValue_Cons dest: handle_leaf_local [OF sym, of _ _ _ _ q])

lemma readValue_consuming: "consuming_value_reader (readValue d r t)"
proof (induction d arbitrary: t)
  case 0
  show ?case by (rule consuming_value_readerI) auto
next
  case (Suc d)
  note step = readValue_step_rest [OF Suc.IH [of False]]
    readValue_step_extend [OF Suc.IH [of False]]
  show ?case
  proof (rule consuming_value_readerI)
    fix s x s' assume "readValue (Suc d) r t s = (x, s')"
    then show "suffix s' s"
      by (cases s) (auto dest: step(1) intro: suffix_ConsI)
  next
    fix s v s' assume a: "readValue (Suc d) r t s = (Inr v, s')"
    then obtain b u where s: "s = b # u" by (cases s) auto
    with a step(1) have "suffix s' u" by blast
    with s show "s' \<noteq> s" by (auto simp: suffix_def)
  next
    fix s v s' q assume a: "readValue (Suc d) r t s = (Inr v, s')"
    then obtain b u where s: "s = b # u" by (cases s) auto
    with a step(2) [of t b u v s' q] show "readValue (Suc d) r t (s @ q) = (Inr v, s' @ q)"
      by simp
  qed
qed

interpretation rd: consuming_value_reader "readValue d r t" for d r t
  by (rule readValue_consuming)

section \<open>Fuel\<close>

text \<open>A reader with more fuel agrees with one with less wherever that one did not run out.\<close>

definition fuel_le :: "'a rd \<Rightarrow> 'a rd \<Rightarrow> bool" where
  "fuel_le f g \<longleftrightarrow> (\<forall>s. fst (f s) \<noteq> Inl NoFuel \<longrightarrow> g s = f s)"

lemma fuel_le_read_n: "fuel_le f g \<Longrightarrow> fuel_le (read_n f n) (read_n g n)"
proof (induction n)
  case (Suc n)
  show ?case unfolding fuel_le_def
  proof (intro allI impI)
    fix s assume ok: "fst (read_n f (Suc n) s) \<noteq> Inl NoFuel"
    obtain x u where x: "f s = (x, u)" by (cases "f s")
    with ok have "x \<noteq> Inl NoFuel" by auto
    with x Suc.prems have "g s = (x, u)" by (auto simp: fuel_le_def)
    moreover have "read_n g n u = read_n f n u" if "x = Inr v" for v
      using Suc.IH [OF Suc.prems] ok x that
      by (cases "read_n f n u") (auto simp: fuel_le_def split: sum.splits)
    ultimately show "read_n g (Suc n) s = read_n f (Suc n) s"
      using x by (auto split: sum.splits)
  qed
qed (simp add: fuel_le_def)

lemma fuel_le_read_rows: "fuel_le f g \<Longrightarrow> fuel_le (read_rows f c n t) (read_rows g c n t)"
proof (induction n arbitrary: t)
  case (Suc n)
  show ?case unfolding fuel_le_def
  proof (intro allI impI)
    fix s assume ok: "fst (read_rows f c (Suc n) t s) \<noteq> Inl NoFuel"
    show "read_rows g c (Suc n) t s = read_rows f c (Suc n) t s"
    proof (cases "makeslice value_size c")
      case (Inr k)
      obtain x u where x: "read_n f k s = (x, u)" by (cases "read_n f k s")
      with ok Inr have "x \<noteq> Inl NoFuel" by auto
      with x fuel_le_read_n [OF Suc.prems, of k] have "read_n g k s = (x, u)"
        by (auto simp: fuel_le_def)
      moreover have "read_rows g c n (Add t row) u = read_rows f c n (Add t row) u"
        if "x = Inr row" for row
        using Suc.IH [OF Suc.prems, of "Add t row"] ok x Inr that by (auto simp: fuel_le_def)
      ultimately show ?thesis using x Inr by (auto split: sum.splits)
    qed simp
  qed
qed (simp add: fuel_le_def)

lemma fuel_le_composite:
  assumes "fuel_le f g"
  shows "fuel_le (handleArray f n) (handleArray g n)"
    and "fuel_le (handleTable r f) (handleTable r g)"
    and "fuel_le (handleTag r f b) (handleTag r g b)"
proof -
  show "fuel_le (handleArray f n) (handleArray g n)" unfolding fuel_le_def
  proof (intro allI impI)
    fix s assume ok: "fst (handleArray f n s) \<noteq> Inl NoFuel"
    show "handleArray g n s = handleArray f n s"
    proof (cases "makeslice value_size n")
      case (Inr k)
      obtain x u where x: "read_n f k s = (x, u)" by (cases "read_n f k s")
      with ok Inr have "x \<noteq> Inl NoFuel" by (auto simp: handleArray_def)
      with x fuel_le_read_n [OF assms, of k] have "read_n g k s = (x, u)"
        by (auto simp: fuel_le_def)
      with x Inr show ?thesis by (simp add: handleArray_def)
    qed (simp add: handleArray_def)
  qed
next
  show "fuel_le (handleTable r f) (handleTable r g)" unfolding fuel_le_def
  proof (intro allI impI)
    fix s assume ok: "fst (handleTable r f s) \<noteq> Inl NoFuel"
    obtain y u where y: "readTableSize r s = (y, u)" by (cases "readTableSize r s")
    show "handleTable r g s = handleTable r f s"
    proof (cases y)
      case (Inr mn)
      obtain m n where mn: "mn = (m, n)" by (cases mn)
      obtain x w where x: "read_rows f n (nat m) (0, n, []) u = (x, w)"
        by (cases "read_rows f n (nat m) (0, n, []) u")
      with ok y Inr mn have "x \<noteq> Inl NoFuel" by (auto simp: handleTable_def)
      with x fuel_le_read_rows [OF assms, of n "nat m" "(0, n, [])"]
      have "read_rows g n (nat m) (0, n, []) u = (x, w)" by (auto simp: fuel_le_def)
      with x y Inr mn show ?thesis by (simp add: handleTable_def)
    qed (use y in \<open>simp add: handleTable_def\<close>)
  qed
next
  show "fuel_le (handleTag r f b) (handleTag r g b)" unfolding fuel_le_def
  proof (intro allI impI)
    fix s assume ok: "fst (handleTag r f b s) \<noteq> Inl NoFuel"
    obtain y u where y: "ReadBytes r LF s = (y, u)" by (cases "ReadBytes r LF s")
    obtain x w where x: "f u = (x, w)" by (cases "f u")
    from x assms have "x \<noteq> Inl NoFuel \<Longrightarrow> g u = (x, w)" by (auto simp: fuel_le_def)
    with ok x y show "handleTag r g b s = handleTag r f b s"
      by (cases y; cases x) (auto simp: handleTag_def Let_def split: if_splits)
  qed
qed

lemma fuel_le_readValue: "fuel_le (readValue d r t) (readValue (Suc d) r t)"
proof (induction d arbitrary: t)
  case (Suc d)
  note c = fuel_le_composite [OF Suc.IH [of False]]
  show ?case unfolding fuel_le_def
  proof (intro allI impI)
    fix s assume ok: "fst (readValue (Suc d) r t s) \<noteq> Inl NoFuel"
    show "readValue (Suc (Suc d)) r t s = readValue (Suc d) r t s"
    proof (cases s)
      case (Cons b u)
      show ?thesis
        using ok c unfolding Cons fuel_le_def readValue_Cons
        by (simp split: if_splits prod.splits sum.splits)
    qed simp
  qed
qed (simp add: fuel_le_def)

lemma fuel_le_readValue_add: "fuel_le (readValue d r t) (readValue (d + k) r t)"
proof (induction k)
  case (Suc k)
  then show ?case using fuel_le_readValue [of "d + k" r t]
    by (simp add: fuel_le_def)
qed (simp add: fuel_le_def)

text \<open>More fuel than bytes is enough, because every level of nesting has read a byte.\<close>

definition fueled :: "nat \<Rightarrow> 'a rd \<Rightarrow> bool" where
  "fueled k f \<longleftrightarrow> (\<forall>s. length s < k \<longrightarrow> fst (f s) \<noteq> Inl NoFuel)"

context consuming_reader
begin

lemma fueled_read_n: "fueled k rv \<Longrightarrow> fueled k (read_n rv n)"
proof (induction n)
  case (Suc n)
  show ?case unfolding fueled_def
  proof (intro allI impI)
    fix s :: bytes assume len: "length s < k"
    obtain x u where x: "rv s = (x, u)" by (cases "rv s")
    from rest [OF this] have "length u \<le> length s" by (auto simp: suffix_def)
    with len have "length u < k" by simp
    moreover have "x \<noteq> Inl NoFuel"
      using Suc.prems len x by (auto simp: fueled_def dest!: spec [of _ s])
    ultimately show "fst (read_n rv (Suc n) s) \<noteq> Inl NoFuel"
      using Suc.IH [OF Suc.prems] x by (auto simp: fueled_def split: prod.splits sum.splits)
  qed
qed (simp add: fueled_def)

end

context consuming_value_reader
begin

lemma fueled_read_rows: "fueled k rv \<Longrightarrow> fueled k (read_rows rv c n t)"
proof (induction n arbitrary: t)
  case (Suc n)
  show ?case unfolding fueled_def
  proof (intro allI impI)
    fix s :: bytes assume len: "length s < k"
    show "fst (read_rows rv c (Suc n) t s) \<noteq> Inl NoFuel"
    proof (cases "makeslice value_size c")
      case (Inr m)
      obtain x u where x: "read_n rv m s = (x, u)" by (cases "read_n rv m s")
      from read_n_rest [OF this] have "length u \<le> length s" by (auto simp: suffix_def)
      with len have "length u < k" by simp
      moreover have "x \<noteq> Inl NoFuel"
        using fueled_read_n [OF Suc.prems, of m] len x by (auto simp: fueled_def dest!: spec [of _ s])
      ultimately show ?thesis
        using Suc.IH [OF Suc.prems] x Inr by (auto simp: fueled_def split: sum.splits)
    qed (auto simp: makeslice_def split: if_splits)
  qed
qed (simp add: fueled_def)

lemma fueled_composite:
  assumes "fueled k rv"
  shows "fueled k (handleArray rv n)" and "fueled k (handleTable r rv)"
    and "fueled k (handleTag r rv b)"
proof -
  show "fueled k (handleArray rv n)"
    using fueled_read_n [OF assms, of "nat n"]
    by (auto simp: fueled_def handleArray_def makeslice_def split: prod.splits sum.splits)
next
  show "fueled k (handleTable r rv)" unfolding fueled_def
  proof (intro allI impI)
    fix s :: bytes assume "length s < k"
    obtain y u where y: "readTableSize r s = (y, u)" by (cases "readTableSize r s")
    then have "length u < k"
      using readTableSize_suffix [OF y] \<open>length s < k\<close> by (auto simp: suffix_def)
    then show "fst (handleTable r rv s) \<noteq> Inl NoFuel"
      using fueled_read_rows [OF assms] y
      by (auto simp: fueled_def handleTable_def wrapFormat_def split: prod.splits sum.splits)
         (metis fst_conv)+
  qed
next
  show "fueled k (handleTag r rv b)" unfolding fueled_def
  proof (intro allI impI)
    fix s :: bytes assume "length s < k"
    obtain y u where y: "ReadBytes r LF s = (y, u)" by (cases "ReadBytes r LF s")
    then have "length u < k"
      using ReadBytes_suffix [OF y] \<open>length s < k\<close> by (auto simp: suffix_def)
    then have "fst (rv u) \<noteq> Inl NoFuel" using assms by (simp add: fueled_def)
    then show "fst (handleTag r rv b s) \<noteq> Inl NoFuel"
      using y by (auto simp: handleTag_def Let_def wrapIO_def wrapFormat_def
          split: prod.splits sum.splits)
  qed
qed

end

lemma fueled_readValue: "fueled d (readValue d r t)"
proof (induction d arbitrary: t)
  case (Suc d)
  note c = rd.fueled_composite [OF Suc.IH [of False]]
  show ?case unfolding fueled_def
  proof (intro allI impI)
    fix s :: bytes assume len: "length s < Suc d"
    show "fst (readValue (Suc d) r t s) \<noteq> Inl NoFuel"
    proof (cases s)
      case (Cons b u)
      with len have u: "length u < d" by simp
      obtain res where res: "readValue (Suc d) r t (b # u) = res" by blast
      then have "fst res \<noteq> Inl NoFuel"
      proof (cases rule: readValue_cases)
        case (array n s2)
        have "length s2 < d" using readSize_suffix [OF array(2)] u by (auto simp: suffix_def)
        with c(1) array(3) show ?thesis by (simp add: fueled_def)
      qed (use u c handle_leaf_fuel in
          \<open>auto simp: fueled_def wrapFormat_def unexpected_def\<close>)
      with res Cons show ?thesis by simp
    qed (simp add: wrapIO_def)
  qed
qed (simp add: fueled_def)

lemma readValue_fuel:
  assumes "length s < d"
  shows "readValue d r True s = Read r s"
proof -
  have "fst (Read r s) \<noteq> Inl NoFuel"
    using fueled_readValue [of "Suc (length s)" r True] by (simp add: fueled_def Read_def)
  moreover obtain k where "d = Suc (length s) + k"
    using assms less_imp_Suc_add by fastforce
  ultimately show ?thesis
    using fuel_le_readValue_add [of "Suc (length s)" r True k]
    by (simp add: fuel_le_def Read_def)
qed

lemma Read_has_fuel: "fst (Read r s) \<noteq> Inl NoFuel"
  using fueled_readValue [of "Suc (length s)" r True] by (simp add: fueled_def Read_def)

lemma Read_fuel_le: "fuel_le (readValue d r True) (Read r)"
  unfolding fuel_le_def
proof (intro allI impI)
  fix s assume ok: "fst (readValue d r True s) \<noteq> Inl NoFuel"
  have "readValue (d + Suc (length s)) r True s = readValue d r True s"
    using fuel_le_readValue_add [of d r True "Suc (length s)"] ok by (simp add: fuel_le_def)
  then show "Read r s = readValue d r True s" using readValue_fuel [of s "d + Suc (length s)" r] by simp
qed

interpretation Read: consuming_value_reader "Read r" for r
proof (rule consuming_value_readerI)
  fix s v s' q assume a: "Read r s = (Inr v, s')"
  then have "readValue (Suc (length s)) r True (s @ q) = (Inr v, s' @ q)"
    unfolding Read_def by (rule rd.extend)
  then show "Read r (s @ q) = (Inr v, s' @ q)"
    using Read_fuel_le [of "Suc (length s)" r] by (auto simp: fuel_le_def)
qed (use rd.rest rd.progress in \<open>unfold Read_def, blast+\<close>)

end
