(* ===== verification/Wire_Codec.thy ===== *)
theory Wire_Codec
  imports Wire_Reader_Facts
begin

text \<open>
  Writing and reading together: which values survive the wire (\<open>wire_ok\<close>), which values a
  reader can deliver at all (\<open>wire_shape\<close>), and the codec interface
  \<open>value_codec\<close>, through which the session, the tokens and the client use the format.
\<close>

section \<open>The values that survive\<close>

text \<open>
  Strings and tags end at a line feed; an error code ends at a space and its message is
  printed as a format; a table with no columns has at most one row; blobs are bounded by the
  reader; nothing that is nested has a tag. Maps are written, but no reader reads them.
\<close>

definition table_wire :: "int \<Rightarrow> int \<Rightarrow> nat \<Rightarrow> bool" where
  "table_wire rows cols n \<longleftrightarrow>
     int64 rows \<and> int64 cols \<and>
     (rows = 0 \<and> n = 0
      \<or> 0 < rows \<and> 0 < cols \<and> cols * value_size \<le> 2 ^ 48 \<and> int n = rows * cols
      \<or> rows = 1 \<and> cols = 0 \<and> n = 0)"

fun wire_ok :: "int \<Rightarrow> bool \<Rightarrow> wvalue \<Rightarrow> bool" where
  "wire_ok mx t Null = True"
| "wire_ok mx t (Bool b) = True"
| "wire_ok mx t (String s) = (LF \<notin> set s)"
| "wire_ok mx t (Blob d) =
     (int (length d) \<le> mx \<and> int (length d) \<le> 2 ^ 48)"
| "wire_ok mx t (Integer i) = int64 i"
| "wire_ok mx t (Error c m) =
     (LF \<notin> set c \<and> SP \<notin> set c \<and> LF \<notin> set m \<and> CHR ''%'' \<notin> set m)"
| "wire_ok mx t (Array vs) =
     (int (length vs) * value_size \<le> 2 ^ 48 \<and> (\<forall>v \<in> set vs. wire_ok mx False v))"
| "wire_ok mx t (Table rows cols d) =
     (table_wire rows cols (length d) \<and> (\<forall>v \<in> set d. wire_ok mx False v))"
| "wire_ok mx t (Map m) = False"
| "wire_ok mx t (TaggedValue tag v) = (t \<and> LF \<notin> set tag \<and> wire_ok mx False v)"

text \<open>What a reader with blob bound \<open>mx\<close> can deliver: the type of the wire.\<close>

fun wire_shape :: "int \<Rightarrow> bool \<Rightarrow> wvalue \<Rightarrow> bool" where
  "wire_shape mx t Null = True"
| "wire_shape mx t (Bool b) = True"
| "wire_shape mx t (String s) = (LF \<notin> set s)"
| "wire_shape mx t (Blob d) = (int (length d) \<le> mx)"
| "wire_shape mx t (Integer i) = int64 i"
| "wire_shape mx t (Error c m) = (LF \<notin> set c \<and> SP \<notin> set c)"
| "wire_shape mx t (Array vs) =
     (int (length vs) * value_size \<le> 2 ^ 48 \<and> (\<forall>v \<in> set vs. wire_shape mx False v))"
| "wire_shape mx t (Table rows cols d) =
     (int64 cols \<and> table_ok (rows, cols, d) \<and> (\<forall>v \<in> set d. wire_shape mx False v))"
| "wire_shape mx t (Map m) = False"
| "wire_shape mx t (TaggedValue tag v) = (t \<and> LF \<notin> set tag \<and> wire_shape mx False v)"

section \<open>Round trip\<close>

text \<open>\<open>reads f w v\<close>: the reader \<open>f\<close> takes exactly \<open>w\<close> off the input and delivers \<open>v\<close>.\<close>

definition reads :: "'a rd \<Rightarrow> bytes \<Rightarrow> 'a \<Rightarrow> bool" where
  "reads f w v \<longleftrightarrow> (\<forall>q. f (w @ q) = (Inr v, q))"

lemma readsI: "(\<And>q. f (w @ q) = (Inr v, q)) \<Longrightarrow> reads f w v"
  by (simp add: reads_def)

lemma readsD: "reads f w v \<Longrightarrow> f (w @ q) = (Inr v, q)"
  by (simp add: reads_def)

lemma reads_read_n:
  "(\<forall>v \<in> set vs. reads f (g v) v) \<Longrightarrow> reads (read_n f (length vs)) (concat (map g vs)) vs"
  by (induction vs) (auto simp: reads_def)

lemma makeslice_ok [simp]:
  "0 \<le> n \<Longrightarrow> n * k \<le> 2 ^ 48 \<Longrightarrow> makeslice k n = Inr (nat n)"
  by (simp add: makeslice_def)

lemma reads_handleArray:
  assumes "\<forall>v \<in> set vs. reads f (g v) v" and "int (length vs) * value_size \<le> 2 ^ 48"
  shows "reads (handleArray f (int (length vs))) (concat (map g vs)) (Array vs)"
  using readsD [OF reads_read_n [OF assms(1)]] assms(2)
  by (auto simp: reads_def handleArray_def)

text \<open>A table is read row by row; the rows are the data cut into pieces of one length.\<close>

lemma reads_read_rows:
  assumes "0 < c" and "int c * value_size \<le> 2 ^ 48"
    and "length d = n * c" and "\<forall>v \<in> set d. reads f (g v) v"
    and "length e = k * c" and "k = 0 \<longrightarrow> e = []"
  shows "reads (read_rows f (int c) n (int k, int c, e)) (concat (map g d))
           (int (k + n), int c, e @ d)"
  using assms(3-)
proof (induction n arbitrary: d e k)
  case (Suc n)
  define row rest where "row = take c d" and "rest = drop c d"
  have d: "d = row @ rest" and len: "length row = c" "length rest = n * c"
    using Suc.prems by (auto simp: row_def rest_def)
  have row: "reads (read_n f c) (concat (map g row)) row"
    using reads_read_n [of row f g] Suc.prems(2) d len by auto
  have add: "Add (int k, int c, e) row = (int (Suc k), int c, e @ row)"
    using Suc.prems(3,4) assms(1) len by (cases k) (auto simp: Add_def)
  have "reads (read_rows f (int c) n (int (Suc k), int c, e @ row)) (concat (map g rest))
      (int (Suc k + n), int c, (e @ row) @ rest)"
    by (rule Suc.IH) (use Suc.prems d len in auto)
  then show ?case
    using assms(2) readsD [OF row] add d by (auto simp: reads_def)
qed (auto simp: reads_def)

lemma read_rows_zero_cols:
  "read_rows f 0 (Suc 0) (0, 0, []) s = (Inr (1, 0, []), s)"
  by (simp add: Add_def)

lemma reads_table:
  assumes ok: "table_wire rows cols (length d)" and "\<forall>v \<in> set d. reads f (g v) v"
  shows "reads (handleTable r f) (Itoa rows @ '','' @ Itoa cols @ [LF] @ concat (map g d))
           (Table rows cols d)"
proof -
  have i: "int64 rows" "int64 cols" using ok by (auto simp: table_wire_def)
  have "reads (read_rows f cols (nat rows) (0, cols, [])) (concat (map g d)) (rows, cols, d)"
  proof (cases "0 < rows \<and> 0 < cols")
    case True
    with ok have c: "cols * value_size \<le> 2 ^ 48" and n: "int (length d) = rows * cols"
      by (auto simp: table_wire_def)
    have "length d = nat rows * nat cols"
      using n True by (metis nat_int nat_mult_distrib order_less_imp_le)
    with reads_read_rows [of "nat cols" d "nat rows" f g "[]" 0] True c assms(2)
    show ?thesis by simp
  next
    case False
    with ok consider "rows = 0" "d = []" | "rows = 1" "cols = 0" "d = []"
      by (auto simp: table_wire_def)
    then show ?thesis
      by cases (auto simp: reads_def Add_def)
  qed
  then show ?thesis using i by (auto simp: reads_def handleTable_def)
qed

text \<open>
  The encoding determines the first byte, so the switch of \<open>readValue\<close> takes the branch of
  the value's constructor; the size of the value bounds its nesting, hence the fuel.
\<close>

lemma size_element: "v \<in> set vs \<Longrightarrow> size v < Suc (size_list size vs)"
  by (simp add: less_Suc_eq_le size_list_estimation')

lemma readValue_WriteTo:
  "wire_ok (MaxBlobSize r) t v \<Longrightarrow> size v < d \<Longrightarrow> reads (readValue d r t) (WriteTo v) v"
proof (induction v arbitrary: t d)
  case (Array vs)
  then obtain e where d: "d = Suc e" by (cases d) auto
  have "\<forall>v \<in> set vs. reads (readValue e r False) (WriteTo v) v"
    using Array d size_element [of _ vs] by fastforce
  from reads_handleArray [OF this] Array.prems(1)
  have a: "reads (handleArray (readValue e r False) (int (length vs))) (concat (map WriteTo vs))
      (Array vs)" by simp
  have "int64 (int (length vs))" using Array.prems(1) by (simp add: int64_def value_size_def)
  with readsD [OF a] show ?case by (simp add: reads_def d readValue_Cons)
next
  case (Table rows cols es)
  then obtain e where d: "d = Suc e" by (cases d) auto
  have "\<forall>v \<in> set es. reads (readValue e r False) (WriteTo v) v"
    using Table d size_element [of _ es] by fastforce
  from reads_table [OF _ this, of rows cols r] Table.prems(1) show ?case
    by (auto simp: reads_def d readValue_Cons)
next
  case (TaggedValue tag v)
  then obtain e where d: "d = Suc e" by (cases d) auto
  with TaggedValue have "reads (readValue e r False) (WriteTo v) v" by simp
  with TaggedValue.prems(1) show ?case
    by (auto simp: reads_def d readValue_Cons handleTag_iff)
next
  case (Error c m)
  then obtain e where d: "d = Suc e" by (cases d) auto
  have "ReadBytes r LF ((c @ SP # m) @ LF # q) = (Inr ((c @ SP # m) @ [LF]), q)" for q
    using Error.prems(1) by (intro ReadBytes_line) auto
  with Error.prems(1) show ?case
    by (auto simp: reads_def d readValue_Cons handleError_def NewError_def)
next
  case (Blob b)
  then obtain e where d: "d = Suc e" by (cases d) auto
  have "int64 (int (length b))" using Blob.prems(1) by (simp add: int64_def)
  with Blob.prems(1) show ?case
    by (auto simp: reads_def d readValue_Cons handleBlob_def ReadFull_def)
qed (auto simp: reads_def gr0_conv_Suc less_Suc_eq_0_disj readValue_Cons handleNull_def
      handleBoolean_def handleString_def wire_constructors write_String_def)

lemma Read_WriteTo: "wire_ok (MaxBlobSize r) True v \<Longrightarrow> reads (Read r) (WriteTo v) v"
  using readValue_WriteTo [of r True v "Suc (size v)"] Read_fuel_le [of "Suc (size v)" r]
  by (auto simp: reads_def fuel_le_def)

section \<open>What a reader delivers\<close>

definition yields :: "'a rd \<Rightarrow> ('a \<Rightarrow> bool) \<Rightarrow> bool" where
  "yields f P \<longleftrightarrow> (\<forall>s v s'. f s = (Inr v, s') \<longrightarrow> P v)"

lemma read_n_all:
  assumes "yields f P" and "read_n f n s = (Inr vs, s')"
  shows "length vs = n \<and> (\<forall>v \<in> set vs. P v)"
  using assms(2)
proof (induction n arbitrary: s vs)
  case (Suc n)
  from Suc.prems obtain v t ws where "f s = (Inr v, t)" "read_n f n t = (Inr ws, s')" "vs = v # ws"
    unfolding read_n_Suc_iff by blast
  moreover from this(1) assms(1) have "P v" unfolding yields_def by blast
  ultimately show ?case using Suc.IH by auto
qed simp

lemma Add_table_ok:
  assumes "table_ok (rc, cc, d)" and "d \<noteq> [] \<longrightarrow> cc = int (length row)"
    and "Add (rc, cc, d) row = (rc', cc', d')"
  shows "table_ok (rc', cc', d') \<and> d' = d @ row \<and> cc' = int (length row)"
  using assms by (auto simp: table_ok_def Add_def algebra_simps split: if_splits)

lemma read_rows_shape:
  assumes "yields f P" and "table_ok (rc, cc, d)" and "cc = cols" and "\<forall>v \<in> set d. P v"
    and "read_rows f cols n (rc, cc, d) s = (Inr (rc', cc', d'), s')"
  shows "table_ok (rc', cc', d') \<and> cc' = cols \<and> (\<forall>v \<in> set d'. P v)"
  using assms(2-)
proof (induction n arbitrary: rc cc d s)
  case (Suc n)
  from Suc.prems(4) obtain k row s1 where k: "makeslice value_size cols = Inr k"
    and row: "read_n f k s = (Inr row, s1)"
    and more: "read_rows f cols n (Add (rc, cc, d) row) s1 = (Inr (rc', cc', d'), s')"
    unfolding read_rows_Suc_iff by blast
  have len: "int (length row) = cols" and all: "\<forall>v \<in> set row. P v"
    using read_n_all [OF assms(1) row] k by (auto simp: makeslice_def split: if_splits)
  obtain r1 c1 d1 where add: "Add (rc, cc, d) row = (r1, c1, d1)" by (metis prod_cases3)
  from Add_table_ok [OF Suc.prems(1) _ add] Suc.prems(2) len
  have "table_ok (r1, c1, d1)" "c1 = cols" "d1 = d @ row" by auto
  with Suc.IH [of r1 c1 d1 s1] more add all Suc.prems(3) show ?case by auto
qed simp

lemma readValue_shape:
  "readValue d r t s = (Inr v, s') \<Longrightarrow> wire_shape (MaxBlobSize r) t v"
proof (induction d arbitrary: t s v s')
  case (Suc d)
  have IH: "yields (readValue d r False) (wire_shape (MaxBlobSize r) False)"
    using Suc.IH [of False] by (auto simp: yields_def)
  from Suc.prems obtain b u where s: "s = b # u" by (cases s) auto
  from Suc.prems [unfolded s] show ?case
  proof (cases rule: readValue_cases)
    case (array n s2)
    then obtain vs k where "makeslice value_size n = Inr k"
      and "read_n (readValue d r False) k s2 = (Inr vs, s')" and "v = Array vs"
      by (metis handleArray_iff)
    with read_n_all [OF IH] show ?thesis by (fastforce simp: makeslice_def split: if_splits)
  next
    case table
    then obtain rows cols s1 rc cc dd where "readTableSize r u = (Inr (rows, cols), s1)"
      and "read_rows (readValue d r False) cols (nat rows) (0, cols, []) s1
        = (Inr (rc, cc, dd), s')" and "v = Table rc cc dd"
      by (metis handleTable_iff)
    with read_rows_shape [OF IH, of 0 cols "[]" cols] readTableSize_int64
    show ?thesis by (fastforce simp: table_ok_def)
  next
    case tag
    then obtain tg s1 w where "t" "LF \<notin> set tg" "readValue d r False s1 = (Inr w, s')"
      "v = TaggedValue tg w" by (metis handleTag_iff)
    with IH show ?thesis by (auto simp: yields_def)
  next
    case error
    then show ?thesis
      by (auto simp: handleError_def Let_def NewError_def ReadBytes_Inr_iff
          dest: set_takeWhileD split: prod.splits sum.splits if_splits)
  next
    case (int n s2)
    then show ?thesis by (auto dest: readSize_int64)
  qed (auto simp: handle_leaf_defs wire_constructors ReadBytes_Inr_iff ReadByte_Inr_iff
      makeslice_def split: prod.splits sum.splits if_splits)
qed simp

section \<open>The codec interface\<close>

locale value_codec = consuming_reader dec for dec :: "'a rd" +
  fixes enc :: "'a \<Rightarrow> bytes" and ok :: "'a \<Rightarrow> bool"
  assumes dec_enc: "ok v \<Longrightarrow> reads dec (enc v) v"
begin

lemma dec_enc_app: "ok v \<Longrightarrow> dec (enc v @ q) = (Inr v, q)"
  by (rule readsD [OF dec_enc])

lemma dec_enc_all: "\<forall>v \<in> set vs. ok v \<Longrightarrow> reads (read_n dec (length vs)) (concat (map enc vs)) vs"
  by (rule reads_read_n, rule ballI, rule dec_enc, erule bspec)

lemma enc_prefix_free:
  assumes "ok v" and "ok w" and "enc v @ p = enc w @ q"
  shows "v = w \<and> p = q"
proof -
  have "(Inr v, p) = dec (enc w @ q)"
    using dec_enc_app [OF assms(1), of p] unfolding assms(3) by (rule sym)
  also have "\<dots> = (Inr w, q)" by (rule dec_enc_app [OF assms(2)])
  finally show ?thesis by simp
qed

lemma truncated:
  assumes "ok v" and "enc v = p @ q" and "q \<noteq> []"
  shows "\<nexists>w s'. dec p = (Inr w, s')"
proof (rule no_partial_value)
  show "dec (p @ q) = (Inr v, [])" using dec_enc_app [OF assms(1), of "[]"] assms(2) by simp
qed (rule assms)

end

interpretation wire: value_codec "Read r" WriteTo "wire_ok (MaxBlobSize r) True" for r
  by unfold_locales (rule Read_WriteTo)

section \<open>Malformed and truncated input\<close>

lemma Read_Cons: "Read r (b # s) = readValue (Suc (Suc (length s))) r True (b # s)"
  by (simp add: Read_def)

lemma readSize_no_LF:
  "LF \<notin> set p \<Longrightarrow> readSize r p = (Inl (''I/O error: '' @ err_text r), [])"
  by (simp add: readSize_def nextLine_no_LF)

lemma makeslice_negative:
  "n < 0 \<Longrightarrow> makeslice k n = Inl (Panic ''runtime error: makeslice: len out of range'')"
  by (simp add: makeslice_def)

end
