(* ===== verification/Wire_Props.thy ===== *)
theory Wire_Props
  imports Wire_Codec
begin

text \<open>
  The properties of the wire format, \<^verbatim>\<open>src/internal/wire/wire.go\<close>: values written
  by one side are read back by the other, a reader is total and bounded, what it delivers is
  well typed, and where it fails it fails the way the code does.
\<close>

section \<open>A value to try things on\<close>

definition sample :: wvalue where
  "sample = TaggedValue ''t'' (Array [String ''a b'', Null,
     Table 2 1 [Integer (- 5), Blob [LF, LF]], Error ''NOTFOUND'' ''no such file'', Bool True])"

lemma sample_ok [simp]: "wire_ok 9223372036854775807 True sample"
  by (simp add: sample_def table_wire_def value_size_def int64_def)

lemma NewReader_bound [simp]: "MaxBlobSize (NewReader e) = 9223372036854775807"
  by (simp add: NewReader_def)

section \<open>Round trips\<close>

text \<open>
  C11. What one side writes the other side reads: for every value that fits the format, the
  reader delivers exactly this value and leaves exactly the bytes that follow it.
\<close>

theorem wire_roundtrip:
  assumes "wire_ok (MaxBlobSize r) True v"
  shows "Read r (WriteTo v @ q) = (Inr v, q)"
  using assms by (rule wire.dec_enc_app)

theorem wire_roundtrip_witness:
  "Read (NewReader ''EOF'') (WriteTo sample @ ''PING'') = (Inr sample, ''PING'')"
  by (rule wire_roundtrip) simp

text \<open>
  A pipeline of commands or responses is read back one value at a time, in order, whatever
  follows it; and no two different pipelines have the same bytes.
\<close>

theorem wire_pipeline:
  assumes "\<forall>v \<in> set vs. wire_ok (MaxBlobSize r) True v"
    and "\<forall>v \<in> set ws. wire_ok (MaxBlobSize r) True v"
  shows "read_n (Read r) (length vs) (concat (map WriteTo vs) @ q) = (Inr vs, q)
    \<and> (concat (map WriteTo vs) = concat (map WriteTo ws) \<longrightarrow> vs = ws)"
proof
  show "read_n (Read r) (length vs) (concat (map WriteTo vs) @ q) = (Inr vs, q)"
    by (rule readsD [OF wire.dec_enc_all [OF assms(1)]])
  show "concat (map WriteTo vs) = concat (map WriteTo ws) \<longrightarrow> vs = ws"
    using assms
  proof (induction vs arbitrary: ws)
    case Nil
    then show ?case by (cases ws) auto
  next
    case (Cons v vs)
    show ?case
    proof
      assume eq: "concat (map WriteTo (v # vs)) = concat (map WriteTo ws)"
      then obtain w us where ws: "ws = w # us" by (cases ws) auto
      have "v = w \<and> concat (map WriteTo vs) = concat (map WriteTo us)"
        by (rule wire.enc_prefix_free [of r]) (use Cons.prems eq ws in auto)
      with Cons.IH [of us] Cons.prems ws show "v # vs = ws" by auto
    qed
  qed
qed

theorem wire_pipeline_witness:
  "read_n (Read (NewReader ''EOF'')) (length [sample, OK]) (concat (map WriteTo [sample, OK]) @ [])
     = (Inr [sample, OK], [])"
  by (rule conjunct1 [OF wire_pipeline [of _ _ "[]"]]) (simp_all add: OK_def)

text \<open>
  C26. A connection that breaks inside a value never makes the reader deliver something: on a
  proper prefix of an encoding it answers with an error.
\<close>

theorem wire_truncated:
  assumes "wire_ok (MaxBlobSize r) True v" and "WriteTo v = p @ q" and "q \<noteq> []"
  shows "\<exists>e s'. Read r p = (Inl e, s') \<and> e \<noteq> NoFuel"
proof -
  obtain x s' where x: "Read r p = (x, s')" by (cases "Read r p")
  with wire.truncated [OF assms] obtain e where "x = Inl e" by (cases x) auto
  with x Read_has_fuel [of r p] show ?thesis by auto
qed

theorem wire_truncated_witness:
  "\<exists>e s'. Read (NewReader ''EOF'') (''$3'' @ [LF] @ ''ab'') = (Inl e, s') \<and> e \<noteq> NoFuel"
  by (rule wire_truncated [where v = "Blob ''abc''" and q = "''c'' @ [LF]"])
    (simp_all add: go_defs)

section \<open>The reader on arbitrary input\<close>

text \<open>
  C25. The recursive descent always ends: one unit of fuel more than there are bytes is
  enough, and more fuel never changes the answer. A hostile peer cannot make the reader
  recurse without sending bytes for it.
\<close>

theorem read_total:
  "fst (Read r s) \<noteq> Inl NoFuel \<and> readValue (Suc (length s) + k) r True s = Read r s"
  by (simp add: Read_has_fuel readValue_fuel del: readValue.simps)

text \<open>
  C24. What the reader delivers, on any input at all, has the type of the wire: strings
  and tags without line feeds, integers of 64 bits, blobs within the bound, arrays within the
  address space, tables whose data is exactly their rows, tags only at the top, no maps.
\<close>

theorem read_type:
  assumes "Read r s = (Inr v, s')"
  shows "wire_shape (MaxBlobSize r) True v"
  using assms unfolding Read_def by (rule readValue_shape)

theorem read_type_witness:
  "wire_shape 10 True (Table 1 2 [Null, Integer 7])"
  using read_type [of "\<lparr>MaxBlobSize = 10, err_text = []\<rparr>"
      "WriteTo (Table 1 2 [Null, Integer 7])" "Table 1 2 [Null, Integer 7]" "[]"]
    wire.dec_enc_app [of "\<lparr>MaxBlobSize = 10, err_text = []\<rparr>" "Table 1 2 [Null, Integer 7]" "[]"]
  by (simp add: table_wire_def value_size_def int64_def)

text \<open>
  The reader takes a nonempty piece of the input off its front, and bytes that arrive later
  do not change a value already delivered: they come out as the rest.
\<close>

theorem read_consumes:
  assumes "Read r s = (Inr v, s')"
  shows "\<exists>p. p \<noteq> [] \<and> s = p @ s' \<and> Read r (s @ q) = (Inr v, s' @ q)"
proof -
  from Read.rest [OF assms] obtain p where "s = p @ s'" by (auto simp: suffix_def)
  with Read.progress [OF assms] Read.extend [OF assms, of q] show ?thesis by auto
qed

theorem read_consumes_witness:
  "\<exists>p. p \<noteq> [] \<and> WriteTo sample @ ''x'' = p @ ''x''
     \<and> Read (NewReader ''EOF'') ((WriteTo sample @ ''x'') @ ''y'') = (Inr sample, ''x'' @ ''y'')"
  by (rule read_consumes, rule wire.dec_enc_app) simp

section \<open>Sizes\<close>

text \<open>
  A negative length is not refused as a protocol error: it reaches \<open>make\<close>, which
  panics, for arrays, for blobs and for the rows of a table with a negative column count.
\<close>

theorem negative_size_panics:
  assumes "n < 0" and "int64 n" and "0 < k" and "int64 k" and "n \<le> MaxBlobSize r"
  shows "Read r (CHR ''*'' # Itoa n @ LF # s)
      = (Inl (Panic ''runtime error: makeslice: len out of range''), s)
    \<and> Read r (CHR ''$'' # Itoa n @ LF # s)
      = (Inl (Panic ''runtime error: makeslice: len out of range''), s)
    \<and> Read r (CHR ''='' # Itoa k @ CHR '','' # Itoa n @ LF # s)
      = (Inl (Panic ''runtime error: makeslice: len out of range''), s)"
proof -
  obtain j where j: "nat k = Suc j" using assms(3) by (cases "nat k") auto
  show ?thesis
    using assms by (simp add: Read_Cons readValue_Cons handleArray_def handleBlob_def
        handleTable_def makeslice_negative j)
qed

theorem negative_size_panics_witness:
  "Read (NewReader ''EOF'') (CHR ''*'' # Itoa (- 1) @ LF # ''PING'')
     = (Inl (Panic ''runtime error: makeslice: len out of range''), ''PING'')"
  by (rule conjunct1 [OF negative_size_panics [where k = 1]]) (simp_all add: int64_def)

text \<open>
  When the connection breaks inside a size line, the I/O error comes out as a format
  error: the session does not recognise it as the end of the stream.
\<close>

theorem size_line_io_error:
  assumes "LF \<notin> set p" and "b \<in> {CHR ''*'', CHR ''$'', CHR '':'', CHR ''=''}"
  shows "Read r (b # p) = (Inl (ErrFormat (''Protocol error: I/O error: '' @ err_text r)), [])"
proof -
  have t: "readTableSize r p = (Inl (''I/O error: '' @ err_text r), [])"
    using assms(1) by (simp add: readTableSize_def nextLine_no_LF)
  from assms(2) show ?thesis
    by (auto simp: Read_Cons readValue_Cons readSize_no_LF [OF assms(1)] handleTable_def t
        wrapFormat_def)
qed

theorem size_line_io_error_witness:
  "Read (NewReader ''EOF'') ''*1'' = (Inl (ErrFormat ''Protocol error: I/O error: EOF''), [])"
  using size_line_io_error [of "''1''" "CHR ''*''" "NewReader ''EOF''"] by (simp add: NewReader_def)

section \<open>Values that do not survive\<close>

text \<open>
  A map is written but never read back: the reader refuses its first byte, whatever the
  map, and leaves the rest of the map in the stream.
\<close>

theorem map_unreadable:
  "Read r (WriteTo (Map m) @ q)
     = (Inl (ErrFormat ''Protocol error: unexpected symbol %''), tl (WriteTo (Map m)) @ q)"
  by (simp add: Read_Cons readValue_Cons unexpected_def wrapFormat_def show_rune_byte_def go_defs)

text \<open>
  The message of an error received from the peer goes through the formatter: what the
  reader delivers is the message as \<open>Sprintf\<close> prints it with no operands, which is the
  message itself when it has no percent sign, and another one for \<open>50% sure\<close>.
\<close>

theorem error_message_formatted:
  assumes "LF \<notin> set code" and "SP \<notin> set code" and "LF \<notin> set msg"
  shows "Read r (WriteTo (Error code msg) @ q) = (Inr (Error code (sprintf0 msg)), q)
    \<and> (CHR ''%'' \<notin> set msg \<longrightarrow> sprintf0 msg = msg) \<and> sprintf0 ''50% sure'' = ''50%!s(MISSING)ure''"
proof -
  have "ReadBytes r LF ((code @ SP # msg) @ LF # q) = (Inr ((code @ SP # msg) @ [LF]), q)"
    using assms by (intro ReadBytes_line) auto
  with assms have a: "Read r (WriteTo (Error code msg) @ q) = (Inr (Error code (sprintf0 msg)), q)"
    by (auto simp: Read_Cons readValue_Cons handleError_def NewError_def)
  show ?thesis
    by (intro conjI impI) (rule a, erule sprintf0_id, rule sprintf0_examples)
qed

theorem error_message_formatted_witness:
  "Read (NewReader ''EOF'') (WriteTo (Error ''IO'' ''50% sure'') @ ''+OK'')
     = (Inr (Error ''IO'' ''50%!s(MISSING)ure''), ''+OK'')"
  using error_message_formatted [of "''IO''" "''50% sure''" "NewReader ''EOF''" "''+OK''"]
  by (simp only: sprintf0_examples) (simp add: go_defs)

section \<open>Tables\<close>

text \<open>
  A table made by adding rows of one length gives each row back at its index and the
  empty row outside; its wire form is the header and the rows in order.
\<close>

theorem table_rows:
  assumes "\<forall>row \<in> set rs. length row = n" and "0 < n"
  shows "Row (table_of_rows rs) i
      = Some (if 0 \<le> i \<and> i < int (length rs) then rs ! nat i else [])
    \<and> (case table_of_rows rs of (rows, cols, d) \<Rightarrow> rows = int (length rs) \<and> d = concat rs)"
proof (cases "rs = []")
  case False
  have t: "table_of_rows rs = (int (length rs), int n, concat rs)"
    by (rule table_of_rows_eq) (use assms False in auto)
  have len: "length (concat rs) = length rs * n" using assms(1) by (rule concat_rows_length)
  show ?thesis
  proof (cases "0 \<le> i \<and> i < int (length rs)")
    case True
    define k where "k = nat i"
    have k: "i = int k" "k < length rs" using True by (auto simp: k_def)
    then have "Suc k * n \<le> length rs * n" by (intro mult_le_mono1) simp
    then have le: "(i + 1) * int n \<le> int (length (concat rs))"
      unfolding len k(1) by (simp flip: of_nat_mult of_nat_Suc add: add.commute)
    have "Row (table_of_rows rs) i = Some (take n (drop (nat (i * int n)) (concat rs)))"
      using le True by (simp add: t Row_def distrib_right)
    moreover have "nat (i * int n) = k * n" by (simp add: k(1) flip: of_nat_mult)
    ultimately show ?thesis
      using concat_rows_drop [OF assms(1) k(2)] True by (simp add: t k_def)
  qed (auto simp: t Row_def)
qed (auto simp: table_of_rows_def Row_def)

theorem table_rows_witness:
  "Row (table_of_rows [[Null, OK], [OK, Integer 3]]) 1 = Some [OK, Integer 3]"
  using table_rows [of "[[Null, OK], [OK, Integer 3]]" 2 1] by simp

end
