(* ===== verification/Go_Path.thy ===== *)
theory Go_Path
  imports Fly_Prelude
begin

text \<open>
  Package \<^verbatim>\<open>path\<close> as the sources use it: \<open>path.Clean\<close> and \<open>path.Join\<close>, over
  the segments between slashes, and what cleaning does to a path that is a base directory
  followed by plain segments.
\<close>

named_theorems path_simps \<open>how cleaning acts on plain segments\<close>

section \<open>Clean and Join\<close>

text \<open>The segments kept so far are a stack, innermost first.\<close>

definition clean_step :: "bool \<Rightarrow> string list \<Rightarrow> string \<Rightarrow> string list" where
  "clean_step rooted st seg =
     (if seg = [] \<or> seg = ''.'' then st
      else if seg = ''..'' then
        (case st of
           [] \<Rightarrow> if rooted then [] else [seg]
         | last_seg # rest \<Rightarrow> if last_seg = ''..'' then seg # st else rest)
      else seg # st)"

definition clean_segs :: "bool \<Rightarrow> string \<Rightarrow> string list" where
  "clean_segs rooted p = rev (foldl (clean_step rooted) [] (split_on SLASH p))"

definition rooted :: "string \<Rightarrow> bool" where
  "rooted p \<longleftrightarrow> p \<noteq> [] \<and> hd p = SLASH"

text \<open>A path from its kind and its segments.\<close>

definition build_path :: "bool \<Rightarrow> string list \<Rightarrow> string" where
  "build_path r ss =
     (if r then SLASH # join_on ''/'' ss else if ss = [] then ''.'' else join_on ''/'' ss)"

definition Clean :: "string \<Rightarrow> string" where
  "Clean p = (if p = [] then ''.'' else build_path (rooted p) (clean_segs (rooted p) p))"

definition Join :: "string list \<Rightarrow> string" where
  "Join elem =
     (case dropWhile (\<lambda>e. e = []) elem of
        [] \<Rightarrow> []
      | e # es \<Rightarrow> Clean (join_on ''/'' (e # es)))"

declare clean_step_def [go_defs] clean_segs_def [go_defs] rooted_def [go_defs]
declare build_path_def [go_defs] Clean_def [go_defs] Join_def [go_defs]

section \<open>Plain segments\<close>

definition dotted :: "string \<Rightarrow> bool" where
  "dotted s \<longleftrightarrow> s = ''.'' \<or> s = ''..''"

definition plain :: "string \<Rightarrow> bool" where
  "plain s \<longleftrightarrow> s \<noteq> [] \<and> \<not> dotted s \<and> SLASH \<notin> set s"

text \<open>The non-empty segments of a path.\<close>

definition segs :: "string \<Rightarrow> string list" where
  "segs p = filter (\<lambda>s. s \<noteq> []) (split_on SLASH p)"

declare dotted_def [go_defs] plain_def [go_defs] segs_def [go_defs]

lemma segs_append_slash [path_simps]: "segs (p @ SLASH # q) = segs p @ segs q"
  by (simp add: segs_def split_on_append_sep)

lemma segs_Nil [path_simps]: "segs [] = []"
  by (simp add: segs_def)

lemma segs_slash [path_simps]: "segs (SLASH # q) = segs q"
  by (simp add: segs_def)

lemma segs_join [path_simps]:
  "\<forall>s \<in> set ss. SLASH \<notin> set s \<Longrightarrow> segs (join_on ''/'' ss) = filter (\<lambda>s. s \<noteq> []) ss"
  by (cases "ss = []") (simp_all add: segs_def split_join)

lemma in_segs: "s \<in> set (segs p) \<Longrightarrow> s \<noteq> [] \<and> SLASH \<notin> set s"
  by (auto simp: segs_def dest: split_on_parts)

lemma foldl_clean_plain:
  "\<forall>s \<in> set xs. \<not> dotted s \<Longrightarrow>
   foldl (clean_step r) st xs = rev (filter (\<lambda>s. s \<noteq> []) xs) @ st"
  by (induction xs arbitrary: st) (auto simp: clean_step_def dotted_def)

lemma clean_segs_append_plain:
  assumes "\<forall>s \<in> set (split_on SLASH q). \<not> dotted s"
  shows "clean_segs r (p @ SLASH # q) = clean_segs r p @ segs q"
  using foldl_clean_plain [OF assms]
  by (simp add: clean_segs_def split_on_append_sep segs_def)

lemma rooted_append [path_simps]: "p \<noteq> [] \<Longrightarrow> rooted (p @ q) = rooted p"
  by (simp add: rooted_def)

text \<open>The path that leads from a base directory down the given segments.\<close>

definition below :: "string \<Rightarrow> string list \<Rightarrow> string" where
  "below base ss = build_path (rooted base) (clean_segs (rooted base) base @ ss)"

lemma Join_below:
  assumes "root \<noteq> []" and "\<forall>s \<in> set (split_on SLASH q). \<not> dotted s"
  shows "Join [root, q] = below root (segs q)"
  using assms rooted_append [OF assms(1), of "SLASH # q"]
  by (simp add: Join_def Clean_def below_def clean_segs_append_plain)

definition kept :: "string \<Rightarrow> bool" where
  "kept s \<longleftrightarrow> s \<noteq> [] \<and> s \<noteq> ''.'' \<and> SLASH \<notin> set s"

lemma kept_dotdot [simp]: "kept ''..''"
  by (simp add: kept_def)

lemma clean_step_kept:
  "list_all kept st \<Longrightarrow> SLASH \<notin> set x \<Longrightarrow> list_all kept (clean_step r st x)"
  by (cases st) (simp_all add: clean_step_def kept_def)

lemma foldl_clean_kept:
  "list_all kept st \<Longrightarrow> \<forall>x \<in> set xs. SLASH \<notin> set x \<Longrightarrow> list_all kept (foldl (clean_step r) st xs)"
  by (induction xs arbitrary: st) (simp_all add: clean_step_kept)

lemma clean_segs_kept: "list_all kept (clean_segs r p)"
  using foldl_clean_kept [of "[]" "split_on SLASH p" r] split_on_parts [of _ SLASH p]
  by (simp add: clean_segs_def list_all_iff)

lemma clean_segs_shape:
  "s \<in> set (clean_segs r p) \<Longrightarrow> s \<noteq> [] \<and> s \<noteq> ''.'' \<and> SLASH \<notin> set s"
  using clean_segs_kept [of r p] by (simp add: list_all_iff kept_def)

lemma clean_step_rooted:
  "list_all (\<lambda>s. \<not> dotted s) st \<Longrightarrow> list_all (\<lambda>s. \<not> dotted s) (clean_step True st x)"
  by (cases st) (simp_all add: clean_step_def dotted_def)

lemma foldl_clean_rooted:
  "list_all (\<lambda>s. \<not> dotted s) st \<Longrightarrow> list_all (\<lambda>s. \<not> dotted s) (foldl (clean_step True) st xs)"
  by (induction xs arbitrary: st) (simp_all add: clean_step_rooted)

text \<open>A rooted path is cleaned to plain segments: every dot-dot is gone.\<close>

lemma clean_segs_rooted_plain: "s \<in> set (clean_segs True p) \<Longrightarrow> plain s"
  using clean_segs_shape [of s True p] foldl_clean_rooted [of "[]" "split_on SLASH p"]
  by (simp add: clean_segs_def plain_def list_all_iff)

lemma segs_below:
  assumes "\<forall>s \<in> set ss. plain s"
  shows "segs (below base ss) = (if \<not> rooted base \<and> clean_segs False base = [] \<and> ss = []
           then [''.''] else clean_segs (rooted base) base @ ss)"
proof -
  have ok: "\<forall>s \<in> set (clean_segs (rooted base) base @ ss). s \<noteq> [] \<and> SLASH \<notin> set s"
    using assms clean_segs_shape [of _ "rooted base" base] by (auto simp: plain_def)
  show ?thesis
  proof (cases "clean_segs (rooted base) base @ ss = []")
    case True
    then show ?thesis by (auto simp: below_def build_path_def segs_def)
  next
    case False
    with ok show ?thesis
      by (auto simp: below_def build_path_def segs_slash segs_join filter_id_conv)
  qed
qed

end
