(* ===== verification/Go_Csv.thy ===== *)
theory Go_Csv
  imports Fly_Prelude
begin

text \<open>
  Package \<^verbatim>\<open>encoding/csv\<close> as the sources use it: a comma, no comments, no lazy
  quotes, no trimming, a fixed number of fields. The writer quotes a field where it must;
  the reader normalises line ends, skips empty lines and takes the records apart.
\<close>

named_theorems csv_simps \<open>how the reader moves over what the writer wrote\<close>

abbreviation DQ :: char where "DQ \<equiv> CHR 0x22"
abbreviation COMMA :: char where "COMMA \<equiv> CHR '',''"

section \<open>Writer\<close>

definition fieldNeedsQuotes :: "string \<Rightarrow> bool" where
  "fieldNeedsQuotes f \<longleftrightarrow>
     f \<noteq> [] \<and>
     (f = [CHR 0x5C, CHR ''.''] \<or> COMMA \<in> set f \<or> DQ \<in> set f \<or> CR \<in> set f \<or> LF \<in> set f
      \<or> (\<exists>w \<in> set space_runes. prefix w f))"

definition csv_quote :: "string \<Rightarrow> string" where
  "csv_quote f = ReplaceAll f DQ [DQ, DQ]"

definition csv_field :: "string \<Rightarrow> bytes" where
  "csv_field f = (if fieldNeedsQuotes f then DQ # csv_quote f @ [DQ] else f)"

definition csv_line :: "string list \<Rightarrow> bytes" where
  "csv_line fs = join_on '','' (map csv_field fs) @ [LF]"

definition csv_file :: "string list list \<Rightarrow> bytes" where
  "csv_file rs = concat (map csv_line rs)"

section \<open>Reader\<close>

text \<open>Line ends: a carriage return before a line feed goes, and one at the very end.\<close>

fun csv_normalize :: "bytes \<Rightarrow> bytes" where
  "csv_normalize [] = []"
| "csv_normalize [c] = (if c = CR then [] else [c])"
| "csv_normalize (c # d # s) =
     (if c = CR \<and> d = LF then csv_normalize (d # s) else c # csv_normalize (d # s))"

datatype csv_error = ErrBareQuote | ErrQuote | ErrFieldCount

datatype csv_result = Csv_EOF | Csv_Error csv_error | Csv_Record "string list" bytes

text \<open>
  One record: \<open>csv_start\<close> is at the start of a field, \<open>csv_plain\<close> inside an unquoted one,
  \<open>csv_quoted\<close> inside a quoted one and \<open>csv_after\<close> behind a quote in it. Fields and the
  characters of the current one are collected in reverse.
\<close>

function csv_start :: "string list \<Rightarrow> bytes \<Rightarrow> csv_result"
  and csv_plain :: "string list \<Rightarrow> string \<Rightarrow> bytes \<Rightarrow> csv_result"
  and csv_quoted :: "string list \<Rightarrow> string \<Rightarrow> bytes \<Rightarrow> csv_result"
  and csv_after :: "string list \<Rightarrow> string \<Rightarrow> bytes \<Rightarrow> csv_result" where
  "csv_start acc [] = Csv_Record (rev ([] # acc)) []"
| "csv_start acc (c # s) =
     (if c = DQ then csv_quoted acc [] s
      else if c = COMMA then csv_start ([] # acc) s
      else if c = LF then Csv_Record (rev ([] # acc)) s
      else csv_plain acc [c] s)"
| "csv_plain acc f [] = Csv_Record (rev (rev f # acc)) []"
| "csv_plain acc f (c # s) =
     (if c = COMMA then csv_start (rev f # acc) s
      else if c = LF then Csv_Record (rev (rev f # acc)) s
      else if c = DQ then Csv_Error ErrBareQuote
      else csv_plain acc (c # f) s)"
| "csv_quoted acc f [] = Csv_Error ErrQuote"
| "csv_quoted acc f (c # s) =
     (if c = DQ then csv_after acc f s else csv_quoted acc (c # f) s)"
| "csv_after acc f [] = Csv_Record (rev (rev f # acc)) []"
| "csv_after acc f (c # s) =
     (if c = DQ then csv_quoted acc (DQ # f) s
      else if c = COMMA then csv_start (rev f # acc) s
      else if c = LF then Csv_Record (rev (rev f # acc)) s
      else Csv_Error ErrQuote)"
  by pat_completeness auto
termination
  by (relation "measure (\<lambda>x. case x of
        Inl (Inl (acc, s)) \<Rightarrow> length s
      | Inl (Inr (acc, f, s)) \<Rightarrow> length s
      | Inr (Inl (acc, f, s)) \<Rightarrow> length s
      | Inr (Inr (acc, f, s)) \<Rightarrow> length s)") auto

text \<open>\<open>csv.Reader.Read\<close> with \<open>FieldsPerRecord = n\<close>, on normalised input.\<close>

definition csv_read :: "nat \<Rightarrow> bytes \<Rightarrow> csv_result" where
  "csv_read n s =
     (case dropWhile (\<lambda>c. c = LF) s of
        [] \<Rightarrow> Csv_EOF
      | c # t \<Rightarrow>
          (case csv_start [] (c # t) of
             Csv_Record fs r \<Rightarrow>
               if length fs \<noteq> n then Csv_Error ErrFieldCount else Csv_Record fs r
           | res \<Rightarrow> res))"

section \<open>The reader shortens its input\<close>

lemma csv_shorter:
  "csv_start acc s = Csv_Record fs r \<Longrightarrow> length r \<le> length s \<and> (s \<noteq> [] \<longrightarrow> length r < length s)"
  "csv_plain acc f s = Csv_Record fs r \<Longrightarrow> length r \<le> length s"
  "csv_quoted acc f s = Csv_Record fs r \<Longrightarrow> length r \<le> length s"
  "csv_after acc f s = Csv_Record fs r \<Longrightarrow> length r \<le> length s"
  by (induction acc s and acc f s and acc f s and acc f s
      rule: csv_start_csv_plain_csv_quoted_csv_after.induct)
     (auto split: if_splits)

lemma csv_read_shorter: "csv_read n s = Csv_Record fs r \<Longrightarrow> length r < length s"
proof -
  assume a: "csv_read n s = Csv_Record fs r"
  then obtain c t where t: "dropWhile (\<lambda>c. c = LF) s = c # t"
    by (auto simp: csv_read_def split: list.splits)
  with a have "csv_start [] (c # t) = Csv_Record fs r"
    by (auto simp: csv_read_def split: csv_result.splits if_splits)
  from csv_shorter(1) [OF this] have "length r < length (c # t)" by simp
  also have "\<dots> \<le> length s" using length_dropWhile_le [of "\<lambda>c. c = LF" s] t by simp
  finally show ?thesis .
qed

section \<open>Round trip of a line\<close>

lemma csv_quoted_quote [csv_simps]:
  "csv_quoted acc g (csv_quote f @ DQ # s) = csv_after acc (rev f @ g) s"
  if "s = [] \<or> hd s \<noteq> DQ"
proof (induction f arbitrary: g)
  case Nil
  then show ?case by (simp add: csv_quote_def ReplaceAll_def)
next
  case (Cons c f)
  then show ?case by (simp add: csv_quote_def ReplaceAll_def)
qed

lemma csv_plain_run [csv_simps]:
  "COMMA \<notin> set f \<Longrightarrow> LF \<notin> set f \<Longrightarrow> DQ \<notin> set f \<Longrightarrow>
   csv_plain acc g (f @ s) = csv_plain acc (rev f @ g) s"
  by (induction f arbitrary: g) auto

lemma csv_field_comma:
  "csv_start acc (csv_field f @ COMMA # s) = csv_start (f # acc) s"
proof (cases "fieldNeedsQuotes f")
  case True
  then show ?thesis by (simp add: csv_field_def csv_quoted_quote)
next
  case False
  then show ?thesis
    by (cases f) (auto simp: csv_field_def fieldNeedsQuotes_def csv_plain_run)
qed

lemma csv_field_end:
  "csv_start acc (csv_field f @ LF # s) = Csv_Record (rev (f # acc)) s"
proof (cases "fieldNeedsQuotes f")
  case True
  then show ?thesis by (simp add: csv_field_def csv_quoted_quote)
next
  case False
  then show ?thesis
    by (cases f) (auto simp: csv_field_def fieldNeedsQuotes_def csv_plain_run)
qed

lemma csv_start_line:
  "fs \<noteq> [] \<Longrightarrow> csv_start acc (csv_line fs @ s) = Csv_Record (rev acc @ fs) s"
proof (induction fs arbitrary: acc)
  case (Cons f fs)
  show ?case
  proof (cases "fs = []")
    case True
    then show ?thesis by (simp add: csv_line_def csv_field_end)
  next
    case False
    have "csv_line (f # fs) @ s = csv_field f @ COMMA # (csv_line fs @ s)"
      using False by (simp add: csv_line_def join_on_Cons)
    with Cons.IH [OF False, of "f # acc"] show ?thesis by (simp add: csv_field_comma)
  qed
qed simp

text \<open>A line of at least two fields never looks empty, so it is never skipped.\<close>

lemma csv_line_head: "2 \<le> length fs \<Longrightarrow> \<exists>c t. csv_line fs = c # t \<and> c \<noteq> LF"
proof -
  assume "2 \<le> length fs"
  then obtain f g gs where fs: "fs = f # g # gs"
    by (cases fs; cases "tl fs") auto
  show ?thesis
  proof (cases f)
    case Nil
    then show ?thesis by (simp add: fs csv_line_def csv_field_def fieldNeedsQuotes_def)
  next
    case (Cons a b)
    then show ?thesis by (auto simp: fs csv_line_def csv_field_def fieldNeedsQuotes_def)
  qed
qed

lemma csv_read_line [csv_simps]:
  assumes "length fs = n" and "2 \<le> n"
  shows "csv_read n (csv_line fs @ s) = Csv_Record fs s"
proof -
  obtain c t where c: "csv_line fs = c # t" "c \<noteq> LF" using csv_line_head assms by blast
  have "fs \<noteq> []" using assms by auto
  from csv_start_line [OF this, of "[]" s] c assms show ?thesis
    by (simp add: csv_read_def)
qed

lemma csv_read_Nil [csv_simps]: "csv_read n [] = Csv_EOF"
  by (simp add: csv_read_def)

section \<open>What the writer wrote is already normal\<close>

text \<open>No carriage return is followed by a line feed or ends the text.\<close>

fun crlf_free :: "bytes \<Rightarrow> bool" where
  "crlf_free [] = True"
| "crlf_free [c] = (c \<noteq> CR)"
| "crlf_free (c # d # s) = (\<not> (c = CR \<and> d = LF) \<and> crlf_free (d # s))"

lemma csv_normalize_id: "crlf_free s \<Longrightarrow> csv_normalize s = s"
  by (induction s rule: crlf_free.induct) auto

lemma crlf_free_append:
  "crlf_free s \<Longrightarrow> crlf_free t \<Longrightarrow> crlf_free (s @ t)"
proof (induction s rule: crlf_free.induct)
  case (2 c)
  then show ?case by (cases t) auto
qed auto

lemma crlf_free_no_CR: "CR \<notin> set s \<Longrightarrow> crlf_free s"
  by (induction s rule: crlf_free.induct) auto

lemma crlf_free_snoc: "LF \<notin> set s \<Longrightarrow> c \<noteq> LF \<Longrightarrow> c \<noteq> CR \<Longrightarrow> crlf_free (s @ [c])"
proof (induction s rule: crlf_free.induct)
  case (3 a b s)
  then show ?case by (cases s) auto
qed auto

lemma crlf_free_field:
  assumes "LF \<notin> set f"
  shows "crlf_free (csv_field f)"
proof (cases "fieldNeedsQuotes f")
  case True
  have "LF \<notin> set (DQ # csv_quote f)"
    using assms by (auto simp: csv_quote_def ReplaceAll_def split: if_splits)
  from crlf_free_snoc [OF this, of DQ] True show ?thesis by (simp add: csv_field_def)
next
  case False
  then have "CR \<notin> set f" by (cases f) (auto simp: fieldNeedsQuotes_def)
  with False show ?thesis by (simp add: csv_field_def crlf_free_no_CR)
qed

lemma crlf_free_line:
  assumes "\<forall>f \<in> set fs. LF \<notin> set f"
  shows "crlf_free (csv_line fs)"
proof -
  have "crlf_free (join_on '','' (map csv_field fs))"
    using assms by (induction fs) (auto simp: join_on_Cons intro!: crlf_free_append crlf_free_field
        crlf_free_append [of "[COMMA]", simplified])
  then show ?thesis unfolding csv_line_def by (rule crlf_free_append) simp
qed

lemma csv_normalize_file:
  assumes "\<forall>fs \<in> set rs. \<forall>f \<in> set fs. LF \<notin> set f"
  shows "csv_normalize (csv_file rs) = csv_file rs"
proof (rule csv_normalize_id)
  show "crlf_free (csv_file rs)"
    using assms by (induction rs) (auto simp: csv_file_def intro!: crlf_free_append crlf_free_line)
qed

section \<open>Reading a whole file\<close>

text \<open>
  \<open>csv.Reader.ReadAll\<close> with \<open>FieldsPerRecord = 0\<close>, on normalised input: the first record
  sets the number of fields of the others.
\<close>

definition csv_next :: "bytes \<Rightarrow> csv_result" where
  "csv_next s = (case dropWhile (\<lambda>c. c = LF) s of [] \<Rightarrow> Csv_EOF | c # t \<Rightarrow> csv_start [] (c # t))"

lemma csv_next_shorter: "csv_next s = Csv_Record fs r \<Longrightarrow> length r < length s"
  using csv_read_shorter [of "length fs" s fs r]
  by (auto simp: csv_next_def csv_read_def split: list.splits)

function csv_read_all :: "nat option \<Rightarrow> bytes \<Rightarrow> csv_error + string list list" where
  "csv_read_all w s =
     (case csv_next s of
        Csv_EOF \<Rightarrow> Inr []
      | Csv_Error x \<Rightarrow> Inl x
      | Csv_Record fs r \<Rightarrow>
          if w \<noteq> None \<and> w \<noteq> Some (length fs) then Inl ErrFieldCount
          else case csv_read_all (Some (length fs)) r of Inl x \<Rightarrow> Inl x | Inr rs \<Rightarrow> Inr (fs # rs))"
  by pat_completeness auto
termination
  by (relation "measure (\<lambda>(w, s). length s)") (auto dest: csv_next_shorter [OF sym] csv_next_shorter)

declare csv_read_all.simps [simp del]

lemma csv_next_line [csv_simps]: "2 \<le> length fs \<Longrightarrow> csv_next (csv_line fs @ s) = Csv_Record fs s"
proof -
  assume l: "2 \<le> length fs"
  then obtain c t where c: "csv_line fs = c # t" "c \<noteq> LF" using csv_line_head by blast
  from l have "fs \<noteq> []" by auto
  from csv_start_line [OF this, of "[]" s] c show ?thesis by (simp add: csv_next_def)
qed

lemma csv_read_all_file:
  assumes "\<forall>fs \<in> set rs. length fs = n" and "2 \<le> n" and "w = None \<or> w = Some n"
  shows "csv_read_all w (csv_file rs) = Inr rs"
  using assms
proof (induction rs arbitrary: w)
  case Nil
  then show ?case by (simp add: csv_read_all.simps csv_next_def csv_file_def)
next
  case (Cons fs rs)
  then have "csv_next (csv_file (fs # rs)) = Csv_Record fs (csv_file rs)"
    by (simp add: csv_file_def csv_next_line)
  moreover have "csv_read_all (Some n) (csv_file rs) = Inr rs"
    using Cons by simp
  moreover have "length fs = n" using Cons.prems by simp
  ultimately show ?case using Cons.prems(3) by (subst csv_read_all.simps) auto
qed

end
