(* ===== verification/Db_Types.thy ===== *)
theory Db_Types
  imports Go_Fmt Go_Path Go_Url Go_Csv "HOL-Library.AList"
begin

text \<open>
  The records of the database and the functions on one record:
  \<^verbatim>\<open>src/internal/db/user.go\<close> (\<open>User\<close>, \<open>ValidateUsername\<close>) and
  \<^verbatim>\<open>src/internal/db/acp.go\<close> (\<open>Policy\<close>, matching, the encoding of path lists).
\<close>

section \<open>Go maps with string keys\<close>

text \<open>
  A map is the list of its entries, keys distinct, in the order in which a \<open>range\<close> loop
  visits them. Go leaves that order open; every list with the same entries stands for the
  same map.
\<close>

type_synonym 'v gomap = "(string \<times> 'v) list"

abbreviation range :: "'v gomap \<Rightarrow> 'v list" where
  "range m \<equiv> map snd m"

section \<open>Users\<close>

record user =
  Username :: string
  Password :: bytes
  Chroot :: string
  Admin :: bool

definition username_head :: "char \<Rightarrow> bool" where
  "username_head c \<longleftrightarrow> 97 \<le> byte_val c \<and> byte_val c \<le> 122 \<or> c = CHR ''_''"

definition username_char :: "char \<Rightarrow> bool" where
  "username_char c \<longleftrightarrow> username_head c \<or> is_digit c \<or> c = CHR ''-''"

text \<open>The regular expression: one letter or underscore, then up to 31 more characters.\<close>

definition ValidateUsername :: "string \<Rightarrow> bool" where
  "ValidateUsername s =
     (case s of [] \<Rightarrow> False
      | c # cs \<Rightarrow> username_head c \<and> list_all username_char cs \<and> length cs \<le> 31)"

declare username_head_def [go_defs] username_char_def [go_defs] ValidateUsername_def [go_defs]

definition bool_field :: "bool \<Rightarrow> string" where
  "bool_field b = (if b then ''1'' else ''0'')"

text \<open>One row of \<^verbatim>\<open>users.csv\<close>.\<close>

definition user_record :: "user \<Rightarrow> string list" where
  "user_record u = [Username u, Password u, Chroot u, bool_field (Admin u)]"

section \<open>Access policies\<close>

type_synonym action = char

definition Action_Read :: action where "Action_Read = CHR ''R''"
definition Action_Write :: action where "Action_Write = CHR ''W''"

definition Allow :: string where "Allow = ''ALLOW''"
definition Deny :: string where "Deny = ''DENY''"

declare Action_Read_def [go_defs] Action_Write_def [go_defs] Allow_def [go_defs] Deny_def [go_defs]

text \<open>The slice of users may be nil (\<open>None\<close>), which the table writes as a star.\<close>

record policy =
  Verb :: string
  Action :: action
  PolicyName :: string
  Users :: "string list option"
  Paths :: "string list"

definition user_list :: "policy \<Rightarrow> string list" where
  "user_list p = (case Users p of None \<Rightarrow> [] | Some us \<Rightarrow> us)"

fun matchesPath :: "string \<Rightarrow> string list \<Rightarrow> bool" where
  "matchesPath path [] = False"
| "matchesPath path (p # ps) = (if prefix p path then True else matchesPath path ps)"

fun matchesUser :: "string \<Rightarrow> string list \<Rightarrow> bool" where
  "matchesUser username [] = False"
| "matchesUser username (u # us) = (if u = username then True else matchesUser username us)"

definition matchesPolicy :: "string \<Rightarrow> string \<Rightarrow> action \<Rightarrow> policy \<Rightarrow> bool" where
  "matchesPolicy path username act p \<longleftrightarrow>
     Action p = act \<and> matchesPath path (Paths p) \<and> matchesUser username (user_list p)"

definition escape_path :: "string \<Rightarrow> string" where
  "escape_path p = ReplaceAll (ReplaceAll p CHR ''%'' ''%25'') CHR '':'' ''%3A''"

definition sanitizePaths :: "policy \<Rightarrow> policy" where
  "sanitizePaths p = p\<lparr>Paths := map escape_path (Paths p)\<rparr>"

text \<open>One row of \<^verbatim>\<open>acp.csv\<close>, from a policy whose paths have been escaped.\<close>

definition policy_record :: "policy \<Rightarrow> string list" where
  "policy_record rule =
     [PolicyName rule, Verb rule, show_rune_byte (Action rule),
      (case Users rule of None \<Rightarrow> ''*'' | Some us \<Rightarrow> join_on '':'' us),
      join_on '':'' (Paths rule)]"

definition parsePolicyUsers :: "string \<Rightarrow> string list" where
  "parsePolicyUsers s = split_on CHR '':'' s"

text \<open>\<open>Inl\<close>: the first path with a malformed escape.\<close>

fun unescape_all :: "string list \<Rightarrow> string + string list" where
  "unescape_all [] = Inr []"
| "unescape_all (p # ps) =
     (case QueryUnescape p of
        None \<Rightarrow> Inl p
      | Some q \<Rightarrow>
          (case unescape_all ps of
             Inl e \<Rightarrow> Inl e
           | Inr qs \<Rightarrow> Inr (q # qs)))"

definition parsePolicyPaths :: "string \<Rightarrow> int \<Rightarrow> string + string list" where
  "parsePolicyPaths s lineNum =
     (case unescape_all (split_on CHR '':'' s) of
        Inl p \<Rightarrow> Inl (''Corrupted FlyDB ACP table: invalid path '' @ p @ '' at line '' @ Itoa lineNum)
      | Inr paths \<Rightarrow> Inr paths)"

section \<open>Matching, as sets\<close>

lemma matchesPath_iff: "matchesPath path ps \<longleftrightarrow> (\<exists>p \<in> set ps. prefix p path)"
  by (induction ps) auto

lemma matchesUser_iff: "matchesUser u us \<longleftrightarrow> u \<in> set us"
  by (induction us) auto

lemma matchesPolicy_iff:
  "matchesPolicy path u act p \<longleftrightarrow>
     Action p = act \<and> (\<exists>q \<in> set (Paths p). prefix q path) \<and> u \<in> set (user_list p)"
  by (simp add: matchesPolicy_def matchesPath_iff matchesUser_iff)

section \<open>What escaping and unescaping a path does\<close>

definition plus_to_space :: "string \<Rightarrow> string" where
  "plus_to_space p = map (\<lambda>c. if c = CHR ''+'' then SP else c) p"

lemma escape_Nil [simp]: "escape_path [] = []"
  by (simp add: escape_path_def ReplaceAll_def)

lemma escape_Cons:
  "escape_path (c # p) =
     (if c = CHR ''%'' then ''%25'' else if c = CHR '':'' then ''%3A'' else [c]) @ escape_path p"
  by (simp add: escape_path_def ReplaceAll_def)

lemma escape_path_id: "CHR ''%'' \<notin> set p \<Longrightarrow> CHR '':'' \<notin> set p \<Longrightarrow> escape_path p = p"
  by (simp add: escape_path_def)

lemma escape_no_colon [simp]: "CHR '':'' \<notin> set (escape_path p)"
  by (induction p) (auto simp: escape_Cons)

lemma escape_LF: "LF \<notin> set p \<Longrightarrow> LF \<notin> set (escape_path p)"
  by (induction p) (auto simp: escape_Cons)

lemma escape_bytes: "char_of (58 :: nat) = CHR '':''" "char_of (37 :: nat) = CHR ''%''"
  by (simp_all add: char_of_def bit_Suc_0_iff)

lemma QueryUnescape_escape: "QueryUnescape (escape_path p) = Some (plus_to_space p)"
  by (induction p) (auto simp: escape_Cons plus_to_space_def hex_val_def Let_def escape_bytes)

lemma unescape_escape_all:
  "unescape_all (map escape_path ps) = Inr (map plus_to_space ps)"
  by (induction ps) (auto simp: QueryUnescape_escape)

text \<open>The whole path list survives the table up to its plus signs.\<close>

lemma parsePolicyPaths_escape:
  "ps \<noteq> [] \<Longrightarrow>
   parsePolicyPaths (join_on '':'' (map escape_path ps)) n = Inr (map plus_to_space ps)"
  by (simp add: parsePolicyPaths_def split_join unescape_escape_all)

lemma plus_to_space_id [simp]: "CHR ''+'' \<notin> set p \<Longrightarrow> plus_to_space p = p"
  by (induction p) (auto simp: plus_to_space_def)

lemma parsePolicyUsers_join:
  "us \<noteq> [] \<Longrightarrow> \<forall>u \<in> set us. CHR '':'' \<notin> set u \<Longrightarrow> parsePolicyUsers (join_on '':'' us) = us"
  by (simp add: parsePolicyUsers_def split_join)

end
