(* ===== verification/Db_Store.thy ===== *)
theory Db_Store
  imports Db_Types
begin

text \<open>
  The database handle, its files and its operations: \<^verbatim>\<open>src/internal/db/db.go\<close>,
  \<^verbatim>\<open>user.go\<close> and \<^verbatim>\<open>acp.go\<close>. The files under the root directory are a
  map from paths to contents; what the operating system may answer to a write is an
  argument (\<open>io_fault\<close>) of every operation that writes. A transaction holds the handle's
  lock from start to end, so an operation is one step on the handle; \<open>Txn\<close>, \<open>RTxn\<close> and
  \<open>Complete\<close> have no other effect.
\<close>

section \<open>Handle, errors, environment\<close>

text \<open>An error of the handle: its message and the cause it wraps.\<close>

datatype cause = No_cause | Os_error string | Csv_cause csv_error | Eof_cause

datatype db_err = DbErr string cause

record handle =
  dir :: string
  err :: "db_err option"
  users :: "user gomap"
  policies :: "policy gomap"
  disk :: "string \<rightharpoonup> bytes"

text \<open>
  The outcome of one table write: where it fails, with the error text, and with the bytes
  that reached the temporary file before.
\<close>

datatype io_fault =
    No_fault
  | Open_fails string
  | Header_fails bytes string
  | Records_fail bytes string
  | Rename_fails string

definition set_err :: "string \<Rightarrow> cause \<Rightarrow> handle \<Rightarrow> handle" where
  "set_err msg c db = db\<lparr>err := Some (DbErr msg c)\<rparr>"

text \<open>
  Third-party code: \<^verbatim>\<open>golang.org/x/crypto/bcrypt\<close>. Comparing a hash with a password
  succeeds, finds a mismatch, or finds that the hash is malformed; hashing depends on fresh
  randomness, the first argument, and can fail.
\<close>

datatype bcrypt_result = Match | ErrMismatchedHashAndPassword | Malformed

record bcrypt =
  CompareHashAndPassword :: "bytes \<Rightarrow> string \<Rightarrow> bcrypt_result"
  GenerateFromPassword :: "nat \<Rightarrow> string \<Rightarrow> string + bytes"

section \<open>Writing a table\<close>

definition users_tmp :: "handle \<Rightarrow> string" where
  "users_tmp db = Join [dir db, ''.fly/users.csv~'']"

definition acp_tmp :: "handle \<Rightarrow> string" where
  "acp_tmp db = Join [dir db, ''.fly/acp.csv~'']"

definition users_path :: "handle \<Rightarrow> string" where
  "users_path db = Join [dir db, ''.fly/users.csv'']"

definition acp_path :: "handle \<Rightarrow> string" where
  "acp_path db = Join [dir db, ''.fly/acp.csv'']"

definition version_path :: "handle \<Rightarrow> string" where
  "version_path db = Join [dir db, ''.fly/version'']"

definition users_header :: "string list" where
  "users_header = [''username'', ''password'', ''chroot'', ''admin'']"

definition acp_header :: "string list" where
  "acp_header = [''rule'', ''verb'', ''action'', ''users'', ''paths'']"

definition users_bytes :: "handle \<Rightarrow> bytes" where
  "users_bytes db = csv_file (users_header # map user_record (range (users db)))"

text \<open>The rename moves the temporary file over the table.\<close>

definition rename_file :: "string \<Rightarrow> string \<Rightarrow> (string \<rightharpoonup> bytes) \<Rightarrow> (string \<rightharpoonup> bytes)" where
  "rename_file src dst d = (d(dst := d src))(src := None)"

definition writeUsers :: "io_fault \<Rightarrow> handle \<Rightarrow> handle" where
  "writeUsers f db =
     (if err db \<noteq> None then db
      else
        let tmp = users_tmp db; full = (disk db)(tmp \<mapsto> users_bytes db) in
        case f of
          Open_fails e \<Rightarrow> set_err ''Could not open FlyDB user table for writing'' (Os_error e) db
        | Header_fails part e \<Rightarrow>
            set_err ''Could not write the header to the FlyDB user table'' (Os_error e)
              (db\<lparr>disk := (disk db)(tmp \<mapsto> part)\<rparr>)
        | Records_fail part e \<Rightarrow>
            set_err ''Could not write records to the FlyDB user table'' (Os_error e)
              (db\<lparr>disk := (disk db)(tmp \<mapsto> part)\<rparr>)
        | Rename_fails e \<Rightarrow>
            set_err ''Could not commit the FlyDB user table'' (Os_error e) (db\<lparr>disk := full\<rparr>)
        | No_fault \<Rightarrow> db\<lparr>disk := rename_file tmp (TrimRight tmp ''~'') full\<rparr>)"

text \<open>
  The policy table. The loop that builds the records escapes the paths of every policy in
  place: the loop variable is a copy, but the slice of paths it holds is the map's own.
\<close>

definition sanitized :: "handle \<Rightarrow> handle" where
  "sanitized db = db\<lparr>policies := map (\<lambda>(k, p). (k, sanitizePaths p)) (policies db)\<rparr>"

definition acp_bytes :: "handle \<Rightarrow> bytes" where
  "acp_bytes db = csv_file (acp_header # map policy_record (range (policies db)))"

definition writeAccessPolicies :: "io_fault \<Rightarrow> handle \<Rightarrow> handle" where
  "writeAccessPolicies f db =
     (if err db \<noteq> None then db
      else
        let tmp = acp_tmp db; san = sanitized db; full = (disk db)(tmp \<mapsto> acp_bytes san) in
        case f of
          Open_fails e \<Rightarrow> set_err ''Could not open FlyDB ACP table for writing'' (Os_error e) db
        | Header_fails part e \<Rightarrow>
            set_err ''Could not write header to the FlyDB ACP table'' (Os_error e)
              (db\<lparr>disk := (disk db)(tmp \<mapsto> part)\<rparr>)
        | Records_fail part e \<Rightarrow>
            set_err ''Could not write records to the FlyDB ACP table'' (Os_error e)
              (san\<lparr>disk := (disk db)(tmp \<mapsto> part)\<rparr>)
        | Rename_fails e \<Rightarrow>
            set_err ''Could not finalize writing to the FlyDB ACP table'' (Os_error e)
              (san\<lparr>disk := full\<rparr>)
        | No_fault \<Rightarrow> san\<lparr>disk := rename_file tmp (TrimRight tmp ''~'') full\<rparr>)"

section \<open>Reading a table\<close>

text \<open>
  Opening a file: it may be missing, or the operating system refuses for another reason (the
  argument \<open>bad\<close>, a map from paths to error texts). A file that opens is read completely.
\<close>

datatype open_error = ErrNotExist | Other_error string

definition opened :: "(string \<rightharpoonup> string) \<Rightarrow> handle \<Rightarrow> string \<Rightarrow> open_error + bytes" where
  "opened bad db path =
     (case bad path of
        Some e \<Rightarrow> Inl (Other_error e)
      | None \<Rightarrow> (case disk db path of None \<Rightarrow> Inl ErrNotExist | Some b \<Rightarrow> Inr b))"

fun open_cause :: "open_error \<Rightarrow> cause" where
  "open_cause ErrNotExist = Os_error ''no such file or directory''"
| "open_cause (Other_error e) = Os_error e"

text \<open>The loop over the rows of the users table.\<close>

function read_user_rows :: "bcrypt \<Rightarrow> bytes \<Rightarrow> handle \<Rightarrow> handle" where
  "read_user_rows bc s db =
     (case csv_read 4 s of
        Csv_EOF \<Rightarrow> db
      | Csv_Error e \<Rightarrow> set_err ''Could not read from the FlyDB users table'' (Csv_cause e) db
      | Csv_Record row rest \<Rightarrow>
          let newuser = \<lparr>Username = row ! 0, Password = row ! 1, Chroot = row ! 2,
                         Admin = row ! 3 = ''1''\<rparr>;
              db1 = db\<lparr>users := AList.update (Username newuser) newuser (users db)\<rparr>
          in
          if \<not> ValidateUsername (Username newuser) then
            set_err (''Corrupted FlyDB users table. Invalid username: '' @ Username newuser)
              No_cause db1
          else if row ! 3 \<noteq> ''0'' \<and> row ! 3 \<noteq> ''1'' then
            set_err (''Corrupted FlyDB users table. Invalid admin bit: '' @ row ! 3) No_cause db1
          else if CompareHashAndPassword bc (Password newuser) ''secret'' = Malformed then
            set_err (''Corrupted FlyDB users table. Invalid password hash: '' @ Password newuser)
              No_cause db1
          else read_user_rows bc rest db1)"
  by pat_completeness auto
termination
  by (relation "measure (\<lambda>(bc, s, db). length s)") (auto dest: csv_read_shorter)

declare read_user_rows.simps [simp del]

definition readUsers :: "bcrypt \<Rightarrow> (string \<rightharpoonup> string) \<Rightarrow> handle \<Rightarrow> handle" where
  "readUsers bc bad db =
     (if err db \<noteq> None then db
      else case opened bad db (users_path db) of
          Inl e \<Rightarrow> set_err ''Could not open the FlyDB users table'' (open_cause e) db
        | Inr raw \<Rightarrow>
            (case csv_read 4 (csv_normalize raw) of
               Csv_EOF \<Rightarrow>
                 set_err ''Could not read header from the FlyDB users table'' Eof_cause db
             | Csv_Error e \<Rightarrow>
                 set_err ''Could not read header from the FlyDB users table'' (Csv_cause e) db
             | Csv_Record h rest \<Rightarrow> read_user_rows bc rest db))"

text \<open>The loop over the rows of the policy table; \<open>lineNum\<close> counts records.\<close>

function read_acp_rows :: "int \<Rightarrow> bytes \<Rightarrow> handle \<Rightarrow> handle" where
  "read_acp_rows lineNum s db =
     (case csv_read 5 s of
        Csv_EOF \<Rightarrow> db
      | Csv_Error e \<Rightarrow> set_err ''Could not read from the FlyDB ACP table'' (Csv_cause e) db
      | Csv_Record row rest \<Rightarrow>
          if TrimSpace (row ! 0) = [] then
            set_err (''Corrupted FlyDB ACP table: missing ACP name at line '' @ Itoa lineNum)
              No_cause db
          else if row ! 1 \<noteq> ''ALLOW'' \<and> row ! 1 \<noteq> ''DENY'' then
            set_err (''Corrupted FlyDB ACP table: invalid verb (ALLOW/DENY) at line ''
              @ Itoa lineNum) No_cause db
          else if row ! 2 \<noteq> ''R'' \<and> row ! 2 \<noteq> ''W'' then
            set_err (''Corrupted FlyDB ACP table: invalid action (R/W) at line ''
              @ Itoa lineNum) No_cause db
          else
            (case parsePolicyPaths (row ! 4) lineNum of
               Inl msg \<Rightarrow> set_err msg No_cause db
             | Inr paths \<Rightarrow>
                 read_acp_rows (lineNum + 1) rest
                   (db\<lparr>policies := AList.update (row ! 0)
                      \<lparr>Verb = row ! 1, Action = hd (row ! 2), PolicyName = row ! 0,
                       Users = Some (parsePolicyUsers (row ! 3)), Paths = paths\<rparr>
                      (policies db)\<rparr>)))"
  by pat_completeness auto
termination
  by (relation "measure (\<lambda>(n, s, db). length s)") (auto dest: csv_read_shorter)

declare read_acp_rows.simps [simp del]

definition readAccessPolicies :: "(string \<rightharpoonup> string) \<Rightarrow> handle \<Rightarrow> handle" where
  "readAccessPolicies bad db =
     (if err db \<noteq> None then db
      else case opened bad db (acp_path db) of
          Inl e \<Rightarrow> set_err ''Could not open the FlyDB ACP table'' (open_cause e) db
        | Inr raw \<Rightarrow>
            (case csv_read 5 (csv_normalize raw) of
               Csv_EOF \<Rightarrow>
                 set_err ''Could not read header from the FlyDB ACP table'' Eof_cause db
             | Csv_Error e \<Rightarrow>
                 set_err ''Could not read header from the FlyDB ACP table'' (Csv_cause e) db
             | Csv_Record h rest \<Rightarrow> read_acp_rows 1 rest db))"

section \<open>Opening the database\<close>

text \<open>The verb \<open>%d\<close> on a byte slice.\<close>

definition show_bytes :: "bytes \<Rightarrow> string" where
  "show_bytes bs = ''['' @ join_on '' '' (map (\<lambda>b. Itoa (int (byte_val b))) bs) @ '']''"

text \<open>\<open>Inr found\<close>, or the error of an unreadable or foreign version file.\<close>

definition readVersionFile :: "(string \<rightharpoonup> string) \<Rightarrow> handle \<Rightarrow> db_err + bool" where
  "readVersionFile bad db =
     (case opened bad db (version_path db) of
        Inl ErrNotExist \<Rightarrow> Inr False
      | Inl (Other_error e) \<Rightarrow> Inl (DbErr ''Could not open FlyDB version file'' (Os_error e))
      | Inr raw \<Rightarrow>
          let version = TrimSpace raw in
          if version \<noteq> ''1''
          then Inl (DbErr (''Unexpected FlyDB version: '' @ show_bytes version) No_cause)
          else Inr True)"

definition writeVersionFile :: "io_fault \<Rightarrow> handle \<Rightarrow> handle" where
  "writeVersionFile f db =
     (if err db \<noteq> None then db
      else case f of
          No_fault \<Rightarrow> db\<lparr>disk := (disk db)(version_path db \<mapsto> ''1'' @ [LF])\<rparr>
        | Open_fails e \<Rightarrow> set_err ''Could not create FlyDB version file'' (Os_error e) db
        | Header_fails part e \<Rightarrow>
            set_err ''Could not create FlyDB version file'' (Os_error e)
              (db\<lparr>disk := (disk db)(version_path db \<mapsto> part)\<rparr>)
        | Records_fail part e \<Rightarrow>
            set_err ''Could not create FlyDB version file'' (Os_error e)
              (db\<lparr>disk := (disk db)(version_path db \<mapsto> part)\<rparr>)
        | Rename_fails e \<Rightarrow> set_err ''Could not create FlyDB version file'' (Os_error e) db)"

text \<open>
  What \<open>Open\<close> meets: files that cannot be opened, the answer to creating the folder and to
  the three writes, and what loading the TLS certificate leaves in the handle's error (the
  certificate and its files are not modelled further).
\<close>

record open_env =
  unreadable :: "string \<rightharpoonup> string"
  mkdir_error :: "string option"
  version_fault :: io_fault
  users_fault :: io_fault
  acp_fault :: io_fault
  tls_error :: "db_err option"

definition tls_outcome :: "db_err option \<Rightarrow> handle \<Rightarrow> handle" where
  "tls_outcome e db = (if err db \<noteq> None then db else db\<lparr>err := e\<rparr>)"

definition new_handle :: "string \<Rightarrow> (string \<rightharpoonup> bytes) \<Rightarrow> handle" where
  "new_handle d files = \<lparr>dir = d, err = None, users = [], policies = [], disk = files\<rparr>"

definition finish_open :: "open_env \<Rightarrow> handle \<Rightarrow> db_err + handle" where
  "finish_open env db =
     (let db' = tls_outcome (tls_error env) db
      in case err db' of Some e \<Rightarrow> Inl e | None \<Rightarrow> Inr db')"

definition Open :: "bcrypt \<Rightarrow> open_env \<Rightarrow> string \<Rightarrow> (string \<rightharpoonup> bytes) \<Rightarrow> db_err + handle" where
  "Open bc env d files =
     (let db = new_handle d files in
      case readVersionFile (unreadable env) db of
        Inl e \<Rightarrow> Inl e
      | Inr True \<Rightarrow> finish_open env (readAccessPolicies (unreadable env)
                       (readUsers bc (unreadable env) db))
      | Inr False \<Rightarrow>
          (case mkdir_error env of
             Some e \<Rightarrow> Inl (DbErr ''Could not create FlyDB folder'' (Os_error e))
           | None \<Rightarrow>
               finish_open env
                 (writeAccessPolicies (acp_fault env)
                   (writeUsers (users_fault env) (writeVersionFile (version_fault env) db)))))"

section \<open>Operations of the transactions\<close>

datatype op_error = NotFound string | Exists | Db_failed db_err

definition db_result :: "handle \<Rightarrow> op_error option \<times> handle" where
  "db_result db = (map_option Db_failed (err db), db)"

definition FetchAllUsers :: "handle \<Rightarrow> user list" where
  "FetchAllUsers db = range (users db)"

definition NumUsers :: "handle \<Rightarrow> nat" where
  "NumUsers db = length (users db)"

definition FindUser :: "handle \<Rightarrow> string \<Rightarrow> user option" where
  "FindUser db username = map_of (users db) username"

definition put_user :: "io_fault \<Rightarrow> string \<Rightarrow> user \<Rightarrow> handle \<Rightarrow> handle" where
  "put_user f k u db = writeUsers f (db\<lparr>users := AList.update k u (users db)\<rparr>)"

definition AddUser :: "io_fault \<Rightarrow> user \<Rightarrow> handle \<Rightarrow> op_error option \<times> handle" where
  "AddUser f u db =
     (case FindUser db (Username u) of
        Some _ \<Rightarrow> (Some Exists, db)
      | None \<Rightarrow> db_result (put_user f (Username u) u db))"

definition UpdateUser ::
  "io_fault \<Rightarrow> string \<Rightarrow> (user \<Rightarrow> user) \<Rightarrow> handle \<Rightarrow> op_error option \<times> handle" where
  "UpdateUser f username g db =
     (case FindUser db username of
        None \<Rightarrow> (Some (NotFound (''user not found: '' @ username)), db)
      | Some u \<Rightarrow> db_result (put_user f username (g u) db))"

definition remove_user :: "io_fault \<Rightarrow> string \<Rightarrow> handle \<Rightarrow> handle" where
  "remove_user f k db = writeUsers f (db\<lparr>users := AList.delete k (users db)\<rparr>)"

definition DeleteUser :: "io_fault \<Rightarrow> string \<Rightarrow> handle \<Rightarrow> op_error option \<times> handle" where
  "DeleteUser f username db =
     (case FindUser db username of
        None \<Rightarrow> (Some (NotFound (''user not found: '' @ username)), db)
      | Some _ \<Rightarrow> db_result (remove_user f username db))"

definition put_policy :: "io_fault \<Rightarrow> string \<Rightarrow> policy \<Rightarrow> handle \<Rightarrow> handle" where
  "put_policy f k p db = writeAccessPolicies f (db\<lparr>policies := AList.update k p (policies db)\<rparr>)"

definition PutAccessPolicy :: "io_fault \<Rightarrow> policy \<Rightarrow> handle \<Rightarrow> op_error option \<times> handle" where
  "PutAccessPolicy f p db = db_result (put_policy f (PolicyName p) p db)"

definition GetPolicies :: "handle \<Rightarrow> string \<Rightarrow> string \<Rightarrow> action \<Rightarrow> policy list" where
  "GetPolicies db path username act = filter (matchesPolicy path username act) (range (policies db))"

definition FetchAllPolicies :: "handle \<Rightarrow> policy list" where
  "FetchAllPolicies db = range (policies db)"

definition remove_policy :: "io_fault \<Rightarrow> string \<Rightarrow> handle \<Rightarrow> handle" where
  "remove_policy f k db =
     writeAccessPolicies f (db\<lparr>policies := AList.delete k (policies db)\<rparr>)"

definition DeleteAccessPolicy ::
  "io_fault \<Rightarrow> string \<Rightarrow> handle \<Rightarrow> op_error option \<times> handle" where
  "DeleteAccessPolicy f name db =
     (if map_of (policies db) name = None
      then (Some (NotFound (''policy not found: '' @ name)), db)
      else db_result (remove_policy f name db))"

end
