(* ===== verification/Db_Facts.thy ===== *)
theory Db_Facts
  imports Db_Store
begin

text \<open>
  The database as a keyed table. \<open>table_wf\<close> is what every operation keeps of a map of
  entries; \<open>keyed_table\<close> is the interface the server relies on, interpreted for the users
  (\<open>user_table\<close>) and for the policies (\<open>policy_table\<close>) on the operations of theory
  \<open>Db_Store\<close>, whatever happens to the files.
\<close>

section \<open>Well-formed entry lists\<close>

definition table_wf :: "('v \<Rightarrow> string) \<Rightarrow> ('v \<Rightarrow> bool) \<Rightarrow> 'v gomap \<Rightarrow> bool" where
  "table_wf key ok m \<longleftrightarrow>
     distinct (map fst m) \<and> (\<forall>k e. map_of m k = Some e \<longrightarrow> key e = k \<and> ok e)"

lemma table_wf_Nil [simp]: "table_wf key ok []"
  by (simp add: table_wf_def)

lemma table_wf_update: "table_wf key ok m \<Longrightarrow> ok e \<Longrightarrow> table_wf key ok (AList.update (key e) e m)"
  by (simp add: table_wf_def distinct_update update_conv')

lemma table_wf_delete: "table_wf key ok m \<Longrightarrow> table_wf key ok (AList.delete k m)"
  by (simp add: table_wf_def delete_conv' distinct_delete)

lemma table_wf_map:
  assumes "table_wf key ok m" and "\<And>e. key (g e) = key e" and "\<And>e. ok e \<Longrightarrow> ok (g e)"
  shows "table_wf key ok (map (\<lambda>(k, e). (k, g e)) m)"
proof -
  have "map_of (map (\<lambda>(k, e). (k, g e)) m) = map_option g \<circ> map_of m"
    by (simp add: map_of_map)
  moreover have "map fst (map (\<lambda>(k, e). (k, g e)) m) = map fst m" by (induction m) auto
  ultimately show ?thesis using assms unfolding table_wf_def by (metis comp_apply map_option_eq_Some)
qed

lemma table_wfD:
  "table_wf key ok m \<Longrightarrow> map_of m k = Some e \<Longrightarrow> key e = k"
  "table_wf key ok m \<Longrightarrow> map_of m k = Some e \<Longrightarrow> ok e"
  unfolding table_wf_def by blast+

lemma table_wf_mem: "table_wf key ok m \<Longrightarrow> (k, e) \<in> set m \<longleftrightarrow> map_of m k = Some e"
  by (simp add: table_wf_def)

lemma table_wf_entries:
  assumes "table_wf key ok m"
  shows "set (range m) = {e. map_of m (key e) = Some e}"
proof (intro set_eqI iffI)
  fix e assume "e \<in> set (range m)"
  then obtain k where "(k, e) \<in> set m" by auto
  then have "map_of m k = Some e" using assms by (simp add: table_wf_mem)
  then show "e \<in> {e. map_of m (key e) = Some e}" using assms by (auto simp: table_wf_def)
next
  fix e assume "e \<in> {e. map_of m (key e) = Some e}"
  then have "(key e, e) \<in> set m" using assms by (simp add: table_wf_mem)
  then show "e \<in> set (range m)" by (metis image_eqI list.set_map snd_conv)
qed

lemma table_wf_entry:
  assumes "table_wf key ok m" and "x \<in> set m"
  shows "key (snd x) = fst x" and "ok (snd x)"
proof -
  have "map_of m (fst x) = Some (snd x)" using assms by (simp flip: table_wf_mem [OF assms(1)])
  then show "key (snd x) = fst x" and "ok (snd x)" by (rule table_wfD [OF assms(1)])+
qed

lemma table_wf_keys:
  assumes "table_wf key ok m"
  shows "map key (range m) = map fst m"
  using table_wf_entry(1) [OF assms] by simp

lemma table_wf_distinct: "table_wf key ok m \<Longrightarrow> distinct (map key (range m))"
  unfolding table_wf_keys by (simp add: table_wf_def)

section \<open>The interface of a table\<close>

locale keyed_table =
  fixes wf :: "'s \<Rightarrow> bool"
    and find :: "'s \<Rightarrow> string \<Rightarrow> 'e option"
    and all :: "'s \<Rightarrow> 'e list"
    and key :: "'e \<Rightarrow> string"
    and ok :: "'e \<Rightarrow> bool"
    and put :: "'e \<Rightarrow> 's \<Rightarrow> 's"
    and take_out :: "string \<Rightarrow> 's \<Rightarrow> 's"
  assumes find_key: "wf s \<Longrightarrow> find s k = Some e \<Longrightarrow> key e = k \<and> ok e"
    and all_find: "wf s \<Longrightarrow> set (all s) = {e. find s (key e) = Some e}"
    and all_distinct: "wf s \<Longrightarrow> distinct (map key (all s))"
    and wf_put: "wf s \<Longrightarrow> ok e \<Longrightarrow> wf (put e s)"
    and find_put: "wf s \<Longrightarrow> ok e \<Longrightarrow> find (put e s) k = (if k = key e then Some e else find s k)"
    and wf_take_out: "wf s \<Longrightarrow> wf (take_out n s)"
    and find_take_out: "wf s \<Longrightarrow> find (take_out n s) k = (if k = n then None else find s k)"
begin

lemma all_put:
  "wf s \<Longrightarrow> ok e \<Longrightarrow> set (all (put e s)) = insert e {x \<in> set (all s). key x \<noteq> key e}"
  by (auto simp: all_find wf_put find_put split: if_splits)

lemma all_take_out: "wf s \<Longrightarrow> set (all (take_out n s)) = {x \<in> set (all s). key x \<noteq> n}"
  by (auto simp: all_find wf_take_out find_take_out split: if_splits)

lemma all_unique: "wf s \<Longrightarrow> x \<in> set (all s) \<Longrightarrow> y \<in> set (all s) \<Longrightarrow> key x = key y \<Longrightarrow> x = y"
  by (simp add: all_find)

lemma count_put:
  assumes "wf s" and "ok e"
  shows "length (all (put e s)) = (if find s (key e) = None then 1 else 0) + length (all s)"
proof -
  have c: "length (all t) = card (key ` set (all t))" if "wf t" for t
    using all_distinct [OF that] by (metis distinct_card length_map set_map)
  have k: "key ` set (all t) = {k. find t k \<noteq> None}" if t: "wf t" for t
  proof (intro set_eqI iffI)
    fix x assume "x \<in> {k. find t k \<noteq> None}"
    then obtain e where "find t x = Some e" by auto
    with find_key [OF t this] have "key e = x" "e \<in> set (all t)" by (simp_all add: all_find [OF t])
    then show "x \<in> key ` set (all t)" by blast
  qed (auto simp: all_find [OF t])
  have fin: "finite {k. find s k \<noteq> None}" using k [OF assms(1)] by (metis finite_imageI finite_set)
  have "{k. find (put e s) k \<noteq> None} = insert (key e) {k. find s k \<noteq> None}"
    using assms by (auto simp: find_put)
  then show ?thesis
    by (simp add: c [OF wf_put [OF assms]] k [OF wf_put [OF assms]] c [OF assms(1)] k [OF assms(1)]
        card_insert_if fin del: not_None_eq)
qed

end

section \<open>Users and policies as tables\<close>

abbreviation valid_user :: "user \<Rightarrow> bool" where
  "valid_user u \<equiv> ValidateUsername (Username u)"

definition valid_policy :: "policy \<Rightarrow> bool" where
  "valid_policy p \<longleftrightarrow> TrimSpace (PolicyName p) \<noteq> [] \<and> (Verb p = Allow \<or> Verb p = Deny)
     \<and> (Action p = Action_Read \<or> Action p = Action_Write)"

text \<open>Paths that the table can hold unescaped.\<close>

definition raw_paths :: "policy \<Rightarrow> bool" where
  "raw_paths p \<longleftrightarrow> (\<forall>q \<in> set (Paths p). CHR ''%'' \<notin> set q \<and> CHR '':'' \<notin> set q)"

definition db_wf :: "handle \<Rightarrow> bool" where
  "db_wf db \<longleftrightarrow>
     table_wf Username valid_user (users db) \<and> table_wf PolicyName valid_policy (policies db)"

text \<open>Writing a table changes the disk and the error, and escapes the policies' paths.\<close>

lemma set_err_simps [simp]:
  "users (set_err m c db) = users db" "policies (set_err m c db) = policies db"
  "dir (set_err m c db) = dir db" "disk (set_err m c db) = disk db"
  "err (set_err m c db) = Some (DbErr m c)"
  by (simp_all add: set_err_def)

lemma writeUsers_simps [simp]:
  "users (writeUsers f db) = users db" "policies (writeUsers f db) = policies db"
  "dir (writeUsers f db) = dir db"
  by (simp_all add: writeUsers_def Let_def split: io_fault.split)

lemma writeAccessPolicies_simps [simp]:
  "users (writeAccessPolicies f db) = users db" "dir (writeAccessPolicies f db) = dir db"
  by (simp_all add: writeAccessPolicies_def sanitized_def Let_def split: io_fault.split)

lemma writeAccessPolicies_policies:
  "policies (writeAccessPolicies f db) \<in> {policies db, policies (sanitized db)}"
  by (simp add: writeAccessPolicies_def sanitized_def Let_def split: io_fault.split)

lemma sanitize_simps [simp]:
  "PolicyName (sanitizePaths p) = PolicyName p" "Verb (sanitizePaths p) = Verb p"
  "Action (sanitizePaths p) = Action p" "Users (sanitizePaths p) = Users p"
  "valid_policy (sanitizePaths p) = valid_policy p"
  by (simp_all add: sanitizePaths_def valid_policy_def)

lemma sanitize_raw: "raw_paths p \<Longrightarrow> sanitizePaths p = p"
  by (cases p) (simp add: sanitizePaths_def raw_paths_def escape_path_id map_idI)

lemma table_wf_sanitized:
  "table_wf PolicyName valid_policy (policies db) \<Longrightarrow>
   table_wf PolicyName valid_policy (policies (sanitized db))"
  by (simp add: sanitized_def table_wf_map)

lemma writeAccessPolicies_wf:
  "table_wf PolicyName valid_policy (policies db) \<Longrightarrow>
   table_wf PolicyName valid_policy (policies (writeAccessPolicies f db))"
  using writeAccessPolicies_policies [of f db] table_wf_sanitized [of db] by auto

text \<open>While every path is raw, a write leaves the policies alone.\<close>

definition policies_raw :: "handle \<Rightarrow> bool" where
  "policies_raw db \<longleftrightarrow>
     table_wf PolicyName (\<lambda>p. valid_policy p \<and> raw_paths p) (policies db)"

lemma sanitized_raw: "policies_raw db \<Longrightarrow> sanitized db = db"
proof -
  assume raw: "policies_raw db"
  have "(case x of (k, p) \<Rightarrow> (k, sanitizePaths p)) = x" if "x \<in> set (policies db)" for x
    using table_wf_entry(2) [OF raw [unfolded policies_raw_def] that]
    by (simp add: sanitize_raw split_beta)
  then have "map (\<lambda>(k, p). (k, sanitizePaths p)) (policies db) = policies db" by (rule map_idI)
  then show ?thesis by (simp add: sanitized_def)
qed

lemma write_raw [simp]: "policies_raw db \<Longrightarrow> policies (writeAccessPolicies f db) = policies db"
  using writeAccessPolicies_policies [of f db] by (simp add: sanitized_raw)

lemma put_policy_raw:
  "policies_raw db \<Longrightarrow> valid_policy p \<and> raw_paths p \<Longrightarrow>
   policies (put_policy f (PolicyName p) p db) = AList.update (PolicyName p) p (policies db)"
  unfolding put_policy_def
  by (subst write_raw) (simp_all add: policies_raw_def table_wf_update)

lemma remove_policy_raw:
  "policies_raw db \<Longrightarrow> policies (remove_policy f k db) = AList.delete k (policies db)"
  unfolding remove_policy_def
  by (subst write_raw) (simp_all add: policies_raw_def table_wf_delete)

interpretation user_table: keyed_table "\<lambda>db. table_wf Username valid_user (users db)" FindUser
  FetchAllUsers Username valid_user "\<lambda>u. put_user f (Username u) u" "remove_user f" for f
proof (unfold_locales, goal_cases)
  case (1 s k e) then show ?case unfolding FindUser_def by (blast dest: table_wfD)
next
  case (2 s) then show ?case
    unfolding FindUser_def FetchAllUsers_def by (rule table_wf_entries)
next
  case (3 s) then show ?case unfolding FetchAllUsers_def by (rule table_wf_distinct)
qed (simp_all add: FindUser_def put_user_def remove_user_def table_wf_update table_wf_delete
    update_conv' delete_conv')

interpretation policy_table: keyed_table policies_raw "\<lambda>db. map_of (policies db)"
  FetchAllPolicies PolicyName "\<lambda>p. valid_policy p \<and> raw_paths p"
  "\<lambda>p. put_policy f (PolicyName p) p" "remove_policy f" for f
proof (unfold_locales, goal_cases)
  case (1 s k e) then show ?case unfolding policies_raw_def by (blast dest: table_wfD)
next
  case (2 s) then show ?case
    unfolding policies_raw_def FetchAllPolicies_def by (rule table_wf_entries)
next
  case (3 s) then show ?case
    unfolding policies_raw_def FetchAllPolicies_def by (rule table_wf_distinct)
next
  case (4 s e) then show ?case
    using put_policy_raw [of s e f] by (simp add: policies_raw_def table_wf_update)
next
  case (5 s e k) then show ?case by (simp add: put_policy_raw update_conv')
next
  case (6 s n) then show ?case
    using remove_policy_raw [of s f n] by (simp add: policies_raw_def table_wf_delete)
next
  case (7 s n k) then show ?case by (simp add: remove_policy_raw delete_conv')
qed

end
