(* ===== verification/Db_Reload.thy ===== *)
theory Db_Reload
  imports Db_Facts
begin

text \<open>
  The files of the database: where they are, what a write leaves on disk whatever fails, what
  reading a table that was written brings back, and the relation \<open>synced\<close> between a handle
  and its files, which every successful operation keeps.
\<close>

section \<open>The names of the files\<close>

definition fly_prefix :: "string \<Rightarrow> string" where
  "fly_prefix d = below d [''.fly''] @ ''/''"

lemma below_two: "below d [x, y] = below d [x] @ ''/'' @ y"
  using join_on_append [of "clean_segs (rooted d) d @ [x]" "[y]" "''/''"]
  by (auto simp: below_def build_path_def)

lemma Join_fly:
  assumes "plain x"
  shows "Join [d, ''.fly/'' @ x] = fly_prefix d @ x"
proof -
  have x: "split_on SLASH (''.fly/'' @ x) = [''.fly'', x]"
    using assms by (simp add: plain_def split_on_append_sep [of SLASH "''.fly''", simplified])
  have s: "segs (''.fly/'' @ x) = [''.fly'', x]"
    using assms by (simp add: segs_def x plain_def)
  have dots: "\<forall>s \<in> set (split_on SLASH (''.fly/'' @ x)). \<not> dotted s"
    using assms by (auto simp: x plain_def dotted_def)
  show ?thesis
  proof (cases "d = []")
    case True
    have "clean_segs False (''.fly/'' @ x) = [''.fly'', x]"
      using foldl_clean_plain [OF dots, of False "[]"] assms
      by (auto simp: clean_segs_def x plain_def)
    moreover have "clean_segs False [] = []" by (simp add: clean_segs_def clean_step_def)
    ultimately show ?thesis
      by (simp add: True Join_def Clean_def rooted_def fly_prefix_def below_def build_path_def)
  next
    case False
    show ?thesis unfolding Join_below [OF False dots] s below_two fly_prefix_def by simp
  qed
qed

lemma file_names:
  "users_tmp db = fly_prefix (dir db) @ ''users.csv~''"
  "users_path db = fly_prefix (dir db) @ ''users.csv''"
  "acp_tmp db = fly_prefix (dir db) @ ''acp.csv~''"
  "acp_path db = fly_prefix (dir db) @ ''acp.csv''"
  "version_path db = fly_prefix (dir db) @ ''version''"
  using Join_fly [of "''users.csv~''" "dir db"] Join_fly [of "''users.csv''" "dir db"]
    Join_fly [of "''acp.csv~''" "dir db"] Join_fly [of "''acp.csv''" "dir db"]
    Join_fly [of "''version''" "dir db"]
  by (simp_all add: users_tmp_def users_path_def acp_tmp_def acp_path_def version_path_def
      plain_def dotted_def)

lemma TrimRight_tilde: "TrimRight (p @ ''users.csv~'') ''~'' = p @ ''users.csv''"
  "TrimRight (p @ ''acp.csv~'') ''~'' = p @ ''acp.csv''"
  by (simp_all add: TrimRight_def)

section \<open>What a write leaves on disk\<close>

lemma writeUsers_disk:
  assumes "err db = None"
  shows "err (writeUsers f db) = None \<longleftrightarrow> f = No_fault"
    and "disk (writeUsers f db) (users_path db)
      = (if f = No_fault then Some (users_bytes db) else disk db (users_path db))"
    and "q \<noteq> users_path db \<Longrightarrow> q \<noteq> users_tmp db \<Longrightarrow> disk (writeUsers f db) q = disk db q"
  using assms
  by (auto simp: writeUsers_def Let_def rename_file_def file_names TrimRight_tilde
      split: io_fault.split)

lemma acp_bytes_disk [simp]: "acp_bytes (db\<lparr>disk := d\<rparr>) = acp_bytes db"
  by (simp add: acp_bytes_def)

lemma writeAccessPolicies_disk:
  assumes "err db = None"
  shows "err (writeAccessPolicies f db) = None \<longleftrightarrow> f = No_fault"
    and "disk (writeAccessPolicies f db) (acp_path db)
      = (if f = No_fault then Some (acp_bytes (sanitized db)) else disk db (acp_path db))"
    and "q \<noteq> acp_path db \<Longrightarrow> q \<noteq> acp_tmp db \<Longrightarrow> disk (writeAccessPolicies f db) q = disk db q"
    and "f = No_fault \<Longrightarrow> policies (writeAccessPolicies f db) = policies (sanitized db)"
  using assms
  by (auto simp: writeAccessPolicies_def Let_def rename_file_def file_names TrimRight_tilde
      sanitized_def split: io_fault.split)

lemma write_broken [simp]:
  "err db \<noteq> None \<Longrightarrow> writeUsers f db = db" "err db \<noteq> None \<Longrightarrow> writeAccessPolicies f db = db"
  by (simp_all add: writeUsers_def writeAccessPolicies_def)

section \<open>Reading back the users\<close>

text \<open>What the users table can carry: no line feeds, hashes that bcrypt accepts.\<close>

definition user_storable :: "bcrypt \<Rightarrow> user \<Rightarrow> bool" where
  "user_storable bc u \<longleftrightarrow> LF \<notin> set (Password u) \<and> LF \<notin> set (Chroot u)
     \<and> CompareHashAndPassword bc (Password u) ''secret'' \<noteq> Malformed"

lemma ValidateUsername_LF: "ValidateUsername n \<Longrightarrow> LF \<notin> set n"
  by (auto simp: ValidateUsername_def username_char_def username_head_def is_digit_def list_all_iff
      split: list.splits)

lemma update_fresh: "k \<notin> fst ` set m \<Longrightarrow> AList.update k v m = m @ [(k, v)]"
  by (induction m) auto

lemma csv_file_Cons [simp]: "csv_file (r # rs) = csv_line r @ csv_file rs"
  by (simp add: csv_file_def)

lemma csv_file_Nil [simp]: "csv_file [] = []"
  by (simp add: csv_file_def)

lemma user_of_record [simp]:
  "\<lparr>Username = Username u, Password = Password u, Chroot = Chroot u,
    Admin = bool_field (Admin u) = ''1''\<rparr> = u"
  by (cases u) (simp add: bool_field_def)

lemma read_user_rows_step:
  assumes "valid_user u" and "CompareHashAndPassword bc (Password u) ''secret'' \<noteq> Malformed"
  shows "read_user_rows bc (csv_line (user_record u) @ s) db
    = read_user_rows bc s (db\<lparr>users := AList.update (Username u) u (users db)\<rparr>)"
proof -
  have "csv_read 4 (csv_line (user_record u) @ s) = Csv_Record (user_record u) s"
    by (rule csv_read_line) (simp_all add: user_record_def)
  then show ?thesis
    using assms
    by (cases u; cases "Admin u"; subst read_user_rows.simps)
      (simp_all add: Let_def user_record_def bool_field_def)
qed

lemma read_user_rows_file:
  assumes "\<forall>u \<in> set us. valid_user u \<and> user_storable bc u"
    and "distinct (map fst (users db) @ map Username us)"
  shows "read_user_rows bc (csv_file (map user_record us)) db
    = db\<lparr>users := users db @ map (\<lambda>u. (Username u, u)) us\<rparr>"
  using assms
proof (induction us arbitrary: db)
  case Nil
  then show ?case by (subst read_user_rows.simps) (simp add: csv_read_Nil)
next
  case (Cons u us)
  then have "AList.update (Username u) u (users db) = users db @ [(Username u, u)]"
    by (intro update_fresh) auto
  with Cons show ?case by (simp add: read_user_rows_step user_storable_def)
qed

lemma table_wf_entries_map:
  assumes "table_wf key ok m"
  shows "map (\<lambda>e. (key e, e)) (range m) = m"
  using table_wf_entry(1) [OF assms] by (simp add: map_idI prod_eq_iff)

lemma users_header_LF: "\<forall>f \<in> set users_header. LF \<notin> set f"
  by (simp add: users_header_def)

lemma acp_header_LF: "\<forall>f \<in> set acp_header. LF \<notin> set f"
  by (simp add: acp_header_def)

lemma readUsers_bytes:
  assumes wf: "table_wf Username valid_user us" and st: "\<forall>u \<in> set (range us). user_storable bc u"
    and "err db = None" and "users db = []" and "bad (users_path db) = None"
    and "disk db (users_path db) = Some (csv_file (users_header # map user_record (range us)))"
  shows "readUsers bc bad db = db\<lparr>users := us\<rparr>"
proof -
  have valid: "valid_user u" if "u \<in> set (range us)" for u
    using that table_wf_entry(2) [OF wf] by auto
  have norm: "csv_normalize (csv_file (users_header # map user_record (range us)))
      = csv_file (users_header # map user_record (range us))"
  proof (rule csv_normalize_file)
    show "\<forall>fs \<in> set (users_header # map user_record (range us)). \<forall>f \<in> set fs. LF \<notin> set f"
      using users_header_LF st valid
      by (auto simp: user_record_def user_storable_def bool_field_def ValidateUsername_LF)
  qed
  have hd4: "csv_read 4 (csv_line users_header @ s) = Csv_Record users_header s" for s
    by (rule csv_read_line) (simp_all add: users_header_def)
  have "read_user_rows bc (csv_file (map user_record (range us))) db
      = db\<lparr>users := users db @ map (\<lambda>u. (Username u, u)) (range us)\<rparr>"
    by (rule read_user_rows_file) (use assms valid table_wf_distinct [OF wf] in auto)
  with assms norm hd4 show ?thesis
    by (simp add: readUsers_def opened_def table_wf_entries_map [OF wf, simplified])
qed

section \<open>Reading back the policies\<close>

text \<open>
  What a row of the policy table is read back as: the user list split at its colons, the paths
  split at their colons and unescaped. The table can carry a policy if no text in it has a line
  feed and its paths can be unescaped.
\<close>

definition reread :: "policy \<Rightarrow> policy" where
  "reread p = p\<lparr>Users := Some (parsePolicyUsers (policy_record p ! 3)),
     Paths := projr (parsePolicyPaths (policy_record p ! 4) 1)\<rparr>"

definition policy_storable :: "policy \<Rightarrow> bool" where
  "policy_storable p \<longleftrightarrow> LF \<notin> set (PolicyName p) \<and> (\<forall>u \<in> set (user_list p). LF \<notin> set u)
     \<and> (\<forall>q \<in> set (Paths p). LF \<notin> set q) \<and> \<not> isl (parsePolicyPaths (policy_record p ! 4) 1)"

text \<open>Lists that a row keeps apart.\<close>

definition listable :: "policy \<Rightarrow> bool" where
  "listable p \<longleftrightarrow> (\<exists>us. Users p = Some us \<and> us \<noteq> [] \<and> (\<forall>u \<in> set us. CHR '':'' \<notin> set u)) \<and> Paths p \<noteq> []"

lemma reread_sanitize: "listable p \<Longrightarrow> reread (sanitizePaths p) = p\<lparr>Paths := map plus_to_space (Paths p)\<rparr>"
  by (auto simp: listable_def reread_def policy_record_def sanitizePaths_def parsePolicyUsers_join
      parsePolicyPaths_escape)

lemma reread_raw:
  "listable p \<Longrightarrow> raw_paths p \<Longrightarrow> \<forall>q \<in> set (Paths p). CHR ''+'' \<notin> set q \<Longrightarrow> reread p = p"
  using reread_sanitize [of p] by (cases p) (simp add: sanitize_raw map_idI)

lemma parsePolicyPaths_Inr: "parsePolicyPaths s n = Inr qs \<Longrightarrow> parsePolicyPaths s m = Inr qs"
  by (simp add: parsePolicyPaths_def split: sum.splits)

lemma policy_record_read:
  assumes "valid_policy p" and "policy_storable p"
  shows "policy_record p ! 0 = PolicyName p" and "policy_record p ! 1 = Verb p"
    and "policy_record p ! 2 = [Action p]" and "Verb p = ''ALLOW'' \<or> Verb p = ''DENY''"
    and "[Action p] = ''R'' \<or> [Action p] = ''W''"
    and "Some (parsePolicyUsers (policy_record p ! 3)) = Users (reread p)"
    and "parsePolicyPaths (policy_record p ! 4) n = Inr (Paths (reread p))"
    and "\<forall>f \<in> set (policy_record p). LF \<notin> set f" and "length (policy_record p) = 5"
proof -
  show v: "Verb p = ''ALLOW'' \<or> Verb p = ''DENY''"
    using assms(1) by (simp add: valid_policy_def Allow_def Deny_def)
  show a: "[Action p] = ''R'' \<or> [Action p] = ''W''"
    using assms(1) by (simp add: valid_policy_def Action_Read_def Action_Write_def)
  show act: "policy_record p ! 2 = [Action p]"
    using a by (auto simp: policy_record_def go_defs show_rune_byte_def)
  obtain qs where "parsePolicyPaths (policy_record p ! 4) 1 = Inr qs"
    using assms(2) by (cases "parsePolicyPaths (policy_record p ! 4) 1") (auto simp: policy_storable_def)
  from this parsePolicyPaths_Inr [OF this, of n]
  show "parsePolicyPaths (policy_record p ! 4) n = Inr (Paths (reread p))"
    by (simp add: reread_def)
  have "LF \<notin> set (case Users p of None \<Rightarrow> ''*'' | Some us \<Rightarrow> join_on '':'' us)"
  proof (cases "Users p")
    case (Some us)
    then show ?thesis
      using assms(2) set_join_on [of "'':''" us] by (auto simp: policy_storable_def user_list_def)
  qed simp
  moreover have "LF \<notin> set (join_on '':'' (Paths p))"
    using assms(2) set_join_on [of "'':''" "Paths p"] by (auto simp: policy_storable_def)
  moreover have "LF \<notin> set (show_rune_byte (Action p))"
    using act a by (auto simp: policy_record_def)
  ultimately show "\<forall>f \<in> set (policy_record p). LF \<notin> set f"
    using v assms(2) by (auto simp: policy_record_def policy_storable_def)
qed (simp_all add: policy_record_def reread_def)

lemma read_acp_rows_step:
  assumes "valid_policy p" and "policy_storable p"
  shows "read_acp_rows n (csv_line (policy_record p) @ s) db
    = read_acp_rows (n + 1) s
        (db\<lparr>policies := AList.update (PolicyName p) (reread p) (policies db)\<rparr>)"
proof -
  note r = policy_record_read [OF assms]
  have "csv_read 5 (csv_line (policy_record p) @ s) = Csv_Record (policy_record p) s"
    by (rule csv_read_line) (simp_all add: r(9))
  moreover have "\<lparr>Verb = Verb p, Action = Action p, PolicyName = PolicyName p,
      Users = Some (parsePolicyUsers (policy_record p ! 3)), Paths = Paths (reread p)\<rparr>
    = reread p"
    unfolding r(6) by (cases p) (simp add: reread_def)
  moreover have "TrimSpace (PolicyName p) \<noteq> []" using assms(1) by (simp add: valid_policy_def)
  ultimately show ?thesis
    using r(1-5,7) by (subst read_acp_rows.simps) auto
qed

lemma reread_name [simp]: "PolicyName (reread p) = PolicyName p"
  by (simp add: reread_def)

lemma read_acp_rows_file:
  assumes "\<forall>p \<in> set ps. valid_policy p \<and> policy_storable p"
    and "distinct (map fst (policies db) @ map PolicyName ps)"
  shows "read_acp_rows n (csv_file (map policy_record ps)) db
    = db\<lparr>policies := policies db @ map (\<lambda>p. (PolicyName p, reread p)) ps\<rparr>"
  using assms
proof (induction ps arbitrary: db n)
  case Nil
  then show ?case by (subst read_acp_rows.simps) (simp add: csv_read_Nil)
next
  case (Cons p ps)
  then have "AList.update (PolicyName p) (reread p) (policies db)
      = policies db @ [(PolicyName p, reread p)]"
    by (intro update_fresh) auto
  with Cons show ?case by (simp add: read_acp_rows_step)
qed

lemma readAccessPolicies_bytes:
  assumes wf: "table_wf PolicyName valid_policy ps"
    and st: "\<forall>p \<in> set (range ps). policy_storable p"
    and "err db = None" and "policies db = []" and "bad (acp_path db) = None"
    and "disk db (acp_path db) = Some (csv_file (acp_header # map policy_record (range ps)))"
  shows "readAccessPolicies bad db = db\<lparr>policies := map (\<lambda>(k, p). (k, reread p)) ps\<rparr>"
proof -
  have valid: "valid_policy p" if "p \<in> set (range ps)" for p
    using that table_wf_entry(2) [OF wf] by auto
  have norm: "csv_normalize (csv_file (acp_header # map policy_record (range ps)))
      = csv_file (acp_header # map policy_record (range ps))"
  proof (rule csv_normalize_file)
    show "\<forall>fs \<in> set (acp_header # map policy_record (range ps)). \<forall>f \<in> set fs. LF \<notin> set f"
    proof
      fix fs assume "fs \<in> set (acp_header # map policy_record (range ps))"
      then consider "fs = acp_header" | p where "p \<in> set (range ps)" "fs = policy_record p" by auto
      then show "\<forall>f \<in> set fs. LF \<notin> set f"
        using acp_header_LF policy_record_read(8) [OF valid] st by cases auto
    qed
  qed
  have hd5: "csv_read 5 (csv_line acp_header @ s) = Csv_Record acp_header s" for s
    by (rule csv_read_line) (simp_all add: acp_header_def)
  have "read_acp_rows 1 (csv_file (map policy_record (range ps))) db
      = db\<lparr>policies := policies db @ map (\<lambda>p. (PolicyName p, reread p)) (range ps)\<rparr>"
    by (rule read_acp_rows_file) (use assms valid table_wf_distinct [OF wf] in auto)
  moreover have "map (\<lambda>p. (PolicyName p, reread p)) (range ps) = map (\<lambda>(k, p). (k, reread p)) ps"
    using table_wf_entry(1) [OF wf] by (auto simp: split_beta)
  ultimately have "read_acp_rows 1 (csv_file (map policy_record (range ps))) db
      = db\<lparr>policies := map (\<lambda>(k, p). (k, reread p)) ps\<rparr>"
    using assms(4) by simp
  with assms(3,5,6) norm hd5 show ?thesis
    unfolding readAccessPolicies_def opened_def by simp
qed

section \<open>A handle and its files\<close>

definition synced :: "handle \<Rightarrow> bool" where
  "synced db \<longleftrightarrow>
     disk db (version_path db) = Some (''1'' @ [LF])
     \<and> disk db (users_path db) = Some (users_bytes db)
     \<and> disk db (acp_path db) = Some (acp_bytes db)"

lemma path_update [simp]:
  "users_path (db\<lparr>users := u\<rparr>) = users_path db" "acp_path (db\<lparr>users := u\<rparr>) = acp_path db"
  "version_path (db\<lparr>users := u\<rparr>) = version_path db" "users_tmp (db\<lparr>users := u\<rparr>) = users_tmp db"
  "users_path (db\<lparr>policies := p\<rparr>) = users_path db" "acp_path (db\<lparr>policies := p\<rparr>) = acp_path db"
  "version_path (db\<lparr>policies := p\<rparr>) = version_path db" "acp_tmp (db\<lparr>policies := p\<rparr>) = acp_tmp db"
  by (simp_all add: users_path_def acp_path_def version_path_def users_tmp_def acp_tmp_def)

lemma synced_put_user:
  assumes "synced db" and "err db = None"
  shows "synced (writeUsers No_fault (db\<lparr>users := us\<rparr>))"
  using assms by (simp add: synced_def writeUsers_def Let_def rename_file_def file_names
      TrimRight_tilde users_bytes_def acp_bytes_def)

lemma synced_put_policy:
  assumes "synced db" and "err db = None"
  shows "synced (writeAccessPolicies No_fault (db\<lparr>policies := ps\<rparr>))"
  using assms by (simp add: synced_def writeAccessPolicies_def Let_def rename_file_def file_names
      TrimRight_tilde users_bytes_def acp_bytes_def sanitized_def comp_assoc)

end
