(* ===== verification/Db_Props.thy ===== *)
theory Db_Props
  imports Db_Reload
begin

text \<open>
  The properties of the database, \<^verbatim>\<open>src/internal/db\<close>: what opening it
  establishes, what its operations keep and do, what they leave on disk under every failure,
  and what a restart brings back.
\<close>

section \<open>A database to try things on\<close>

definition bob :: user where
  "bob = \<lparr>Username = ''bob'', Password = ''hash'', Chroot = ''/home/bob'', Admin = False\<rparr>"

definition bob_reads :: policy where
  "bob_reads = \<lparr>Verb = ''ALLOW'', Action = CHR ''R'', PolicyName = ''bob-reads'',
     Users = Some [''bob''], Paths = [''/home/bob'', ''/pub'']\<rparr>"

definition any_hash :: bcrypt where
  "any_hash = \<lparr>CompareHashAndPassword = \<lambda>h p. if h = ''hash'' then Match
       else ErrMismatchedHashAndPassword, GenerateFromPassword = \<lambda>seed p. Inr ''hash''\<rparr>"

definition sample_db :: handle where
  "sample_db =
     (let db = \<lparr>dir = ''/srv'', err = None, users = [(''bob'', bob)],
                policies = [(''bob-reads'', bob_reads)], disk = Map.empty\<rparr>
      in db\<lparr>disk := [version_path db \<mapsto> ''1'' @ [LF], users_path db \<mapsto> users_bytes db,
                     acp_path db \<mapsto> acp_bytes db]\<rparr>)"

lemma sample_db_simps [simp]:
  "err sample_db = None" "users sample_db = [(''bob'', bob)]" "dir sample_db = ''/srv''"
  "policies sample_db = [(''bob-reads'', bob_reads)]"
  by (simp_all add: sample_db_def Let_def)

lemma bob_simps [simp]:
  "Username bob = ''bob''" "ValidateUsername ''bob''" "user_storable any_hash bob"
  by (simp_all add: bob_def go_defs user_storable_def any_hash_def)

lemma bob_reads_simps [simp]:
  "PolicyName bob_reads = ''bob-reads''" "valid_policy bob_reads" "raw_paths bob_reads"
  "Users bob_reads = Some [''bob'']" "Paths bob_reads = [''/home/bob'', ''/pub'']"
  by (simp_all add: bob_reads_def valid_policy_def raw_paths_def go_defs TrimSpace_def
      drop_words.simps space_runes_def)

lemma bob_reads_storable [simp]: "policy_storable bob_reads"
  by (simp add: policy_storable_def policy_record_def parsePolicyPaths_def split_join user_list_def)

lemma sample_db_wf [simp]: "db_wf sample_db" "policies_raw sample_db"
  by (simp_all add: db_wf_def table_wf_def policies_raw_def)

lemma sample_db_synced [simp]: "synced sample_db"
  by (simp add: synced_def sample_db_def Let_def file_names users_bytes_def acp_bytes_def)

section \<open>Opening\<close>

lemma read_user_rows_step_ok:
  assumes "csv_read 4 s = Csv_Record row rest" and "err (read_user_rows bc s db) = None"
  defines "u \<equiv> \<lparr>Username = row ! 0, Password = row ! 1, Chroot = row ! 2, Admin = row ! 3 = ''1''\<rparr>"
  shows "valid_user u \<and> read_user_rows bc s db
      = read_user_rows bc rest (db\<lparr>users := AList.update (Username u) u (users db)\<rparr>)
    \<and> (row ! 3 = ''0'' \<or> row ! 3 = ''1'')
    \<and> CompareHashAndPassword bc (Password u) ''secret'' \<noteq> Malformed"
  using assms(2) unfolding u_def
  by (subst (asm) read_user_rows.simps, subst (1) read_user_rows.simps)
    (simp add: assms(1) Let_def split: if_splits)

lemma read_user_rows_ok:
  assumes "err (read_user_rows bc s db) = None" and "table_wf Username valid_user (users db)"
  shows "table_wf Username valid_user (users (read_user_rows bc s db))
    \<and> policies (read_user_rows bc s db) = policies db \<and> dir (read_user_rows bc s db) = dir db"
  using assms
proof (induction "length s" arbitrary: s db rule: less_induct)
  case less
  show ?case
  proof (cases "csv_read 4 s")
    case Csv_EOF
    then show ?thesis using less.prems by (subst (1 2 3) read_user_rows.simps) simp
  next
    case (Csv_Error e)
    then have "err (read_user_rows bc s db) \<noteq> None" by (subst read_user_rows.simps) simp
    with less.prems show ?thesis by simp
  next
    case (Csv_Record row rest)
    define u where "u = \<lparr>Username = row ! 0, Password = row ! 1, Chroot = row ! 2, Admin = row ! 3 = ''1''\<rparr>"
    from read_user_rows_step_ok [OF Csv_Record less.prems(1), folded u_def]
    have u: "valid_user u" and eq: "read_user_rows bc s db
        = read_user_rows bc rest (db\<lparr>users := AList.update (Username u) u (users db)\<rparr>)"
      by blast+
    from less.hyps [OF csv_read_shorter [OF Csv_Record],
        of "db\<lparr>users := AList.update (Username u) u (users db)\<rparr>"] less.prems u
    show ?thesis unfolding eq by (simp add: table_wf_update)
  qed
qed

lemma read_acp_rows_step_ok:
  assumes "csv_read 5 s = Csv_Record row rest" and "err (read_acp_rows n s db) = None"
  shows "\<exists>p. valid_policy p \<and> read_acp_rows n s db
      = read_acp_rows (n + 1) rest (db\<lparr>policies := AList.update (PolicyName p) p (policies db)\<rparr>)"
proof -
  have ok: "TrimSpace (row ! 0) \<noteq> []" "row ! 1 = ''ALLOW'' \<or> row ! 1 = ''DENY''"
    "row ! 2 = ''R'' \<or> row ! 2 = ''W''" "\<not> isl (parsePolicyPaths (row ! 4) n)"
    using assms(2) by (subst (asm) read_acp_rows.simps, simp add: assms(1) split: if_splits sum.splits)+
  then obtain qs where qs: "parsePolicyPaths (row ! 4) n = Inr qs"
    by (cases "parsePolicyPaths (row ! 4) n") auto
  define p where "p = \<lparr>Verb = row ! 1, Action = hd (row ! 2), PolicyName = row ! 0,
                       Users = Some (parsePolicyUsers (row ! 3)), Paths = qs\<rparr>"
  have "valid_policy p"
    using ok by (auto simp: p_def valid_policy_def go_defs)
  moreover have "read_acp_rows n s db
      = read_acp_rows (n + 1) rest (db\<lparr>policies := AList.update (PolicyName p) p (policies db)\<rparr>)"
    using ok qs by (subst read_acp_rows.simps) (auto simp: assms(1) p_def)
  ultimately show ?thesis by blast
qed

lemma read_acp_rows_ok:
  assumes "err (read_acp_rows n s db) = None" and "table_wf PolicyName valid_policy (policies db)"
  shows "table_wf PolicyName valid_policy (policies (read_acp_rows n s db))
    \<and> users (read_acp_rows n s db) = users db \<and> dir (read_acp_rows n s db) = dir db"
  using assms
proof (induction "length s" arbitrary: n s db rule: less_induct)
  case less
  show ?case
  proof (cases "csv_read 5 s")
    case Csv_EOF
    then show ?thesis using less.prems by (subst (1 2 3) read_acp_rows.simps) simp
  next
    case (Csv_Error e)
    then have "err (read_acp_rows n s db) \<noteq> None" by (subst read_acp_rows.simps) simp
    with less.prems show ?thesis by simp
  next
    case (Csv_Record row rest)
    from read_acp_rows_step_ok [OF Csv_Record less.prems(1)] obtain p where p: "valid_policy p"
      and eq: "read_acp_rows n s db = read_acp_rows (n + 1) rest
          (db\<lparr>policies := AList.update (PolicyName p) p (policies db)\<rparr>)" by blast
    from less.hyps [OF csv_read_shorter [OF Csv_Record],
        of "n + 1" "db\<lparr>policies := AList.update (PolicyName p) p (policies db)\<rparr>"] less.prems p
    show ?thesis unfolding eq by (simp add: table_wf_update)
  qed
qed

lemma readUsers_ok:
  assumes "err (readUsers bc bad db) = None" and "table_wf Username valid_user (users db)"
  shows "table_wf Username valid_user (users (readUsers bc bad db))
    \<and> policies (readUsers bc bad db) = policies db \<and> dir (readUsers bc bad db) = dir db"
  using assms read_user_rows_ok [of bc _ db]
  by (simp add: readUsers_def split: if_splits sum.splits csv_result.splits)

lemma readAccessPolicies_ok:
  assumes "err (readAccessPolicies bad db) = None" and "table_wf PolicyName valid_policy (policies db)"
  shows "table_wf PolicyName valid_policy (policies (readAccessPolicies bad db))
    \<and> users (readAccessPolicies bad db) = users db \<and> dir (readAccessPolicies bad db) = dir db
    \<and> err db = None"
  using assms read_acp_rows_ok [of 1 _ db]
  by (simp add: readAccessPolicies_def split: if_splits sum.splits csv_result.splits)

lemma new_handle_simps [simp]:
  "err (new_handle d files) = None" "users (new_handle d files) = []"
  "policies (new_handle d files) = []" "dir (new_handle d files) = d"
  "disk (new_handle d files) = files"
  by (simp_all add: new_handle_def)

lemma finish_open_Inr:
  "finish_open env db0 = Inr db \<Longrightarrow> db = db0 \<and> err db0 = None"
  by (auto simp: finish_open_def tls_outcome_def Let_def split: if_splits option.splits)

lemma writeVersionFile_simps [simp]:
  "users (writeVersionFile f db) = users db" "policies (writeVersionFile f db) = policies db"
  "dir (writeVersionFile f db) = dir db"
  by (simp_all add: writeVersionFile_def split: io_fault.split)

lemma sanitized_Nil: "policies db = [] \<Longrightarrow> policies (sanitized db) = []"
  by (simp add: sanitized_def)

lemma Open_cases:
  assumes "Open bc env d files = Inr db"
  obtains (old) "db = readAccessPolicies (unreadable env) (readUsers bc (unreadable env) (new_handle d files))"
    and "err (readAccessPolicies (unreadable env) (readUsers bc (unreadable env) (new_handle d files))) = None"
  | (new) "db = writeAccessPolicies (acp_fault env) (writeUsers (users_fault env)
        (writeVersionFile (version_fault env) (new_handle d files)))" and "err db = None"
  using assms
  by (auto simp: Open_def Let_def split: sum.splits bool.splits option.splits open_error.splits
      dest!: finish_open_Inr)

lemma open_makes_wf:
  assumes "Open bc env d files = Inr db"
  shows "db_wf db \<and> err db = None \<and> dir db = d"
  using assms
proof (cases rule: Open_cases)
  case old
  let ?u = "readUsers bc (unreadable env) (new_handle d files)"
  have e: "err ?u = None" using old(2) by (auto simp: readAccessPolicies_def split: if_splits)
  from readUsers_ok [OF e] have u: "table_wf Username valid_user (users ?u)" "policies ?u = []"
    "dir ?u = d" by simp_all
  from readAccessPolicies_ok [OF old(2)] u old show ?thesis by (simp add: db_wf_def)
next
  case new
  then have "policies db = []"
    using writeAccessPolicies_policies [of "acp_fault env" "writeUsers (users_fault env)
        (writeVersionFile (version_fault env) (new_handle d files))"] by (auto simp: sanitized_Nil)
  with new show ?thesis by (simp add: db_wf_def)
qed

text \<open>
  Whatever the files hold, a database that opens is well formed: every user under its own
  valid name, every policy under its own nonblank name with a known verb and action, no
  name twice, and no error pending.
\<close>

theorem open_wf:
  assumes "Open bc env d files = Inr db"
  shows "db_wf db \<and> err db = None \<and> dir db = d"
  using assms by (rule open_makes_wf)

definition good_env :: open_env where
  "good_env = \<lparr>unreadable = Map.empty, mkdir_error = None, version_fault = No_fault, users_fault = No_fault,
     acp_fault = No_fault, tls_error = None\<rparr>"

lemma good_env_simps [simp]:
  "unreadable good_env = Map.empty" "mkdir_error good_env = None" "version_fault good_env = No_fault" "users_fault good_env = No_fault"
  "acp_fault good_env = No_fault" "tls_error good_env = None"
  by (simp_all add: good_env_def)

lemma writeVersionFile_ok [simp]:
  "err db = None \<Longrightarrow> err (writeVersionFile No_fault db) = None"
  by (simp add: writeVersionFile_def)

lemma write_ok [simp]:
  "err db = None \<Longrightarrow> err (writeUsers No_fault db) = None"
  "err db = None \<Longrightarrow> err (writeAccessPolicies No_fault db) = None"
  by (simp_all add: writeUsers_disk writeAccessPolicies_disk)

definition fresh_db :: "string \<Rightarrow> handle" where
  "fresh_db d = writeAccessPolicies No_fault (writeUsers No_fault
     (writeVersionFile No_fault (new_handle d Map.empty)))"

lemma Open_fresh: "Open bc good_env d Map.empty = Inr (fresh_db d)"
  by (simp add: Open_def readVersionFile_def opened_def Let_def finish_open_def tls_outcome_def
      fresh_db_def)

theorem open_wf_witness:
  "db_wf (fresh_db ''/srv'') \<and> err (fresh_db ''/srv'') = None \<and> dir (fresh_db ''/srv'') = ''/srv''"
  by (rule open_wf [OF Open_fresh [of any_hash]])

section \<open>What the operations keep and do\<close>

lemma ops_keep_wf:
  assumes "db_wf db" and "valid_user u" and "\<And>x. Username (g x) = Username x" and "valid_policy p"
  shows "db_wf (snd (AddUser f u db)) \<and> db_wf (snd (UpdateUser f n g db))
    \<and> db_wf (snd (DeleteUser f n db)) \<and> db_wf (snd (PutAccessPolicy f p db))
    \<and> db_wf (snd (DeleteAccessPolicy f n db))"
proof (intro conjI)
  have uw: "table_wf Username valid_user (users db)"
    and pw: "table_wf PolicyName valid_policy (policies db)" using assms(1) by (auto simp: db_wf_def)
  have put: "db_wf (put_user f k x db)" if "valid_user x" "Username x = k" for k x
    using uw pw that by (auto simp: db_wf_def put_user_def table_wf_update)
  show "db_wf (snd (AddUser f u db))"
    using assms put by (simp add: AddUser_def db_result_def split: option.split)
  show "db_wf (snd (UpdateUser f n g db))"
  proof (cases "FindUser db n")
    case (Some x)
    with user_table.find_key [OF uw] have "Username x = n" "valid_user x" by blast+
    with Some assms(3) put [of "g x" n] show ?thesis by (simp add: UpdateUser_def db_result_def)
  qed (use assms in \<open>simp add: UpdateUser_def\<close>)
  show "db_wf (snd (DeleteUser f n db))"
    using uw pw by (simp add: DeleteUser_def db_result_def remove_user_def db_wf_def table_wf_delete
        split: option.split)
  show "db_wf (snd (PutAccessPolicy f p db))"
    using uw pw assms(4) writeAccessPolicies_wf [of "db\<lparr>policies := AList.update (PolicyName p) p (policies db)\<rparr>" f]
    by (simp add: PutAccessPolicy_def db_result_def put_policy_def db_wf_def table_wf_update)
  show "db_wf (snd (DeleteAccessPolicy f n db))"
    using uw pw writeAccessPolicies_wf [of "db\<lparr>policies := AList.delete n (policies db)\<rparr>" f]
    by (simp add: DeleteAccessPolicy_def db_result_def remove_policy_def db_wf_def table_wf_delete)
qed

text \<open>
  Every operation keeps the database well formed, whatever fails on disk and whether or
  not it succeeds: adding a user with a valid name, updating one without renaming it,
  deleting one, putting a valid policy, deleting one.
\<close>

theorem operations_keep_wf:
  assumes "db_wf db" and "valid_user u" and "\<And>x. Username (g x) = Username x" and "valid_policy p"
  shows "db_wf (snd (AddUser f u db)) \<and> db_wf (snd (UpdateUser f n g db))
    \<and> db_wf (snd (DeleteUser f n db)) \<and> db_wf (snd (PutAccessPolicy f p db))
    \<and> db_wf (snd (DeleteAccessPolicy f n db))"
  using assms by (rule ops_keep_wf)

theorem operations_keep_wf_witness:
  "db_wf (snd (AddUser (Rename_fails ''EIO'') (bob\<lparr>Username := ''amy''\<rparr>) sample_db))"
  by (rule conjunct1 [OF operations_keep_wf [where g = "\<lambda>x. x" and p = bob_reads]])
    (simp_all add: go_defs)

text \<open>
  C27. Seen through \<open>FindUser\<close>, the user operations are those of a finite map, also
  when the write to disk fails: adding a free name defines it and a taken name is refused
  unchanged, updating maps the entry, deleting undefines it; listing and counting agree.
\<close>

theorem users_refine_map:
  assumes "db_wf db" and "valid_user u" and "\<And>x. Username (g x) = Username x"
  shows "FindUser (snd (AddUser f u db))
      = (case FindUser db (Username u) of None \<Rightarrow> (FindUser db)(Username u \<mapsto> u)
          | Some _ \<Rightarrow> FindUser db)
    \<and> (fst (AddUser f u db) = Some Exists \<longleftrightarrow> FindUser db (Username u) \<noteq> None)
    \<and> FindUser (snd (UpdateUser f n g db)) = (FindUser db)(n := map_option g (FindUser db n))
    \<and> FindUser (snd (DeleteUser f n db)) = (FindUser db)(n := None)
    \<and> set (FetchAllUsers db) = ran (FindUser db) \<and> NumUsers db = card (dom (FindUser db))"
proof (intro conjI)
  have uw: "table_wf Username valid_user (users db)" using assms(1) by (simp add: db_wf_def)
  show "FindUser (snd (AddUser f u db))
      = (case FindUser db (Username u) of None \<Rightarrow> (FindUser db)(Username u \<mapsto> u)
          | Some _ \<Rightarrow> FindUser db)"
    using user_table.find_put [OF uw assms(2), of f]
    by (auto simp: AddUser_def db_result_def fun_eq_iff split: option.split)
  show "fst (AddUser f u db) = Some Exists \<longleftrightarrow> FindUser db (Username u) \<noteq> None"
    by (simp add: AddUser_def db_result_def split: option.split)
  show "FindUser (snd (UpdateUser f n g db)) = (FindUser db)(n := map_option g (FindUser db n))"
  proof (cases "FindUser db n")
    case (Some x)
    with user_table.find_key [OF uw] have x: "Username x = n" "valid_user x" by blast+
    with user_table.find_put [OF uw, of "g x" f] assms(3) [of x] Some show ?thesis
      by (auto simp: UpdateUser_def db_result_def fun_eq_iff)
  qed (simp add: UpdateUser_def fun_eq_iff)
  show "FindUser (snd (DeleteUser f n db)) = (FindUser db)(n := None)"
    using user_table.find_take_out [OF uw, of f n]
    by (auto simp: DeleteUser_def db_result_def fun_eq_iff split: option.split)
  show "set (FetchAllUsers db) = ran (FindUser db)"
    using user_table.find_key [OF uw] unfolding user_table.all_find [OF uw] by (auto simp: ran_def)
  show "NumUsers db = card (dom (FindUser db))"
  proof -
    have "dom (FindUser db) = set (map fst (users db))"
      by (simp add: FindUser_def [abs_def] dom_map_of_conv_image_fst)
    moreover have "distinct (map fst (users db))" using uw by (simp add: table_wf_def)
    ultimately show ?thesis by (simp add: NumUsers_def distinct_card del: set_map)
  qed
qed

theorem users_refine_map_witness:
  "FindUser (snd (DeleteUser No_fault ''bob'' sample_db)) = (FindUser sample_db)(''bob'' := None)"
  using users_refine_map [of sample_db bob "\<lambda>x. x" No_fault "''bob''"] by simp



section \<open>What is on disk\<close>

text \<open>
  C29. Writing a table is atomic: whatever fails, and wherever, the table's file holds either
  what it held before or the complete new table, the new one exactly when no error is left
  in the handle, and no file other than the table and its temporary file changes.
\<close>

theorem writes_are_atomic:
  assumes "err db = None"
  shows "disk (writeUsers f db) (users_path db)
      = (if err (writeUsers f db) = None then Some (users_bytes db) else disk db (users_path db))
    \<and> disk (writeAccessPolicies f db) (acp_path db)
      = (if err (writeAccessPolicies f db) = None then Some (acp_bytes (sanitized db))
         else disk db (acp_path db))
    \<and> {q. disk (writeUsers f db) q \<noteq> disk db q} \<subseteq> {users_path db, users_tmp db}
    \<and> {q. disk (writeAccessPolicies f db) q \<noteq> disk db q} \<subseteq> {acp_path db, acp_tmp db}"
proof (intro conjI)
  show "{q. disk (writeUsers f db) q \<noteq> disk db q} \<subseteq> {users_path db, users_tmp db}"
    using writeUsers_disk(3) [OF assms, of _ f] by auto
  show "{q. disk (writeAccessPolicies f db) q \<noteq> disk db q} \<subseteq> {acp_path db, acp_tmp db}"
    using writeAccessPolicies_disk(3) [OF assms, of _ f] by auto
qed (simp_all add: assms writeUsers_disk writeAccessPolicies_disk)

theorem writes_are_atomic_witness:
  "disk (writeUsers (Records_fail ''username,pass'' ''ENOSPC'') sample_db) (users_path sample_db)
     = Some (users_bytes sample_db)"
  using writes_are_atomic [OF sample_db_simps(1), of "Records_fail ''username,pass'' ''ENOSPC''"]
    sample_db_synced by (simp add: writeUsers_disk synced_def)

lemma ops_synced:
  assumes "synced db" and "err db = None"
  shows "(fst (AddUser f u db) = None \<longrightarrow>
      synced (snd (AddUser f u db)) \<and> err (snd (AddUser f u db)) = None)
    \<and> (fst (UpdateUser f n g db) = None \<longrightarrow>
      synced (snd (UpdateUser f n g db)) \<and> err (snd (UpdateUser f n g db)) = None)
    \<and> (fst (DeleteUser f n db) = None \<longrightarrow>
      synced (snd (DeleteUser f n db)) \<and> err (snd (DeleteUser f n db)) = None)
    \<and> (fst (PutAccessPolicy f p db) = None \<longrightarrow>
      synced (snd (PutAccessPolicy f p db)) \<and> err (snd (PutAccessPolicy f p db)) = None)
    \<and> (fst (DeleteAccessPolicy f n db) = None \<longrightarrow>
      synced (snd (DeleteAccessPolicy f n db)) \<and> err (snd (DeleteAccessPolicy f n db)) = None)"
proof -
  have u: "synced (writeUsers f (db\<lparr>users := us\<rparr>))"
    if "err (writeUsers f (db\<lparr>users := us\<rparr>)) = None" for us
    using that writeUsers_disk(1) [of "db\<lparr>users := us\<rparr>" f] synced_put_user assms by simp
  have p: "synced (writeAccessPolicies f (db\<lparr>policies := ps\<rparr>))"
    if "err (writeAccessPolicies f (db\<lparr>policies := ps\<rparr>)) = None" for ps
    using that writeAccessPolicies_disk(1) [of "db\<lparr>policies := ps\<rparr>" f] synced_put_policy assms by simp
  show ?thesis
    using u p
    by (simp add: AddUser_def UpdateUser_def DeleteUser_def PutAccessPolicy_def
        DeleteAccessPolicy_def db_result_def put_user_def remove_user_def put_policy_def
        remove_policy_def split: option.split)
qed

text \<open>
  An operation that reports success has reached the disk: when the handle agreed with its
  files before, it agrees with them after every operation that returns no error, and no error
  is left pending.
\<close>

theorem success_is_durable:
  assumes "synced db" and "err db = None"
  shows "(fst (AddUser f u db) = None \<longrightarrow>
      synced (snd (AddUser f u db)) \<and> err (snd (AddUser f u db)) = None)
    \<and> (fst (UpdateUser f n g db) = None \<longrightarrow>
      synced (snd (UpdateUser f n g db)) \<and> err (snd (UpdateUser f n g db)) = None)
    \<and> (fst (DeleteUser f n db) = None \<longrightarrow>
      synced (snd (DeleteUser f n db)) \<and> err (snd (DeleteUser f n db)) = None)
    \<and> (fst (PutAccessPolicy f p db) = None \<longrightarrow>
      synced (snd (PutAccessPolicy f p db)) \<and> err (snd (PutAccessPolicy f p db)) = None)
    \<and> (fst (DeleteAccessPolicy f n db) = None \<longrightarrow>
      synced (snd (DeleteAccessPolicy f n db)) \<and> err (snd (DeleteAccessPolicy f n db)) = None)"
  using assms by (rule ops_synced)

theorem success_is_durable_witness:
  "synced (snd (DeleteUser No_fault ''bob'' sample_db))"
proof -
  have "fst (DeleteUser No_fault ''bob'' sample_db) = None"
    by (simp add: DeleteUser_def FindUser_def db_result_def remove_user_def)
  then show ?thesis
    using success_is_durable [OF sample_db_synced sample_db_simps(1), of No_fault bob "''bob''"] by blast
qed

section \<open>Restarting\<close>

text \<open>What a restart makes of a database: the policies as their rows are read.\<close>

definition restarted :: "handle \<Rightarrow> handle" where
  "restarted db = db\<lparr>policies := map (\<lambda>(k, p). (k, reread p)) (policies db)\<rparr>"

lemma open_synced:
  assumes "db_wf db" and "synced db" and "err db = None" and "tls_error env = None"
    and "unreadable env = Map.empty"
    and "\<forall>u \<in> set (FetchAllUsers db). user_storable bc u"
    and "\<forall>p \<in> set (FetchAllPolicies db). policy_storable p"
  shows "Open bc env (dir db) (disk db) = Inr (restarted db)"
proof -
  let ?h = "new_handle (dir db) (disk db)"
  have same: "version_path ?h = version_path db" "users_path ?h = users_path db" "acp_path ?h = acp_path db"
    by (simp_all add: file_names)
  have "readVersionFile Map.empty ?h = Inr True"
    using assms(2) by (simp add: readVersionFile_def opened_def same synced_def TrimSpace_def
        drop_words.simps space_runes_def)
  moreover have u: "readUsers bc Map.empty ?h = ?h\<lparr>users := users db\<rparr>"
    by (rule readUsers_bytes)
      (use assms in \<open>auto simp: db_wf_def synced_def users_bytes_def same FetchAllUsers_def\<close>)
  moreover have "readAccessPolicies Map.empty (?h\<lparr>users := users db\<rparr>)
      = ?h\<lparr>users := users db, policies := map (\<lambda>(k, p). (k, reread p)) (policies db)\<rparr>"
    by (rule readAccessPolicies_bytes)
      (use assms in \<open>auto simp: db_wf_def synced_def acp_bytes_def same FetchAllPolicies_def\<close>)
  moreover have "?h\<lparr>users := users db, policies := ps\<rparr> = db\<lparr>policies := ps\<rparr>" for ps
    using assms(3) by (cases db) (simp add: new_handle_def)
  ultimately show ?thesis
    using assms(3-5) by (simp add: Open_def finish_open_def tls_outcome_def Let_def restarted_def)
qed

lemma restarted_same:
  assumes "\<forall>p \<in> set (FetchAllPolicies db). listable p \<and> raw_paths p \<and> (\<forall>q \<in> set (Paths p). CHR ''+'' \<notin> set q)"
  shows "restarted db = db"
proof -
  have "map (\<lambda>(k, p). (k, reread p)) (policies db) = policies db"
    using assms by (intro map_idI) (auto simp: FetchAllPolicies_def reread_raw)
  then show ?thesis by (simp add: restarted_def)
qed


lemma bob_reads_listable [simp]: "listable bob_reads"
  by (simp add: listable_def)


section \<open>Escaped paths in memory\<close>

lemma escape_grows: "length p \<le> length (escape_path p)"
  by (induction p) (auto simp: escape_Cons)

lemma escape_grows_strictly:
  "CHR ''%'' \<in> set p \<or> CHR '':'' \<in> set p \<Longrightarrow> length p < length (escape_path p)"
proof (induction p)
  case (Cons c p)
  then show ?case using escape_grows [of p] by (auto simp: escape_Cons)
qed simp

text \<open>
  Writing the policies escapes their paths in the running server too, not only in the file:
  a policy just put for a path with a percent sign or a colon no longer applies to this very
  path, although the operation reports success. (The server and the file agree again, on the
  intended path, only after a restart.)
\<close>

theorem policy_lost_by_escaping:
  assumes "db_wf db" and "err db = None" and "valid_policy p" and "Paths p = [q]"
    and "CHR ''%'' \<in> set q \<or> CHR '':'' \<in> set q"
  shows "fst (PutAccessPolicy No_fault p db) = None
    \<and> map_of (policies (snd (PutAccessPolicy No_fault p db))) (PolicyName p) = Some (sanitizePaths p)
    \<and> PolicyName p \<notin> PolicyName ` set (GetPolicies (snd (PutAccessPolicy No_fault p db)) q n a)"
proof -
  let ?db = "db\<lparr>policies := AList.update (PolicyName p) p (policies db)\<rparr>"
  let ?r = "snd (PutAccessPolicy No_fault p db)"
  have r: "?r = writeAccessPolicies No_fault ?db"
    by (simp add: PutAccessPolicy_def db_result_def put_policy_def)
  have "table_wf PolicyName valid_policy (policies ?db)"
    using assms by (simp add: db_wf_def table_wf_update)
  then have wf: "table_wf PolicyName valid_policy (policies ?r)"
    unfolding r by (rule writeAccessPolicies_wf)
  have m: "map_of (policies ?r) (PolicyName p) = Some (sanitizePaths p)"
    using assms(2) by (simp add: r writeAccessPolicies_disk sanitized_def map_of_map update_conv')
  have "\<not> prefix (escape_path q) q"
    using escape_grows_strictly [OF assms(5)] by (metis linorder_not_less prefix_length_le)
  then have no: "\<not> matchesPolicy q n a (sanitizePaths p)"
    by (simp add: matchesPolicy_iff sanitizePaths_def assms(4))
  have "PolicyName p \<notin> PolicyName ` set (GetPolicies ?r q n a)"
  proof
    assume "PolicyName p \<in> PolicyName ` set (GetPolicies ?r q n a)"
    then obtain x where x: "x \<in> set (GetPolicies ?r q n a)" "PolicyName x = PolicyName p"
      by (metis imageE)
    from x(1) have "x \<in> set (range (policies ?r))" "matchesPolicy q n a x"
      by (simp_all add: GetPolicies_def)
    with x(2) m no show False unfolding table_wf_entries [OF wf] by simp
  qed
  with m show ?thesis
    using assms(2) by (simp add: PutAccessPolicy_def db_result_def put_policy_def)
qed

theorem policy_lost_by_escaping_witness:
  "fst (PutAccessPolicy No_fault (bob_reads\<lparr>Paths := [''/a:b'']\<rparr>) sample_db) = None
   \<and> map_of (policies (snd (PutAccessPolicy No_fault (bob_reads\<lparr>Paths := [''/a:b'']\<rparr>) sample_db)))
       (PolicyName (bob_reads\<lparr>Paths := [''/a:b'']\<rparr>))
     = Some (sanitizePaths (bob_reads\<lparr>Paths := [''/a:b'']\<rparr>))
   \<and> PolicyName (bob_reads\<lparr>Paths := [''/a:b'']\<rparr>) \<notin> PolicyName ` set (GetPolicies
       (snd (PutAccessPolicy No_fault (bob_reads\<lparr>Paths := [''/a:b'']\<rparr>) sample_db)) ''/a:b'' ''bob''
       Action_Read)"
  by (rule policy_lost_by_escaping)
    (use bob_reads_simps(2) in \<open>simp_all add: valid_policy_def\<close>)

end
