(* ===== verification/Vfs.thy ===== *)
theory Vfs
  imports Db_Props
begin

text \<open>
  The virtual file system, \<^verbatim>\<open>src/internal/vfs/vfs.go\<close>: from a path a client names
  to the path on the server's disk, or an error. The package variables \<open>store\<close> and
  \<open>rootDir\<close>, which \<open>Setup\<close> assigns once at the start, are arguments.
\<close>

section \<open>The code\<close>

datatype vfs_error = ErrInvalid | ErrReserved | ErrDenied

text \<open>The interface \<open>PolicyStore\<close>: the method \<open>GetPolicies\<close>.\<close>

type_synonym policy_fn = "string \<Rightarrow> string \<Rightarrow> action \<Rightarrow> policy list"

text \<open>The loop that looks for an explicit deny.\<close>

fun no_deny :: "policy list \<Rightarrow> bool" where
  "no_deny [] = True"
| "no_deny (p # ps) = (if Verb p = Deny then False else no_deny ps)"

definition authorize :: "policy_fn \<Rightarrow> user option \<Rightarrow> string \<Rightarrow> action \<Rightarrow> bool" where
  "authorize store u cleanPath act =
     (case u of
        None \<Rightarrow> False
      | Some u \<Rightarrow>
          if Admin u then True
          else
            let policies = store cleanPath (Username u) act in
            if length policies = 0 then False else no_deny policies)"

text \<open>The loop over the segments.\<close>

fun has_dots :: "string list \<Rightarrow> bool" where
  "has_dots [] = False"
| "has_dots (s # ss) =
     (let st = TrimSpace s in if st = ''.'' \<or> st = ''..'' then True else has_dots ss)"

definition clean_vpath :: "string \<Rightarrow> user option \<Rightarrow> string" where
  "clean_vpath vPath u =
     ''/'' @ Trim (case u of None \<Rightarrow> vPath | Some u \<Rightarrow> Join [Chroot u, vPath]) ''/''"

definition resolve ::
  "policy_fn \<Rightarrow> string \<Rightarrow> string \<Rightarrow> user option \<Rightarrow> action option \<Rightarrow> vfs_error + string" where
  "resolve store rootDir vPath u act =
     (let cleanPath = clean_vpath vPath u;
          segments = split_on CHR ''/'' cleanPath
      in
      if has_dots segments then Inl ErrInvalid
      else if act \<noteq> None \<and> \<not> authorize store u cleanPath (the act) then Inl ErrDenied
      else
        let realPath = Join [rootDir, cleanPath];
            flyRoot = Join [rootDir, ''.fly'']
        in if prefix flyRoot realPath then Inl ErrReserved else Inr realPath)"

definition ResolveSingleUser :: "policy_fn \<Rightarrow> string \<Rightarrow> string \<Rightarrow> vfs_error + string" where
  "ResolveSingleUser store rootDir vPath = resolve store rootDir vPath None None"

definition Resolve ::
  "policy_fn \<Rightarrow> string \<Rightarrow> string \<Rightarrow> user option \<Rightarrow> action \<Rightarrow> vfs_error + string" where
  "Resolve store rootDir vPath u act = resolve store rootDir vPath u (Some act)"

section \<open>The store of policies\<close>

locale policy_store =
  fixes store :: policy_fn and stored :: "policy set"
  assumes store_matches: "set (store path n act) = {p \<in> stored. matchesPolicy path n act p}"
begin

lemma no_deny_iff: "no_deny ps \<longleftrightarrow> (\<forall>p \<in> set ps. Verb p \<noteq> Deny)"
  by (induction ps) auto

text \<open>The decision depends on which policies are stored, not on the order they come in.\<close>

lemma authorize_user:
  "authorize store (Some u) path act \<longleftrightarrow>
     Admin u
     \<or> (\<exists>p \<in> stored. matchesPolicy path (Username u) act p)
       \<and> (\<forall>p \<in> stored. matchesPolicy path (Username u) act p \<longrightarrow> Verb p \<noteq> Deny)"
proof -
  have "store path (Username u) act = [] \<longleftrightarrow>
      (\<forall>p \<in> stored. \<not> matchesPolicy path (Username u) act p)"
    using store_matches [of path "Username u" act]
    by (metis (mono_tags, lifting) empty_Collect_eq set_empty)
  then show ?thesis
    by (auto simp: authorize_def Let_def no_deny_iff store_matches)
qed

end

interpretation db_store: policy_store "GetPolicies db" "set (FetchAllPolicies db)" for db
  by unfold_locales (auto simp: GetPolicies_def FetchAllPolicies_def)

section \<open>What resolving a path yields\<close>

lemma has_dots_iff: "has_dots ss \<longleftrightarrow> (\<exists>s \<in> set ss. dotted (TrimSpace s))"
  by (induction ss) (auto simp: dotted_def Let_def)

lemma no_dots: "\<not> has_dots ss \<Longrightarrow> s \<in> set ss \<Longrightarrow> \<not> dotted s"
  by (auto simp: has_dots_iff dotted_def)

text \<open>The reserved folder, and every name beside it that begins the same way.\<close>

definition reserved :: "string list \<Rightarrow> bool" where
  "reserved ss \<longleftrightarrow> (case ss of [] \<Rightarrow> False | s # _ \<Rightarrow> prefix ''.fly'' s)"

definition base_prefix :: "string \<Rightarrow> string" where
  "base_prefix base =
     (if clean_segs (rooted base) base = [] then (if rooted base then ''/'' else [])
      else build_path (rooted base) (clean_segs (rooted base) base) @ ''/'')"

lemma below_Cons: "below base (s # ss) = base_prefix base @ join_on ''/'' (s # ss)"
  by (auto simp: below_def base_prefix_def build_path_def join_on_append)

lemma prefix_join: "SLASH \<notin> set p \<Longrightarrow> prefix p (join_on ''/'' (s # ss)) \<longleftrightarrow> prefix p s"
proof -
  assume p: "SLASH \<notin> set p"
  have "prefix p (s @ SLASH # q) \<Longrightarrow> prefix p s" for q
    using p by (auto simp: prefix_append prefix_Cons)
  then show ?thesis by (auto simp: join_on_Cons)
qed

lemma fly_reserved:
  assumes "\<forall>s \<in> set ss. plain s"
  shows "prefix (below root [''.fly'']) (below root ss) \<longleftrightarrow> reserved ss"
proof (cases ss)
  case Nil
  have "length (below root []) < length (below root [''.fly''])"
    by (cases "clean_segs (rooted root) root = []") (auto simp: below_def build_path_def join_on_append)
  then show ?thesis using Nil by (auto simp: reserved_def dest: prefix_length_le)
next
  case (Cons s rest)
  then show ?thesis
    using prefix_join [of "''.fly''" s rest] by (simp add: below_Cons reserved_def)
qed

text \<open>The segments below the root that a client's path stands for.\<close>

definition vsegs :: "string \<Rightarrow> user option \<Rightarrow> string list" where
  "vsegs vPath u = segs (clean_vpath vPath u)"

definition bad_vpath :: "string \<Rightarrow> user option \<Rightarrow> bool" where
  "bad_vpath vPath u \<longleftrightarrow> has_dots (split_on SLASH (clean_vpath vPath u))"

definition denied :: "policy_fn \<Rightarrow> string \<Rightarrow> user option \<Rightarrow> action option \<Rightarrow> bool" where
  "denied store vPath u act \<longleftrightarrow> act \<noteq> None \<and> \<not> authorize store u (clean_vpath vPath u) (the act)"

lemma vsegs_plain: "\<not> bad_vpath vPath u \<Longrightarrow> \<forall>s \<in> set (vsegs vPath u). plain s"
  using no_dots [of "split_on SLASH (clean_vpath vPath u)"]
  by (auto simp: bad_vpath_def vsegs_def segs_def plain_def dest: split_on_parts)

lemma resolve_eq:
  assumes "root \<noteq> []"
  shows "resolve store root vPath u act =
    (if bad_vpath vPath u then Inl ErrInvalid
     else if denied store vPath u act then Inl ErrDenied
     else if reserved (vsegs vPath u) then Inl ErrReserved
     else Inr (below root (vsegs vPath u)))"
proof (cases "bad_vpath vPath u")
  case False
  then have "Join [root, clean_vpath vPath u] = below root (vsegs vPath u)"
    unfolding vsegs_def
    by (intro Join_below [OF assms] ballI) (auto simp: bad_vpath_def dest: no_dots)
  moreover have "Join [root, ''.fly''] = below root [''.fly'']"
    using Join_below [OF assms, of "''.fly''"] by (simp add: segs_def dotted_def)
  ultimately show ?thesis
    using False fly_reserved [OF vsegs_plain [OF False], of root]
    by (simp add: resolve_def Let_def bad_vpath_def denied_def vsegs_def)
qed (simp add: resolve_def Let_def bad_vpath_def)

lemma resolve_Inr:
  assumes "root \<noteq> []"
  shows "resolve store root vPath u act = Inr real \<longleftrightarrow>
    \<not> bad_vpath vPath u \<and> \<not> denied store vPath u act \<and> \<not> reserved (vsegs vPath u)
    \<and> real = below root (vsegs vPath u)"
  using assms by (auto simp: resolve_eq)

text \<open>A real path inside the part of the root directory that clients may touch.\<close>

definition confined :: "string \<Rightarrow> string \<Rightarrow> bool" where
  "confined root real \<longleftrightarrow>
     (\<exists>ss. (\<forall>s \<in> set ss. plain s) \<and> \<not> reserved ss \<and> real = below root ss)"

lemma resolve_confined_if:
  "root \<noteq> [] \<Longrightarrow> resolve store root vPath u act = Inr real \<Longrightarrow> confined root real"
  using vsegs_plain by (auto simp: resolve_Inr confined_def)

section \<open>Chroots\<close>

lemma Trim_slash_segs: "segs (Trim p ''/'') = segs p"
proof -
  have l: "segs (TrimLeft p ''/'') = segs p" for p
    by (induction p) (auto simp: TrimLeft_def segs_slash)
  have r: "segs (TrimRight p ''/'') = segs p" for p
  proof (induction p rule: rev_induct)
    case (snoc c p)
    then show ?case
      using segs_append_slash [of p "[]"] by (cases "c = SLASH") (auto simp: TrimRight_def segs_Nil)
  qed (simp add: TrimRight_def)
  show ?thesis by (simp add: Trim_def l r)
qed

lemma vsegs_None: "vsegs vPath None = segs vPath"
  by (simp add: vsegs_def clean_vpath_def segs_slash Trim_slash_segs)

lemma vsegs_Some: "vsegs vPath (Some u) = segs (Join [Chroot u, vPath])"
  by (simp add: vsegs_def clean_vpath_def segs_slash Trim_slash_segs)

lemma vsegs_chroot:
  assumes "rooted (Chroot u)" and "\<forall>s \<in> set (split_on SLASH vPath). \<not> dotted s"
  shows "vsegs vPath (Some u) = clean_segs True (Chroot u) @ segs vPath"
proof -
  have ne: "Chroot u \<noteq> []" using assms(1) by (auto simp: rooted_def)
  have "\<forall>s \<in> set (segs vPath). plain s"
    using assms(2) by (auto simp: segs_def plain_def dest: split_on_parts)
  with assms(1) show ?thesis
    unfolding vsegs_Some Join_below [OF ne assms(2)] by (simp add: segs_below)
qed

text \<open>Going up as often as the base is deep, or more often, ends at the root.\<close>

lemma clean_up:
  "list_all (\<lambda>s. s \<noteq> ''..'') st \<Longrightarrow> length st \<le> n \<Longrightarrow>
   foldl (clean_step True) st (replicate n ''..'') = []"
proof (induction n arbitrary: st)
  case (Suc n)
  then show ?case by (cases st) (auto simp: clean_step_def)
qed simp

lemma clean_segs_up:
  assumes "length (clean_segs True c) \<le> n" and "\<forall>s \<in> set ts. plain s"
  shows "clean_segs True (c @ SLASH # join_on ''/'' (replicate (Suc n) ''..'' @ ts)) = ts"
proof -
  let ?st = "foldl (clean_step True) [] (split_on SLASH c)"
  have parts: "\<forall>s \<in> set (replicate (Suc n) ''..'' @ ts). SLASH \<notin> set s"
    using assms(2) by (auto simp: plain_def)
  have st: "list_all (\<lambda>s. s \<noteq> ''..'') ?st" "length ?st \<le> Suc n"
    using foldl_clean_rooted [of "[]" "split_on SLASH c"] assms(1)
    by (auto simp: list_all_iff dotted_def clean_segs_def)
  have "split_on SLASH (join_on ''/'' (replicate (Suc n) ''..'' @ ts)) = replicate (Suc n) ''..'' @ ts"
    by (rule split_join) (use parts in auto)
  then have "foldl (clean_step True) ?st (split_on SLASH (join_on ''/'' (replicate (Suc n) ''..'' @ ts)))
      = foldl (clean_step True) [] ts"
    using clean_up [OF st] by (simp del: replicate_Suc)
  also have "\<dots> = rev ts"
    using foldl_clean_plain [of ts True "[]"] assms(2) by (auto simp: plain_def filter_id_conv)
  finally show ?thesis by (simp add: clean_segs_def split_on_append_sep)
qed

lemma join_plain_ends:
  "ss \<noteq> [] \<Longrightarrow> \<forall>s \<in> set ss. plain s \<Longrightarrow>
   join_on ''/'' ss \<noteq> [] \<and> hd (join_on ''/'' ss) \<noteq> SLASH \<and> last (join_on ''/'' ss) \<noteq> SLASH"
proof (induction ss)
  case (Cons s ss)
  have "s \<noteq> []" "SLASH \<notin> set s" using Cons.prems by (auto simp: plain_def)
  then have "hd s \<noteq> SLASH" "last s \<noteq> SLASH" by (metis hd_in_set, metis last_in_set)
  with Cons \<open>s \<noteq> []\<close> show ?case by (cases "ss = []") (auto simp: join_on_Cons)
qed simp

lemma Trim_join_plain: "\<forall>s \<in> set ss. plain s \<Longrightarrow> Trim (SLASH # join_on ''/'' ss) ''/'' = join_on ''/'' ss"
proof (cases "ss = []")
  case False
  assume "\<forall>s \<in> set ss. plain s"
  from join_plain_ends [OF False this] obtain x xs y ys where "join_on ''/'' ss = x # xs" "x \<noteq> SLASH"
    and "rev (join_on ''/'' ss) = y # ys" "y \<noteq> SLASH"
    by (metis hd_rev list.collapse rev_is_Nil_conv)
  then show ?thesis
    by (simp add: Trim_def TrimLeft_def TrimRight_def) (metis rev.simps(2) rev_rev_ident)
qed (simp add: Trim_def TrimLeft_def TrimRight_def)

end
