(* ===== verification/Vfs_Props.thy ===== *)
theory Vfs_Props
  imports Vfs
begin

text \<open>
  The properties of the virtual file system, \<^verbatim>\<open>src/internal/vfs/vfs.go\<close>: every path it
  hands out lies inside the root directory and outside the reserved folder, access is decided
  the way the documentation says, and what a chroot does and does not confine.
\<close>

definition bob_admin :: user where
  "bob_admin = bob\<lparr>Admin := True\<rparr>"

text \<open>
  C4. Confinement: whatever path a client names and whoever the user is, a path that resolves
  leads from the root directory down plain segments, none of them a dot segment, the first one
  not starting with the name of the reserved folder; and where an action is given the user was
  authorized for it.
\<close>

theorem resolve_confined:
  assumes "root \<noteq> []" and "resolve store root vPath u act = Inr real"
  shows "confined root real
    \<and> (act \<noteq> None \<longrightarrow> authorize store u (clean_vpath vPath u) (the act))"
  using resolve_confined_if [OF assms] assms by (auto simp: resolve_Inr denied_def)

theorem resolve_confined_witness: "confined ''/srv'' ''/srv/a/b''"
proof -
  have "resolve (GetPolicies sample_db) ''/srv'' ''/a/b'' None None = Inr ''/srv/a/b''"
    by (simp add: resolve_def Let_def clean_vpath_def go_defs TrimSpace_def drop_words.simps
        space_runes_def)
  from resolve_confined [OF _ this] show ?thesis by simp
qed

text \<open>
  The outcome of a request and the order of its checks: a dot segment is refused before
  access is considered, access before the reserved folder is recognised, and what remains is
  the path below the root; so a user without access cannot find out what is reserved.
\<close>

theorem resolve_outcome:
  assumes "root \<noteq> []"
  shows "resolve store root vPath u act =
    (if has_dots (split_on SLASH (clean_vpath vPath u)) then Inl ErrInvalid
     else if act \<noteq> None \<and> \<not> authorize store u (clean_vpath vPath u) (the act) then Inl ErrDenied
     else if reserved (segs (clean_vpath vPath u)) then Inl ErrReserved
     else Inr (below root (segs (clean_vpath vPath u))))"
  using resolve_eq [OF assms] by (simp add: bad_vpath_def denied_def vsegs_def)

theorem resolve_outcome_witness:
  "resolve (GetPolicies sample_db) ''/srv'' ''/.fly/users.csv'' (Some (bob\<lparr>Chroot := []\<rparr>))
     (Some Action_Read) = Inl ErrDenied"
proof -
  have c: "clean_vpath ''/.fly/users.csv'' (Some (bob\<lparr>Chroot := []\<rparr>)) = ''/.fly/users.csv''"
    by (simp add: clean_vpath_def go_defs)
  have "\<not> has_dots (split_on SLASH ''/.fly/users.csv'')"
    by (simp add: TrimSpace_def drop_words.simps space_runes_def)
  moreover have "\<not> authorize (GetPolicies sample_db) (Some (bob\<lparr>Chroot := []\<rparr>)) ''/.fly/users.csv'' Action_Read"
    by (simp add: authorize_def GetPolicies_def matchesPolicy_iff bob_def Let_def)
  ultimately show ?thesis
    by (subst resolve_outcome) (simp_all add: c)
qed

text \<open>
  C23. Access is decided as documented: an unauthenticated client never has access, an
  administrator always, everyone else exactly when some policy for this action, path and user
  allows it and no such policy denies it, in whatever order the policies are visited.
\<close>

theorem access_decision:
  assumes "db_wf db"
  shows "\<not> authorize (GetPolicies db) None path act
    \<and> (authorize (GetPolicies db) (Some u) path act \<longleftrightarrow>
        Admin u
        \<or> (\<exists>p \<in> set (FetchAllPolicies db). Verb p = Allow \<and> matchesPolicy path (Username u) act p)
          \<and> \<not> (\<exists>p \<in> set (FetchAllPolicies db). Verb p = Deny \<and> matchesPolicy path (Username u) act p))"
proof -
  have "Verb p = Allow \<or> Verb p = Deny" if "p \<in> set (FetchAllPolicies db)" for p
    using that assms table_wf_entry(2) [of PolicyName valid_policy "policies db"]
    by (auto simp: db_wf_def FetchAllPolicies_def valid_policy_def)
  then show ?thesis
    unfolding db_store.authorize_user by (auto simp: authorize_def)
qed

theorem access_decision_witness:
  "authorize (GetPolicies sample_db) (Some bob) ''/home/bob/x'' Action_Read"
  using access_decision [OF sample_db_wf(1), of "''/home/bob/x''" Action_Read bob]
  by (simp add: FetchAllPolicies_def matchesPolicy_iff user_list_def bob_reads_def bob_def go_defs)

text \<open>
  A client whose path has no dot segments stays inside the chroot of its user: the real
  path leads from the root through all of the chroot's segments to the named ones.
\<close>

theorem chroot_contains:
  assumes "root \<noteq> []" and "rooted (Chroot u)"
    and "\<forall>s \<in> set (split_on SLASH vPath). \<not> dotted s"
    and "resolve store root vPath (Some u) act = Inr real"
  shows "real = below root (clean_segs True (Chroot u) @ segs vPath)"
  using assms vsegs_chroot [OF assms(2,3)] by (simp add: resolve_Inr)

theorem chroot_contains_witness:
  "''/srv/home/bob/x'' = below ''/srv'' (clean_segs True (Chroot bob) @ segs ''/x'')"
proof (rule chroot_contains)
  show "resolve (GetPolicies sample_db) ''/srv'' ''/x'' (Some bob) (Some Action_Read)
      = Inr ''/srv/home/bob/x''"
    by (simp add: resolve_def Let_def clean_vpath_def go_defs TrimSpace_def drop_words.simps
        space_runes_def authorize_def bob_def GetPolicies_def matchesPolicy_iff user_list_def
        bob_reads_def)
qed (simp_all add: bob_def go_defs)

text \<open>
  C31. A chroot does not confine a client that names dot-dot segments: the chroot and the path
  are joined, and thereby cleaned, before dot segments are looked for, so that enough of them
  lead out of the chroot to any path below the root, reserved ones apart, that the user is
  authorized for; for an administrator to every one.
\<close>

theorem chroot_escape:
  assumes "root \<noteq> []" and "rooted (Chroot u)"
    and "length (clean_segs True (Chroot u)) \<le> n"
    and "\<forall>s \<in> set ts. plain s \<and> \<not> dotted (TrimSpace s)" and "\<not> reserved ts"
    and "authorize store (Some u) (''/'' @ join_on ''/'' ts) act"
  shows "resolve store root (''/'' @ join_on ''/'' (replicate (Suc n) ''..'' @ ts)) (Some u) (Some act)
    = Inr (below root ts)"
proof -
  let ?up = "join_on ''/'' (replicate (Suc n) ''..'' @ ts)"
  let ?v = "''/'' @ ?up"
  have plain: "\<forall>s \<in> set ts. plain s" using assms(4) by blast
  have ne: "Chroot u \<noteq> []" using assms(2) by (auto simp: rooted_def)
  have "clean_segs True ((Chroot u @ ''/'') @ SLASH # ?up) = ts"
    by (rule clean_segs_up [OF _ plain])
      (use assms(3) in \<open>simp add: clean_segs_append_plain [of "[]", simplified] dotted_def segs_Nil\<close>)
  then have "Join [Chroot u, ?v] = SLASH # join_on ''/'' ts"
    using ne assms(2) rooted_append [OF ne, of "SLASH # ?v"]
    by (simp add: Join_def Clean_def build_path_def del: replicate_Suc)
  then have clean: "clean_vpath ?v (Some u) = ''/'' @ join_on ''/'' ts"
    using Trim_join_plain [OF plain] by (simp add: clean_vpath_def)
  have "split_on SLASH (''/'' @ join_on ''/'' ts) = [] # (if ts = [] then [[]] else ts)"
    using plain by (auto simp: split_join plain_def)
  then have "\<not> has_dots (split_on SLASH (clean_vpath ?v (Some u)))"
    unfolding clean using assms(4) by (auto simp: has_dots_iff dotted_def)
  moreover have "segs (clean_vpath ?v (Some u)) = ts"
    unfolding clean using plain by (auto simp: segs_slash segs_join plain_def filter_id_conv)
  ultimately show ?thesis
    using assms(1,5,6) clean by (simp add: resolve_eq bad_vpath_def denied_def vsegs_def)
qed

theorem chroot_escape_witness:
  "resolve (GetPolicies sample_db) ''/srv''
     (''/'' @ join_on ''/'' (replicate (Suc 2) ''..'' @ [''home'', ''amy''])) (Some bob_admin)
     (Some Action_Write) = Inr (below ''/srv'' [''home'', ''amy''])"
  by (rule chroot_escape)
    (simp_all add: bob_admin_def bob_def authorize_def go_defs reserved_def TrimSpace_def
      drop_words.simps space_runes_def)

end
