(* ===== verification/Os_Kernel.thy ===== *)
theory Os_Kernel
  imports Fly_Prelude
begin

text \<open>
  The operating system as the server sees it through package \<^verbatim>\<open>os\<close>: a record of
  functions on a kernel state \<open>'k\<close>, one per call the sources make, a parameter of the model.
  The state of a running server keeps the kernel state together with the trace of the calls
  made, so that theorems can say which paths ever reach the operating system.
\<close>

section \<open>Errors and file information\<close>

datatype os_err = OsNotExist | OsOther string

datatype file_kind = Directory | Regular | Special

record file_info =
  InfoName :: string
  InfoKind :: file_kind
  InfoSize :: int
  InfoModTime :: string

text \<open>An open file: its name and its descriptor.\<close>

record os_file =
  FileName :: string
  FileFd :: nat

section \<open>The calls\<close>

datatype os_call =
    Call_MkdirAll string
  | Call_Chtimes string
  | Call_Create string
  | Call_Stat string
  | Call_ReadDir string
  | Call_Remove string
  | Call_RemoveAll string
  | Call_Rename string string
  | Call_Open string
  | Call_CreateTemp

text \<open>The paths a call names.\<close>

fun call_paths :: "os_call \<Rightarrow> string list" where
  "call_paths (Call_MkdirAll p) = [p]"
| "call_paths (Call_Chtimes p) = [p]"
| "call_paths (Call_Create p) = [p]"
| "call_paths (Call_Stat p) = [p]"
| "call_paths (Call_ReadDir p) = [p]"
| "call_paths (Call_Remove p) = [p]"
| "call_paths (Call_RemoveAll p) = [p]"
| "call_paths (Call_Rename p q) = [p, q]"
| "call_paths (Call_Open p) = [p]"
| "call_paths Call_CreateTemp = []"

text \<open>Calls that cannot change what is stored under the paths they name.\<close>

fun read_only :: "os_call \<Rightarrow> bool" where
  "read_only (Call_Stat p) = True"
| "read_only (Call_ReadDir p) = True"
| "read_only (Call_Open p) = True"
| "read_only _ = False"

record 'k kernel =
  os_MkdirAll :: "string \<Rightarrow> 'k \<Rightarrow> os_err option \<times> 'k"
  os_Chtimes :: "string \<Rightarrow> 'k \<Rightarrow> os_err option \<times> 'k"
  os_Create :: "string \<Rightarrow> 'k \<Rightarrow> os_err option \<times> 'k"
  os_Stat :: "string \<Rightarrow> 'k \<Rightarrow> (os_err + file_info) \<times> 'k"
  os_ReadDir :: "string \<Rightarrow> 'k \<Rightarrow> (os_err + (os_err + file_info) list) \<times> 'k"
  os_Remove :: "string \<Rightarrow> 'k \<Rightarrow> os_err option \<times> 'k"
  os_RemoveAll :: "string \<Rightarrow> 'k \<Rightarrow> os_err option \<times> 'k"
  os_Rename :: "string \<Rightarrow> string \<Rightarrow> 'k \<Rightarrow> os_err option \<times> 'k"
  os_Open :: "string \<Rightarrow> 'k \<Rightarrow> (os_err + os_file) \<times> 'k"
  os_CreateTemp :: "'k \<Rightarrow> (os_err + os_file) \<times> 'k"
  os_Close :: "os_file \<Rightarrow> 'k \<Rightarrow> 'k"

text \<open>The kernel state with the trace, oldest call first.\<close>

record 'k sys =
  kst :: 'k
  calls :: "os_call list"

text \<open>One call: its reply, the new kernel state, and its entry in the trace.\<close>

definition syscall :: "os_call \<Rightarrow> ('k \<Rightarrow> 'r \<times> 'k) \<Rightarrow> 'k sys \<Rightarrow> 'r \<times> 'k sys" where
  "syscall c f s = (case f (kst s) of (r, k) \<Rightarrow> (r, s\<lparr>kst := k, calls := calls s @ [c]\<rparr>))"

definition MkdirAll :: "'k kernel \<Rightarrow> string \<Rightarrow> 'k sys \<Rightarrow> os_err option \<times> 'k sys" where
  "MkdirAll K p = syscall (Call_MkdirAll p) (os_MkdirAll K p)"

definition Chtimes :: "'k kernel \<Rightarrow> string \<Rightarrow> 'k sys \<Rightarrow> os_err option \<times> 'k sys" where
  "Chtimes K p = syscall (Call_Chtimes p) (os_Chtimes K p)"

text \<open>\<open>os.Create\<close> followed by closing the file.\<close>

definition Create :: "'k kernel \<Rightarrow> string \<Rightarrow> 'k sys \<Rightarrow> os_err option \<times> 'k sys" where
  "Create K p = syscall (Call_Create p) (os_Create K p)"

definition Stat :: "'k kernel \<Rightarrow> string \<Rightarrow> 'k sys \<Rightarrow> (os_err + file_info) \<times> 'k sys" where
  "Stat K p = syscall (Call_Stat p) (os_Stat K p)"

definition ReadDir ::
  "'k kernel \<Rightarrow> string \<Rightarrow> 'k sys \<Rightarrow> (os_err + (os_err + file_info) list) \<times> 'k sys" where
  "ReadDir K p = syscall (Call_ReadDir p) (os_ReadDir K p)"

definition Remove :: "'k kernel \<Rightarrow> string \<Rightarrow> 'k sys \<Rightarrow> os_err option \<times> 'k sys" where
  "Remove K p = syscall (Call_Remove p) (os_Remove K p)"

definition RemoveAll :: "'k kernel \<Rightarrow> string \<Rightarrow> 'k sys \<Rightarrow> os_err option \<times> 'k sys" where
  "RemoveAll K p = syscall (Call_RemoveAll p) (os_RemoveAll K p)"

definition Rename :: "'k kernel \<Rightarrow> string \<Rightarrow> string \<Rightarrow> 'k sys \<Rightarrow> os_err option \<times> 'k sys" where
  "Rename K p q = syscall (Call_Rename p q) (os_Rename K p q)"

definition OpenFile :: "'k kernel \<Rightarrow> string \<Rightarrow> 'k sys \<Rightarrow> (os_err + os_file) \<times> 'k sys" where
  "OpenFile K p = syscall (Call_Open p) (os_Open K p)"

definition CreateTemp :: "'k kernel \<Rightarrow> 'k sys \<Rightarrow> (os_err + os_file) \<times> 'k sys" where
  "CreateTemp K = syscall Call_CreateTemp (os_CreateTemp K)"

text \<open>Closing names no path and is not part of the trace.\<close>

definition CloseFile :: "'k kernel \<Rightarrow> os_file \<Rightarrow> 'k sys \<Rightarrow> 'k sys" where
  "CloseFile K f s = s\<lparr>kst := os_Close K f (kst s)\<rparr>"

lemmas os_defs = MkdirAll_def Chtimes_def Create_def Stat_def ReadDir_def Remove_def
  RemoveAll_def Rename_def OpenFile_def CreateTemp_def

section \<open>Which calls were added\<close>

text \<open>\<open>emits P s s'\<close>: from \<open>s\<close> to \<open>s'\<close> the trace grew by calls that all satisfy \<open>P\<close>.\<close>

definition emits :: "(os_call \<Rightarrow> bool) \<Rightarrow> 'k sys \<Rightarrow> 'k sys \<Rightarrow> bool" where
  "emits P s s' \<longleftrightarrow> (\<exists>cs. calls s' = calls s @ cs \<and> list_all P cs)"

lemma emits_refl [simp]: "emits P s s"
  by (simp add: emits_def)

lemma emits_trans: "emits P s t \<Longrightarrow> emits P t u \<Longrightarrow> emits P s u"
  by (auto simp: emits_def)

lemma emits_mono: "emits P s t \<Longrightarrow> (\<And>c. P c \<Longrightarrow> Q c) \<Longrightarrow> emits Q s t"
  by (auto simp: emits_def list_all_iff)

lemma emits_close [simp]: "emits P s (CloseFile K f s)"
  by (simp add: emits_def CloseFile_def)

text \<open>The trace after one call.\<close>

lemma calls_os:
  "MkdirAll K p s = (e, s') \<Longrightarrow> calls s' = calls s @ [Call_MkdirAll p]"
  "Chtimes K p s = (e, s') \<Longrightarrow> calls s' = calls s @ [Call_Chtimes p]"
  "Create K p s = (e, s') \<Longrightarrow> calls s' = calls s @ [Call_Create p]"
  "Stat K p s = (i, s') \<Longrightarrow> calls s' = calls s @ [Call_Stat p]"
  "ReadDir K p s = (d, s') \<Longrightarrow> calls s' = calls s @ [Call_ReadDir p]"
  "Remove K p s = (e, s') \<Longrightarrow> calls s' = calls s @ [Call_Remove p]"
  "RemoveAll K p s = (e, s') \<Longrightarrow> calls s' = calls s @ [Call_RemoveAll p]"
  "Rename K p q s = (e, s') \<Longrightarrow> calls s' = calls s @ [Call_Rename p q]"
  "OpenFile K p s = (f, s') \<Longrightarrow> calls s' = calls s @ [Call_Open p]"
  "CreateTemp K s = (f, s') \<Longrightarrow> calls s' = calls s @ [Call_CreateTemp]"
  by (auto simp: os_defs syscall_def split: prod.splits)

lemma calls_close [simp]: "calls (CloseFile K f s) = calls s"
  by (simp add: CloseFile_def)

end
