(* ===== verification/Session_Streams.thy ===== *)
theory Session_Streams
  imports Os_Kernel Wire_Values Go_Path
begin

text \<open>
  The streams of a session, \<^verbatim>\<open>src/internal/session/streams.go\<close>: the table of 16
  slots, opening, looking up, closing and releasing. A stream's goroutine is started when it
  is opened.
\<close>

section \<open>Frames and streams\<close>

datatype frame = DataFrame bytes | FinishFrame

datatype mode = Mode_read | Mode_write | Mode_copy

text \<open>
  The three kinds of stream, each with the number of tokens in its \<open>cancel\<close> channel; a write
  stream with the frames that its goroutine has not taken yet.
\<close>

datatype stream =
    ReadStream nat os_file
  | WriteStream nat "frame list" string os_file
  | CopyStream nat string string

fun mode_of :: "stream \<Rightarrow> mode" where
  "mode_of (ReadStream _ _) = Mode_read"
| "mode_of (WriteStream _ _ _ _) = Mode_write"
| "mode_of (CopyStream _ _ _) = Mode_copy"

text \<open>The send on the cancel channel, the first half of \<open>close\<close>.\<close>

fun add_cancel :: "stream \<Rightarrow> stream" where
  "add_cancel (ReadStream n f) = ReadStream (Suc n) f"
| "add_cancel (WriteStream n fs p f) = WriteStream (Suc n) fs p f"
| "add_cancel (CopyStream n p q) = CopyStream (Suc n) p q"

text \<open>The table, the counter, and the tokens sent to \<open>terminate\<close>.\<close>

record session =
  streams :: "stream option list"
  streamCount :: int
  terminated :: nat

definition num_slots :: nat where "num_slots = 16"

definition new_session :: session where
  "new_session = \<lparr>streams = replicate num_slots None, streamCount = 0, terminated = 0\<rparr>"

definition Terminate :: "session \<Rightarrow> session" where
  "Terminate s = s\<lparr>terminated := Suc (terminated s)\<rparr>"

section \<open>The table\<close>

text \<open>The first free slot at or after position \<open>i\<close>.\<close>

fun nextStreamId :: "nat \<Rightarrow> stream option list \<Rightarrow> nat option" where
  "nextStreamId i [] = None"
| "nextStreamId i (x # xs) = (if x = None then Some i else nextStreamId (Suc i) xs)"

definition getStream :: "int \<Rightarrow> session \<Rightarrow> stream option" where
  "getStream sid s =
     (if sid < 0 \<or> sid \<ge> int (length (streams s)) then None else streams s ! nat sid)"

definition insert_stream :: "nat \<Rightarrow> stream \<Rightarrow> session \<Rightarrow> session" where
  "insert_stream i st s = s\<lparr>streams := (streams s)[i := Some st], streamCount := streamCount s + 1\<rparr>"

definition releaseStream :: "nat \<Rightarrow> session \<Rightarrow> session" where
  "releaseStream i s = s\<lparr>streams := (streams s)[i := None], streamCount := streamCount s - 1\<rparr>"

definition NumStreams :: "session \<Rightarrow> int" where
  "NumStreams s = streamCount s"

text \<open>
  \<open>CloseStream\<close> sends on the cancel channel and then waits for the goroutine to finish; what
  the goroutine does on the way is a step of its own.
\<close>

definition CloseStream :: "int \<Rightarrow> session \<Rightarrow> bool \<times> session" where
  "CloseStream sid s =
     (case getStream sid s of
        None \<Rightarrow> (False, s)
      | Some st \<Rightarrow> (True, s\<lparr>streams := (streams s)[nat sid := Some (add_cancel st)]\<rparr>))"

section \<open>Opening\<close>

text \<open>
  \<open>Inl\<close> a wire error, \<open>Inr\<close> the id. A nil \<open>FileInfo\<close> that is asked for its kind is a
  panic, \<open>None\<close>: it happens when the parent folder cannot be examined for another reason than
  that it does not exist.
\<close>

definition Dir :: "string \<Rightarrow> string" where
  "Dir p = Clean (rev (dropWhile (\<lambda>c. c \<noteq> SLASH) (rev p)))"

definition NewReadStream ::
  "'k kernel \<Rightarrow> string \<Rightarrow> session \<Rightarrow> 'k sys \<Rightarrow> (wvalue + nat) \<times> session \<times> 'k sys" where
  "NewReadStream K path s k =
     (case OpenFile K path k of
        (Inl OsNotExist, k1) \<Rightarrow> (Inl (NewError ''NOTFOUND'' ''No such file or directory''), s, k1)
      | (Inl (OsOther e), k1) \<Rightarrow> (Inl (NewError ''ERR'' ''Unexpected error occurred''), s, k1)
      | (Inr file, k1) \<Rightarrow>
          (case nextStreamId 0 (streams s) of
             None \<Rightarrow> (Inl (NewError ''TOOMANY'' ''Too many streams open''), s, CloseFile K file k1)
           | Some i \<Rightarrow> (Inr i, insert_stream i (ReadStream 0 file) s, k1)))"

definition start_write ::
  "'k kernel \<Rightarrow> string \<Rightarrow> session \<Rightarrow> 'k sys \<Rightarrow> (wvalue + nat) \<times> session \<times> 'k sys" where
  "start_write K finalPath s k =
     (case CreateTemp K k of
        (Inl e, k1) \<Rightarrow> (Inl (NewError ''ERR'' ''Unexpected error occurred''), s, k1)
      | (Inr file, k1) \<Rightarrow>
          (case nextStreamId 0 (streams s) of
             None \<Rightarrow> (Inl (NewError ''TOOMANY'' ''Too many streams open''), s, CloseFile K file k1)
           | Some i \<Rightarrow> (Inr i, insert_stream i (WriteStream 0 [] finalPath file) s, k1)))"

definition NewWriteStream ::
  "'k kernel \<Rightarrow> string \<Rightarrow> session \<Rightarrow> 'k sys \<Rightarrow> (wvalue + nat) option \<times> session \<times> 'k sys" where
  "NewWriteStream K finalPath s k =
     (case Stat K (Dir finalPath) k of
        (Inl OsNotExist, k1) \<Rightarrow>
          (Some (Inl (NewError ''NOTFOUND'' ''No such file or directory'')), s, k1)
      | (Inl (OsOther e), k1) \<Rightarrow> (None, s, k1)
      | (Inr info, k1) \<Rightarrow>
          if InfoKind info \<noteq> Directory
          then (Some (Inl (NewError ''NOTFOUND'' ''No such file or directory'')), s, k1)
          else
            (case Stat K finalPath k1 of
               (Inl (OsOther e), k2) \<Rightarrow>
                 (Some (Inl (NewError ''ERR'' ''Unexpected error occurred'')), s, k2)
             | (Inl OsNotExist, k2) \<Rightarrow>
                 (case start_write K finalPath s k2 of (r, s', k3) \<Rightarrow> (Some r, s', k3))
             | (Inr info2, k2) \<Rightarrow>
                 if InfoKind info2 \<noteq> Regular
                 then (Some (Inl (NewError ''ILLEGAL'' ''Not a regular file'')), s, k2)
                 else (case start_write K finalPath s k2 of (r, s', k3) \<Rightarrow> (Some r, s', k3))))"

definition NewCopyStream :: "string \<Rightarrow> string \<Rightarrow> session \<Rightarrow> (wvalue + nat) \<times> session" where
  "NewCopyStream src dst s =
     (case nextStreamId 0 (streams s) of
        None \<Rightarrow> (Inl (NewError ''TOOMANY'' ''Too many streams open''), s)
      | Some i \<Rightarrow> (Inr i, insert_stream i (CopyStream 0 src dst) s))"

end
