(* ===== verification/Crypto.thy ===== *)
theory Crypto
  imports Fly_Prelude
begin

text \<open>
  The encryption of tokens, \<^verbatim>\<open>src/internal/crypto/crypto.go\<close>. AES-GCM itself is a
  parameter: sealing and unsealing under a key and a nonce.
\<close>

record aead =
  Seal :: "bytes \<Rightarrow> bytes \<Rightarrow> bytes \<Rightarrow> bytes"
  Unseal :: "bytes \<Rightarrow> bytes \<Rightarrow> bytes \<Rightarrow> bytes option"

text \<open>The key sizes of \<open>aes.NewCipher\<close>, and the nonce size of \<open>cipher.NewGCM\<close>.\<close>

definition valid_key :: "bytes \<Rightarrow> bool" where
  "valid_key key \<longleftrightarrow> length key \<in> {16, 24, 32}"

definition nonce_size :: nat where "nonce_size = 12"

text \<open>
  A fresh key of \<open>n\<close> bytes, and whether the source of randomness delivered it: \<open>got\<close> is
  what arrived. The slice is returned also when the source fails, zero where nothing arrived.
\<close>

definition RandomKey :: "nat \<Rightarrow> bytes \<Rightarrow> bytes \<times> bool" where
  "RandomKey n got = (take n (got @ replicate n (CHR 0x00)), n \<le> length got)"

text \<open>The second argument is what the source of randomness delivers for the nonce.\<close>

definition AesEncrypt :: "aead \<Rightarrow> bytes option \<Rightarrow> bytes \<Rightarrow> bytes \<Rightarrow> bytes option" where
  "AesEncrypt a nonce plaintext key =
     (if \<not> valid_key key then None
      else case nonce of
        None \<Rightarrow> None
      | Some n \<Rightarrow> Some (n @ Seal a key n plaintext))"

datatype decrypt_result = Decrypted bytes | Decrypt_error | Decrypt_panic

definition AesDecrypt :: "aead \<Rightarrow> bytes \<Rightarrow> bytes \<Rightarrow> decrypt_result" where
  "AesDecrypt a ciphertext key =
     (if \<not> valid_key key then Decrypt_error
      else if length ciphertext < nonce_size then Decrypt_panic
      else
        case Unseal a key (take nonce_size ciphertext) (drop nonce_size ciphertext) of
          None \<Rightarrow> Decrypt_error
        | Some p \<Rightarrow> Decrypted p)"

end
