(* ===== verification/Server_State.thy ===== *)
theory Server_State
  imports Vfs Session_Streams Crypto
begin

text \<open>
  The state of the server and of one client's session, \<^verbatim>\<open>src/cmd/fly-server/main.go\<close> and
  \<^verbatim>\<open>vfs_helper.go\<close>. A command handler takes the arguments of the command, the session
  and the server, and returns an outcome with both updated.
\<close>

section \<open>State\<close>

text \<open>
  The package variables \<open>dir\<close>, \<open>flydb\<close>, \<open>tokenKey\<close>, the system, and the sources of
  randomness and time. \<open>None\<close> stands for a nil \<open>tokenKey\<close>.
\<close>

record 'k server =
  root :: string
  flydb :: handle
  tokenKey :: "bytes option"
  sys :: "'k sys"
  rand :: nat
  now :: int

record sessionInfo =
  username :: string
  suser :: "user option"
  singleUser :: bool
  session :: session

definition new_sessionInfo :: sessionInfo where
  "new_sessionInfo = \<lparr>username = [], suser = None, singleUser = False, session = new_session\<rparr>"

text \<open>
  What a handler may meet: the kernel, bcrypt, what happens to the one write of a table a
  command makes, AES-GCM, fresh random bytes (\<open>None\<close>: the source fails), and the formatting
  and parsing of points in time.
\<close>

record 'k env =
  kern :: "'k kernel"
  bc :: bcrypt
  fault :: io_fault
  aead :: aead
  rand_bytes :: "nat \<Rightarrow> nat \<Rightarrow> bytes option"
  fmt_time :: "int \<Rightarrow> string"
  parse_time :: "string \<Rightarrow> int option"

text \<open>
  How a handler ends: with a response, or by ending the process, through \<open>log.Fatalf\<close>
  (its message and the error it prints) or a panic.
\<close>

datatype outcome = Reply wvalue | Fatal string op_error | Panicked string

type_synonym 'k handler =
  "wvalue list \<Rightarrow> sessionInfo \<Rightarrow> 'k server \<Rightarrow> outcome \<times> sessionInfo \<times> 'k server"

abbreviation reply :: "wvalue \<Rightarrow> sessionInfo \<Rightarrow> 'k server \<Rightarrow> outcome \<times> sessionInfo \<times> 'k server" where
  "reply v s g \<equiv> (Reply v, s, g)"

section \<open>The user of a session\<close>

text \<open>
  \<open>update\<close> runs before every command. It notices that there are no users, and that the
  user of the session is gone; it does not look at what else changed about the user.
\<close>

definition update :: "handle \<Rightarrow> sessionInfo \<Rightarrow> sessionInfo" where
  "update db s0 =
     (let s = s0\<lparr>singleUser := (NumUsers db = 0)\<rparr> in
      if username s = [] then s
      else
        case FindUser db (username s) of
          None \<Rightarrow> s\<lparr>suser := None, username := []\<rparr>
        | Some _ \<Rightarrow> s)"

definition changeUser :: "handle \<Rightarrow> string \<Rightarrow> sessionInfo \<Rightarrow> sessionInfo" where
  "changeUser db name s0 =
     (let s = s0\<lparr>username := name\<rparr> in
      case FindUser db name of
        None \<Rightarrow> s\<lparr>session := Terminate (session s)\<rparr>
      | Some u \<Rightarrow> s\<lparr>suser := Some u\<rparr>)"

section \<open>Resolving paths for a session\<close>

definition resolve_path :: "'k server \<Rightarrow> sessionInfo \<Rightarrow> string \<Rightarrow> bool \<Rightarrow> vfs_error + string" where
  "resolve_path g s path writing =
     (if singleUser s then ResolveSingleUser (GetPolicies (flydb g)) (root g) path
      else
        let act = (if writing then Action_Write else Action_Read)
        in Resolve (GetPolicies (flydb g)) (root g) path (suser s) act)"

definition resolveRead :: "'k server \<Rightarrow> sessionInfo \<Rightarrow> string \<Rightarrow> vfs_error + string" where
  "resolveRead g s path = resolve_path g s path False"

definition resolveWrite :: "'k server \<Rightarrow> sessionInfo \<Rightarrow> string \<Rightarrow> vfs_error + string" where
  "resolveWrite g s path = resolve_path g s path True"

section \<open>Shared shapes of the handlers\<close>

text \<open>The guard of every handler that manages users or policies.\<close>

definition is_admin :: "sessionInfo \<Rightarrow> bool" where
  "is_admin s = (case suser s of None \<Rightarrow> False | Some u \<Rightarrow> Admin u)"

text \<open>The type assertions on an argument.\<close>

fun as_String :: "wvalue \<Rightarrow> string option" where
  "as_String (String x) = Some x"
| "as_String _ = None"

fun as_Bool :: "wvalue \<Rightarrow> bool option" where
  "as_Bool (Bool b) = Some b"
| "as_Bool _ = None"

fun as_Integer :: "wvalue \<Rightarrow> int option" where
  "as_Integer (Integer i) = Some i"
| "as_Integer _ = None"

fun as_Array :: "wvalue \<Rightarrow> wvalue list option" where
  "as_Array (Array vs) = Some vs"
| "as_Array _ = None"

lemma as_Some_iff [simp]:
  "as_String v = Some x \<longleftrightarrow> v = String x" "as_Bool v = Some b \<longleftrightarrow> v = Bool b"
  "as_Integer v = Some i \<longleftrightarrow> v = Integer i" "as_Array v = Some vs \<longleftrightarrow> v = Array vs"
  by (cases v; simp)+

lemma as_String_None: "as_String v = None \<longleftrightarrow> (\<forall>x. v \<noteq> String x)"
  by (cases v) simp_all

text \<open>An error that names the type of an argument.\<close>

definition type_error :: "string \<Rightarrow> wvalue \<Rightarrow> wvalue" where
  "type_error pre v = NewErrorf ''ARG'' [pre, Name v]"

definition put_db :: "handle \<Rightarrow> 'k server \<Rightarrow> 'k server" where
  "put_db db g = g\<lparr>flydb := db\<rparr>"

text \<open>
  The end of a handler that updates the database and regards every error as fatal.
\<close>

definition commit ::
  "string \<Rightarrow> op_error option \<times> handle \<Rightarrow> sessionInfo \<Rightarrow> 'k server
     \<Rightarrow> outcome \<times> sessionInfo \<times> 'k server" where
  "commit msg res s g =
     (case res of
        (Some failure, db) \<Rightarrow> (Fatal msg failure, s, put_db db g)
      | (None, db) \<Rightarrow> reply OK s (put_db db g))"

text \<open>The same for the two deletions, which answer when there is nothing to delete.\<close>

definition commit_delete ::
  "string \<Rightarrow> string \<Rightarrow> op_error option \<times> handle \<Rightarrow> sessionInfo \<Rightarrow> 'k server
     \<Rightarrow> outcome \<times> sessionInfo \<times> 'k server" where
  "commit_delete missing msg res s g =
     (case res of
        (Some (NotFound _), db) \<Rightarrow> reply (NewError ''NOTFOUND'' missing) s (put_db db g)
      | _ \<Rightarrow> commit msg res s g)"

lemma put_db_simps [simp]:
  "flydb (put_db db g) = db" "root (put_db db g) = root g" "sys (put_db db g) = sys g"
  "tokenKey (put_db db g) = tokenKey g" "rand (put_db db g) = rand g" "now (put_db db g) = now g"
  by (simp_all add: put_db_def)

end
