(* ===== verification/Cmd_Users.thy ===== *)
theory Cmd_Users
  imports Server_State
begin

text \<open>
  The commands that manage users, one definition per file of \<^verbatim>\<open>src/cmd/fly-server\<close>:
  \<^verbatim>\<open>adduser.go\<close>, \<^verbatim>\<open>setpwd.go\<close>, \<^verbatim>\<open>setadm.go\<close>, \<^verbatim>\<open>chroot.go\<close>,
  \<^verbatim>\<open>rmuser.go\<close>, \<^verbatim>\<open>showuser.go\<close>, \<^verbatim>\<open>listuser.go\<close>. Hashing a password
  takes fresh randomness.
\<close>

definition hash_password :: "'k env \<Rightarrow> string \<Rightarrow> 'k server \<Rightarrow> (string + bytes) \<times> 'k server" where
  "hash_password e pw g = (GenerateFromPassword (bc e) (rand g) pw, g\<lparr>rand := Suc (rand g)\<rparr>)"

text \<open>The end of \<open>handleAddUser\<close>: the first user is logged in at once.\<close>

definition register_user ::
  "'k env \<Rightarrow> user \<Rightarrow> sessionInfo \<Rightarrow> 'k server \<Rightarrow> outcome \<times> sessionInfo \<times> 'k server" where
  "register_user e newUser s g =
     (case AddUser (fault e) newUser (flydb g) of
        (Some Exists, db) \<Rightarrow> reply (NewError ''EXISTS'' ''Already exists'') s (put_db db g)
      | (Some failure, db) \<Rightarrow> (Fatal ''Failed to create user'' failure, s, put_db db g)
      | (None, db) \<Rightarrow>
          let s' = (if singleUser s then changeUser db (Username newUser) s else s)
          in reply OK s' (put_db db g))"

definition handleAddUser :: "'k env \<Rightarrow> 'k handler" where
  "handleAddUser e args s g =
     (if length args \<noteq> 2
      then reply (NewError ''ARG'' ''Command ADDUSER expects exactly 2 arguments'') s g
      else if \<not> singleUser s \<and> \<not> is_admin s
      then reply (NewError ''DENIED'' ''You are not allowed to manage users'') s g
      else case as_String (args ! 0) of
        Some name \<Rightarrow>
          (case as_String (args ! 1) of
             Some pw \<Rightarrow>
               if length pw = 0 then reply (NewError ''ARG'' ''Password cannot be empty'') s g
               else if length name < 1
               then reply (NewError ''ARG'' ''Minimum username length is 1'') s g
               else if length name > 32
               then reply (NewError ''ARG'' ''Maximum username length is 32'') s g
               else if \<not> ValidateUsername name
               then reply (NewError ''ARG'' ''Invalid username'') s g
               else
                 (case hash_password e pw g of
                    (Inl _, g1) \<Rightarrow>
                      reply (NewError ''ERR'' ''Unexpected error while generating hash'') s g1
                  | (Inr hash, g1) \<Rightarrow>
                      let newUser = \<lparr>Username = name, Password = hash, Chroot = [],
                                     Admin = singleUser s\<rparr>
                      in register_user e newUser s g1)
           | None \<Rightarrow> reply (type_error ''Password should be a string, got '' (args ! 1)) s g)
      | None \<Rightarrow> reply (type_error ''Username should be a string, got '' (args ! 0)) s g)"

definition handleSetpwd :: "'k env \<Rightarrow> 'k handler" where
  "handleSetpwd e args s g =
     (if length args \<noteq> 2
      then reply (NewError ''ARG'' ''Command SETPWD expects exactly 2 arguments'') s g
      else case as_String (args ! 0) of
        Some name \<Rightarrow>
          (case as_String (args ! 1) of
             Some pw \<Rightarrow>
               if length pw = 0 then reply (NewError ''ARG'' ''Password cannot be empty'') s g
               else
                 (case hash_password e pw g of
                    (Inl _, g1) \<Rightarrow>
                      reply (NewError ''ERR'' ''Unexpected error while generating hash'') s g1
                  | (Inr hash, g1) \<Rightarrow>
                      if singleUser s
                      then reply (NewError ''ILLEGAL'' ''Cannot manage users in single-user mode'')
                             s g1
                      else if username s \<noteq> name \<and> \<not> is_admin s
                      then reply (NewError ''DENIED'' ''You are not allowed to manage users.'') s g1
                      else
                        commit ''Failed to update user''
                          (UpdateUser (fault e) name (\<lambda>u. u\<lparr>Password := hash\<rparr>) (flydb g1))
                          s g1)
           | None \<Rightarrow> reply (type_error ''Password should be a string, got '' (args ! 1)) s g)
      | None \<Rightarrow> reply (type_error ''Username should be a string, got '' (args ! 0)) s g)"

definition handleSetadm :: "'k env \<Rightarrow> 'k handler" where
  "handleSetadm e args s g =
     (if length args \<noteq> 2
      then reply (NewError ''ARG'' ''Command SETADM expects exactly 2 arguments'') s g
      else case as_String (args ! 0) of
        Some name \<Rightarrow>
          (case as_Bool (args ! 1) of
             Some admin \<Rightarrow>
               if singleUser s
               then reply (NewError ''ILLEGAL'' ''Cannot manage users in single-user mode'') s g
               else if \<not> is_admin s
               then reply (NewError ''DENIED'' ''You are not allowed to manage users.'') s g
               else
                 commit ''Failed to update user''
                   (UpdateUser (fault e) name (\<lambda>u. u\<lparr>Admin := admin\<rparr>) (flydb g)) s g
           | None \<Rightarrow> reply (type_error ''Admin bit should be a boolean, got '' (args ! 1)) s g)
      | None \<Rightarrow> reply (type_error ''Username should be a string, got '' (args ! 0)) s g)"

definition handleChroot :: "'k env \<Rightarrow> 'k handler" where
  "handleChroot e args s g =
     (if length args \<noteq> 2
      then reply (NewError ''ARG'' ''Command CHROOT expects exactly 2 arguments'') s g
      else case as_String (args ! 0) of
        Some name \<Rightarrow>
          (case as_String (args ! 1) of
             Some chroot \<Rightarrow>
               if singleUser s
               then reply (NewError ''ILLEGAL'' ''Cannot manage users in single-user mode'') s g
               else if \<not> is_admin s
               then reply (NewError ''DENIED'' ''You are not allowed to manage users.'') s g
               else
                 (case ResolveSingleUser (GetPolicies (flydb g)) (root g) chroot of
                    Inl _ \<Rightarrow> reply (NewError ''ARG'' ''Invalid path'') s g
                  | Inr realPath \<Rightarrow>
                      (case MkdirAll (kern e) realPath (sys g) of
                         (Some _, k) \<Rightarrow>
                           reply (NewError ''ERR'' ''Unexpected error occurred'') s (g\<lparr>sys := k\<rparr>)
                       | (None, k) \<Rightarrow>
                           commit ''Failed to update user''
                             (UpdateUser (fault e) name (\<lambda>u. u\<lparr>Chroot := chroot\<rparr>) (flydb g))
                             s (g\<lparr>sys := k\<rparr>)))
           | None \<Rightarrow> reply (type_error ''Chroot path should be a string, got '' (args ! 1)) s g)
      | None \<Rightarrow> reply (type_error ''Username should be a string, got '' (args ! 0)) s g)"

definition handleRmuser :: "'k env \<Rightarrow> 'k handler" where
  "handleRmuser e args s g =
     (if length args \<noteq> 1
      then reply (NewError ''ARG'' ''Command RMUSER expects exactly 1 argument'') s g
      else if singleUser s
      then reply (NewError ''ILLEGAL'' ''Cannot manage users in single-user mode'') s g
      else if \<not> is_admin s
      then reply (NewError ''DENIED'' ''You are not allowed to manage users.'') s g
      else case as_String (args ! 0) of
        Some name \<Rightarrow>
          commit_delete ''User not found'' ''Failed to delete user''
            (DeleteUser (fault e) name (flydb g)) s g
      | None \<Rightarrow> reply (type_error ''Username should be a string, got '' (args ! 0)) s g)"

definition handleShowUser :: "'k handler" where
  "handleShowUser args s g =
     (if length args \<noteq> 1
      then reply (NewError ''ARG'' ''Command SHOWUSER expects exactly 1 argument'') s g
      else if singleUser s
      then reply (NewError ''ILLEGAL'' ''Cannot manage users in single-user mode'') s g
      else if \<not> is_admin s
      then reply (NewError ''DENIED'' ''You are not allowed to manage users.'') s g
      else case as_String (args ! 0) of
        Some name \<Rightarrow>
          (case FindUser (flydb g) name of
             None \<Rightarrow> reply (NewError ''NOTFOUND'' ''User not found'') s g
           | Some u \<Rightarrow>
               reply (NewMap [(''username'', NewString (Username u)),
                              (''chroot'', NewString (Chroot u)),
                              (''admin'', NewBoolean (Admin u))]) s g)
      | None \<Rightarrow> reply (type_error ''Username should be a string, got '' (args ! 0)) s g)"

definition handleListUser :: "'k handler" where
  "handleListUser args s g =
     (if singleUser s
      then reply (NewError ''ILLEGAL'' ''Cannot manage users in single-user mode'') s g
      else if \<not> is_admin s
      then reply (NewError ''DENIED'' ''You are not allowed to manage users'') s g
      else reply (NewArray (map (\<lambda>u. NewString (Username u)) (FetchAllUsers (flydb g)))) s g)"

end
