(* ===== verification/Cmd_Acp.thy ===== *)
theory Cmd_Acp
  imports Server_State
begin

text \<open>
  The commands that manage access policies: \<^verbatim>\<open>putacp.go\<close>, \<^verbatim>\<open>rmacp.go\<close>,
  \<^verbatim>\<open>listacp.go\<close> of \<^verbatim>\<open>src/cmd/fly-server\<close>.
\<close>

text \<open>
  The two loops of \<open>handlePutAcp\<close>: the strings of an array, or the first element that is
  not a string.
\<close>

fun take_strings :: "(string \<Rightarrow> string) \<Rightarrow> wvalue list \<Rightarrow> wvalue + string list" where
  "take_strings f [] = Inr []"
| "take_strings f (v # vs) =
     (case as_String v of
        Some x \<Rightarrow> (case take_strings f vs of Inl w \<Rightarrow> Inl w | Inr xs \<Rightarrow> Inr (f x # xs))
      | None \<Rightarrow> Inl v)"

definition policy_path :: "string \<Rightarrow> string" where
  "policy_path p = ''/'' @ Trim p ''/''"

text \<open>The end of \<open>handlePutAcp\<close>.\<close>

definition create_policy ::
  "'k env \<Rightarrow> string \<Rightarrow> string \<Rightarrow> string \<Rightarrow> string list \<Rightarrow> string list \<Rightarrow> sessionInfo \<Rightarrow> 'k server
     \<Rightarrow> outcome \<times> sessionInfo \<times> 'k server" where
  "create_policy e name verb act user_names paths s g =
     commit ''Failed to create policy''
       (PutAccessPolicy (fault e)
          \<lparr>Verb = verb, Action = hd act, PolicyName = name, Users = Some user_names,
           Paths = paths\<rparr>
          (flydb g)) s g"

definition handlePutAcp :: "'k env \<Rightarrow> 'k handler" where
  "handlePutAcp e args s g =
     (if length args \<noteq> 5
      then reply (NewError ''ARG'' ''Command PUTACP expects exactly 5 arguments'') s g
      else if singleUser s
      then reply (NewError ''ILLEGAL'' ''Cannot manage ACPs in single-user mode'') s g
      else if \<not> is_admin s
      then reply (NewError ''DENIED'' ''You are not allowed to manage users'') s g
      else case as_String (args ! 0) of
        Some name \<Rightarrow>
          (if length (TrimSpace name) = 0 then reply (NewError ''ARG'' ''Name is missing'') s g
           else case as_String (args ! 1) of
             Some verb \<Rightarrow>
               (if verb \<noteq> ''ALLOW'' \<and> verb \<noteq> ''DENY''
                then reply (NewErrorf ''ARG'' [''Verb should be ALLOW or DENY, got '', verb]) s g
                else case as_String (args ! 2) of
                  Some act \<Rightarrow>
                    (if act \<noteq> ''R'' \<and> act \<noteq> ''W''
                     then reply (NewErrorf ''ARG'' [''Action should be R or W, got '', act]) s g
                     else case as_Array (args ! 3) of
                       Some us \<Rightarrow>
                         (if length us = 0
                          then reply (NewError ''ARG'' ''At least one user must be specified'') s g
                          else case as_Array (args ! 4) of
                            Some ps \<Rightarrow>
                              (if length ps = 0
                               then reply (NewError ''ARG'' ''At least one path must be specified'')
                                      s g
                               else
                                 (case take_strings (\<lambda>x. x) us of
                                    Inl w \<Rightarrow>
                                      reply (type_error ''Usernames must be strings, got '' w) s g
                                  | Inr user_names \<Rightarrow>
                                      (case take_strings policy_path ps of
                                         Inl w \<Rightarrow>
                                           reply (type_error ''Paths must be strings, got '' w) s g
                                       | Inr paths \<Rightarrow>
                                           create_policy e name verb act user_names paths s g)))
                          | None \<Rightarrow> reply (type_error ''Path paramater should be an array, got '' (args ! 4))
                                   s g)
                     | None \<Rightarrow> reply (type_error ''User paramater should be an array, got '' (args ! 3)) s g)
                | None \<Rightarrow> reply (type_error ''Action should be a string, got '' (args ! 2)) s g)
           | None \<Rightarrow> reply (type_error ''Verb should be a string, got '' (args ! 1)) s g)
      | None \<Rightarrow> reply (type_error ''Name should be a string, got '' (args ! 0)) s g)"

definition handleRmAcp :: "'k env \<Rightarrow> 'k handler" where
  "handleRmAcp e args s g =
     (if length args \<noteq> 1
      then reply (NewError ''ARG'' ''Command RMACP expects exactly 1 argument'') s g
      else if singleUser s
      then reply (NewError ''ILLEGAL'' ''Cannot manage ACPs in single-user mode'') s g
      else if \<not> is_admin s
      then reply (NewError ''DENIED'' ''You are not allowed to manage users'') s g
      else case as_String (args ! 0) of
        Some name \<Rightarrow>
          commit_delete ''Policy not found'' ''Failed to delete policy''
            (DeleteAccessPolicy (fault e) name (flydb g)) s g
      | None \<Rightarrow> reply (type_error ''Name should be a string, got '' (args ! 0)) s g)"

text \<open>One row of the table that \<open>LISTACP\<close> answers with.\<close>

definition acp_row :: "policy \<Rightarrow> wvalue list" where
  "acp_row p =
     [NewString (PolicyName p), NewString (Verb p), NewString (show_rune_byte (Action p)),
      NewArray (map NewString (user_list p)), NewArray (map NewString (Paths p))]"

definition handleListAcp :: "'k handler" where
  "handleListAcp args s g =
     (if singleUser s
      then reply (NewError ''ILLEGAL'' ''Cannot manage ACPs in single-user mode'') s g
      else if \<not> is_admin s
      then reply (NewError ''DENIED'' ''You are not allowed to manage users'') s g
      else
        case foldl Add (0, 0, []) (map acp_row (FetchAllPolicies (flydb g))) of
          (rows, cols, d) \<Rightarrow> reply (Table rows cols d) s g)"

end
