(* ===== verification/Cmd_Files.thy ===== *)
theory Cmd_Files
  imports Server_State
begin

text \<open>
  The commands on files and folders: \<^verbatim>\<open>mkdir.go\<close>, \<^verbatim>\<open>touch.go\<close>,
  \<^verbatim>\<open>del.go\<close>, \<^verbatim>\<open>move.go\<close>, \<^verbatim>\<open>copy.go\<close>, \<^verbatim>\<open>list.go\<close>,
  \<^verbatim>\<open>stream.go\<close>, \<^verbatim>\<open>close.go\<close> of \<^verbatim>\<open>src/cmd/fly-server\<close>. (\<open>MOVE\<close> and
  \<open>COPY\<close> write the cleaned path back into their argument, which nothing reads afterwards.)
\<close>

definition virtual_path :: "string \<Rightarrow> string" where
  "virtual_path raw = ''/'' @ Trim raw ''/''"

definition put_sys :: "'k sys \<Rightarrow> 'k server \<Rightarrow> 'k server" where
  "put_sys k g = g\<lparr>sys := k\<rparr>"

definition no_such_file :: wvalue where
  "no_such_file = NewError ''NOTFOUND'' ''No such file or directory''"

definition unexpected_error :: wvalue where
  "unexpected_error = NewError ''ERR'' ''Unexpected error occurred''"

definition access_denied :: wvalue where
  "access_denied = NewError ''DENIED'' ''Access denied''"

text \<open>The two tests on the error of a resolved path.\<close>

fun resolve_error :: "vfs_error \<Rightarrow> wvalue" where
  "resolve_error ErrDenied = access_denied"
| "resolve_error ErrInvalid = no_such_file"
| "resolve_error ErrReserved = no_such_file"

definition handleMkdir :: "'k env \<Rightarrow> 'k handler" where
  "handleMkdir e args s g =
     (if length args \<noteq> 1
      then reply (NewError ''ARG'' ''Command MKDIR expects exactly one argument'') s g
      else case as_String (args ! 0) of
        Some rawPath \<Rightarrow>
          (case resolveWrite g s (virtual_path rawPath) of
             Inl ve \<Rightarrow> reply (resolve_error ve) s g
           | Inr realPath \<Rightarrow>
               (case MkdirAll (kern e) realPath (sys g) of
                  (Some _, k) \<Rightarrow> reply unexpected_error s (put_sys k g)
                | (None, k) \<Rightarrow> reply OK s (put_sys k g)))
      | None \<Rightarrow> reply (type_error ''Path should be a string, got '' (args ! 0)) s g)"

definition handleTouch :: "'k env \<Rightarrow> 'k handler" where
  "handleTouch e args s g =
     (if length args \<noteq> 1
      then reply (NewError ''ARG'' ''Command TOUCH expects exactly one argument'') s g
      else case as_String (args ! 0) of
        Some rawPath \<Rightarrow>
          (case resolveWrite g s (virtual_path rawPath) of
             Inl ve \<Rightarrow> reply (resolve_error ve) s g
           | Inr realPath \<Rightarrow>
               (case Chtimes (kern e) realPath (sys g) of
                  (None, k) \<Rightarrow> reply OK s (put_sys k g)
                | (Some (OsOther _), k) \<Rightarrow> reply unexpected_error s (put_sys k g)
                | (Some OsNotExist, k) \<Rightarrow>
                    (case Create (kern e) realPath k of
                       (None, k') \<Rightarrow> reply OK s (put_sys k' g)
                     | (Some OsNotExist, k') \<Rightarrow> reply no_such_file s (put_sys k' g)
                     | (Some (OsOther _), k') \<Rightarrow> reply unexpected_error s (put_sys k' g))))
      | None \<Rightarrow> reply (type_error ''Path should be a string, got '' (args ! 0)) s g)"

definition handleDel :: "'k env \<Rightarrow> 'k handler" where
  "handleDel e args s g =
     (if length args \<noteq> 1
      then reply (NewError ''ARG'' ''Command DEL expects exactly one argument'') s g
      else case as_String (args ! 0) of
        Some rawPath \<Rightarrow>
          (case resolveWrite g s (virtual_path rawPath) of
             Inl ve \<Rightarrow> reply (resolve_error ve) s g
           | Inr realPath \<Rightarrow>
               (case Stat (kern e) realPath (sys g) of
                  (Inl OsNotExist, k) \<Rightarrow> reply no_such_file s (put_sys k g)
                | (Inl (OsOther _), k) \<Rightarrow> reply unexpected_error s (put_sys k g)
                | (Inr info, k) \<Rightarrow>
                    (case (if InfoKind info = Directory then RemoveAll (kern e) realPath k
                           else Remove (kern e) realPath k) of
                       (Some _, k') \<Rightarrow> reply unexpected_error s (put_sys k' g)
                     | (None, k') \<Rightarrow> reply OK s (put_sys k' g))))
      | None \<Rightarrow> reply (type_error ''Path should be a string, got '' (args ! 0)) s g)"

text \<open>
  The part \<open>MOVE\<close> and \<open>COPY\<close> share: both paths resolved, the source for reading, the
  destination for writing; a denial of either comes before every other error.
\<close>

definition resolve_two :: "'k server \<Rightarrow> sessionInfo \<Rightarrow> string \<Rightarrow> string \<Rightarrow> wvalue + string \<times> string" where
  "resolve_two g s srcRaw dstRaw =
     (let src = resolveRead g s (virtual_path srcRaw);
          dst = resolveWrite g s (virtual_path dstRaw)
      in
      if src = Inl ErrDenied \<or> dst = Inl ErrDenied then Inl access_denied
      else case src of
        Inl _ \<Rightarrow> Inl no_such_file
      | Inr p \<Rightarrow> (case dst of Inl _ \<Rightarrow> Inl no_such_file | Inr q \<Rightarrow> Inr (p, q)))"

definition handleMove :: "'k env \<Rightarrow> 'k handler" where
  "handleMove e args s g =
     (if length args \<noteq> 2
      then reply (NewError ''ARG'' ''Command MOVE expects exactly 2 arguments'') s g
      else case as_String (args ! 0) of
        Some srcRaw \<Rightarrow>
          (case as_String (args ! 1) of
             Some dstRaw \<Rightarrow>
               (case resolve_two g s srcRaw dstRaw of
                  Inl w \<Rightarrow> reply w s g
                | Inr (src, dst) \<Rightarrow>
                    (case Rename (kern e) src dst (sys g) of
                       (Some OsNotExist, k) \<Rightarrow> reply no_such_file s (put_sys k g)
                     | (Some (OsOther _), k) \<Rightarrow> reply unexpected_error s (put_sys k g)
                     | (None, k) \<Rightarrow> reply OK s (put_sys k g)))
           | None \<Rightarrow> reply (type_error ''Destination should be a string, got '' (args ! 1)) s g)
      | None \<Rightarrow> reply (type_error ''Source should be a string, got '' (args ! 0)) s g)"

text \<open>
  \<open>COPY\<close> looks at the wrong error variable after opening the stream, so that a full table is
  answered with the integer 0.
\<close>

definition handleCopy :: "'k env \<Rightarrow> 'k handler" where
  "handleCopy e args s g =
     (if length args \<noteq> 2
      then reply (NewError ''ARG'' ''Command COPY expects exactly 2 arguments'') s g
      else case as_String (args ! 0) of
        Some srcRaw \<Rightarrow>
          (case as_String (args ! 1) of
             Some dstRaw \<Rightarrow>
               (case resolve_two g s srcRaw dstRaw of
                  Inl w \<Rightarrow> reply w s g
                | Inr (src, dst) \<Rightarrow>
                    (case Stat (kern e) src (sys g) of
                       (Inl OsNotExist, k) \<Rightarrow> reply no_such_file s (put_sys k g)
                     | (Inl (OsOther _), k) \<Rightarrow>
                         reply (NewError ''ERROR'' ''An unexpected error occurred'') s (put_sys k g)
                     | (Inr info, k) \<Rightarrow>
                         if InfoKind info \<noteq> Regular
                         then reply (NewError ''ARG'' ''Source should be a regular file'') s
                                (put_sys k g)
                         else
                           (case NewCopyStream src dst (session s) of
                              (Inl wireErr, ss) \<Rightarrow>
                                reply (NewInteger 0) (s\<lparr>session := ss\<rparr>) (put_sys k g)
                            | (Inr i, ss) \<Rightarrow>
                                reply (NewInteger (int i)) (s\<lparr>session := ss\<rparr>) (put_sys k g))))
           | None \<Rightarrow> reply (type_error ''Destination should be a string, got '' (args ! 1)) s g)
      | None \<Rightarrow> reply (type_error ''Source should be a string, got '' (args ! 0)) s g)"

text \<open>\<open>addFile\<close> skips what is neither a folder nor a regular file.\<close>

definition addFile :: "table \<Rightarrow> file_info \<Rightarrow> table" where
  "addFile t info =
     (case InfoKind info of
        Directory \<Rightarrow>
          Add t [NewString ''D'', NewString (InfoName info), Null, NewString (InfoModTime info)]
      | Regular \<Rightarrow>
          Add t [NewString ''F'', NewString (InfoName info), NewInteger (InfoSize info),
                 NewString (InfoModTime info)]
      | Special \<Rightarrow> t)"

text \<open>The loop over a folder: \<open>None\<close> when the information on an entry cannot be read.\<close>

fun list_entries ::
  "'k server \<Rightarrow> sessionInfo \<Rightarrow> string \<Rightarrow> (os_err + file_info) list \<Rightarrow> table \<Rightarrow> table option" where
  "list_entries g s vPath [] t = Some t"
| "list_entries g s vPath (Inl _ # fs) t = None"
| "list_entries g s vPath (Inr info # fs) t =
     (case resolveRead g s (Join [vPath, InfoName info]) of
        Inr _ \<Rightarrow> list_entries g s vPath fs (addFile t info)
      | Inl _ \<Rightarrow> list_entries g s vPath fs t)"

definition table_value :: "table \<Rightarrow> wvalue" where
  "table_value t = (case t of (rows, cols, d) \<Rightarrow> Table rows cols d)"

definition handleList :: "'k env \<Rightarrow> 'k handler" where
  "handleList e args s g =
     (if length args \<noteq> 1
      then reply (NewError ''ARG'' ''Command LIST expects exactly one argument'') s g
      else case as_String (args ! 0) of
        Some rawPath \<Rightarrow>
          (let vPath = virtual_path rawPath in
           case resolveRead g s vPath of
             Inl ve \<Rightarrow> reply (resolve_error ve) s g
           | Inr realPath \<Rightarrow>
               (case Stat (kern e) realPath (sys g) of
                  (Inl OsNotExist, k) \<Rightarrow> reply no_such_file s (put_sys k g)
                | (Inl (OsOther _), k) \<Rightarrow> reply unexpected_error s (put_sys k g)
                | (Inr info, k) \<Rightarrow>
                    if InfoKind info = Directory then
                      (case ReadDir (kern e) realPath k of
                         (Inl _, k') \<Rightarrow> reply unexpected_error s (put_sys k' g)
                       | (Inr files, k') \<Rightarrow>
                           (case list_entries g s vPath files (0, 0, []) of
                              None \<Rightarrow> reply unexpected_error s (put_sys k' g)
                            | Some t \<Rightarrow> reply (table_value t) s (put_sys k' g)))
                    else reply (table_value (addFile (0, 0, []) info)) s (put_sys k g)))
      | None \<Rightarrow> reply (type_error ''Path should be a string, got '' (args ! 0)) s g)"

definition handleStream :: "'k env \<Rightarrow> 'k handler" where
  "handleStream e args s g =
     (if length args \<noteq> 2
      then reply (NewError ''ARG'' ''Command STREAM expects exactly 2 arguments'') s g
      else case as_String (args ! 0) of
        Some md \<Rightarrow>
          (case as_String (args ! 1) of
             Some rawPath \<Rightarrow>
               (let vPath = ''/'' @ TrimPrefix rawPath ''/'' in
                if md \<noteq> ''W'' \<and> md \<noteq> ''R''
                then reply (NewErrorf ''ARG'' [''Unsupported mode: '', md]) s g
                else
                  let writing = (md = ''W'') in
                  (case resolve_path g s vPath writing of
                     Inl ve \<Rightarrow> reply (resolve_error ve) s g
                   | Inr realPath \<Rightarrow>
                       if writing then
                         (case NewWriteStream (kern e) realPath (session s) (sys g) of
                            (None, ss, k) \<Rightarrow>
                              (Panicked ''runtime error: invalid memory address or nil pointer dereference'',
                               s\<lparr>session := ss\<rparr>, put_sys k g)
                          | (Some (Inl w), ss, k) \<Rightarrow> reply w (s\<lparr>session := ss\<rparr>) (put_sys k g)
                          | (Some (Inr i), ss, k) \<Rightarrow>
                              reply (NewInteger (int i)) (s\<lparr>session := ss\<rparr>) (put_sys k g))
                       else
                         (case NewReadStream (kern e) realPath (session s) (sys g) of
                            (Inl w, ss, k) \<Rightarrow> reply w (s\<lparr>session := ss\<rparr>) (put_sys k g)
                          | (Inr i, ss, k) \<Rightarrow>
                              reply (NewInteger (int i)) (s\<lparr>session := ss\<rparr>) (put_sys k g))))
           | None \<Rightarrow> reply (type_error ''Path should be a string, got '' (args ! 1)) s g)
      | None \<Rightarrow> reply (type_error ''Mode should be a string, got '' (args ! 0)) s g)"

definition handleClose :: "'k handler" where
  "handleClose args s g =
     (if length args \<noteq> 1
      then reply (NewError ''ARG'' ''Command CLOSE expects exactly one argument'') s g
      else case as_Integer (args ! 0) of
        Some streamId \<Rightarrow>
          (case CloseStream streamId (session s) of
             (False, ss) \<Rightarrow>
               reply (NewError ''ARG'' ''Stream is already closed'') (s\<lparr>session := ss\<rparr>) g
           | (True, ss) \<Rightarrow> reply OK (s\<lparr>session := ss\<rparr>) g)
      | None \<Rightarrow> reply (NewError ''ARG'' ''Command CLOSE expects an integer as first argument'') s g)"

end
