(* ===== verification/Go_Ascii85.thy ===== *)
theory Go_Ascii85
  imports Go_Fmt
begin

text \<open>
  Package \<^verbatim>\<open>encoding/ascii85\<close>: \<open>Encode\<close>, and \<open>Decode\<close> with \<open>flush\<close> set, into a
  buffer of a given length. Four bytes are a number below \<open>2 ^ 32\<close>, written with five digits
  in base 85.
\<close>

section \<open>Code\<close>

definition u32 :: "nat \<Rightarrow> nat" where
  "u32 n = n mod 2 ^ 32"

definition quad :: "char \<Rightarrow> char \<Rightarrow> char \<Rightarrow> char \<Rightarrow> nat" where
  "quad a b c d = ((byte_val a * 256 + byte_val b) * 256 + byte_val c) * 256 + byte_val d"

definition a85_digit :: "nat \<Rightarrow> char" where
  "a85_digit n = char_of (33 + n)"

definition a85_digits :: "nat \<Rightarrow> bytes" where
  "a85_digits v =
     [a85_digit (v div 85 ^ 4 mod 85), a85_digit (v div 85 ^ 3 mod 85),
      a85_digit (v div 85 ^ 2 mod 85), a85_digit (v div 85 mod 85), a85_digit (v mod 85)]"

definition quad_bytes :: "nat \<Rightarrow> bytes" where
  "quad_bytes v =
     [char_of (v div 2 ^ 24 mod 256), char_of (v div 2 ^ 16 mod 256),
      char_of (v div 2 ^ 8 mod 256), char_of (v mod 256)]"

abbreviation zero_byte :: char where "zero_byte \<equiv> CHR 0x00"

fun a85_encode :: "bytes \<Rightarrow> bytes" where
  "a85_encode (a # b # c # d # rest) =
     (let v = quad a b c d in
      if v = 0 then CHR ''z'' # a85_encode rest else a85_digits v @ a85_encode rest)"
| "a85_encode [a, b, c] = take 4 (a85_digits (quad a b c zero_byte))"
| "a85_encode [a, b] = take 3 (a85_digits (quad a b zero_byte zero_byte))"
| "a85_encode [a] = take 2 (a85_digits (quad a zero_byte zero_byte zero_byte))"
| "a85_encode [] = []"

text \<open>The end of the input: a fragment of one digit is corrupt, others are filled up.\<close>

definition a85_flush :: "nat \<Rightarrow> nat \<Rightarrow> bytes option" where
  "a85_flush nb v =
     (if nb = 0 then Some []
      else if nb = 1 then None
      else Some (take (nb - 1) (quad_bytes (((\<lambda>v. u32 (v * 85 + 84)) ^^ (5 - nb)) v))))"

text \<open>
  The loop: \<open>room\<close> is what is left of the destination, \<open>nb\<close> digits of the current group have
  the value \<open>v\<close>. With fewer than four bytes of room it stops, without an error. \<open>None\<close> is
  corrupt input.
\<close>

fun a85_loop :: "nat \<Rightarrow> nat \<Rightarrow> nat \<Rightarrow> bytes \<Rightarrow> bytes option" where
  "a85_loop room nb v [] = a85_flush nb v"
| "a85_loop room nb v (b # s) =
     (if room < 4 then Some []
      else if byte_val b \<le> 32 then a85_loop room nb v s
      else if b = CHR ''z'' \<and> nb = 0 then
        map_option (\<lambda>out. quad_bytes 0 @ out) (a85_loop (room - 4) 0 0 s)
      else if 33 \<le> byte_val b \<and> byte_val b \<le> 117 then
        let v' = u32 (v * 85 + (byte_val b - 33)) in
        if Suc nb = 5 then map_option (\<lambda>out. quad_bytes v' @ out) (a85_loop (room - 4) 0 0 s)
        else a85_loop room (Suc nb) v' s
      else None)"

definition a85_decode :: "nat \<Rightarrow> bytes \<Rightarrow> bytes option" where
  "a85_decode dst_len src = a85_loop dst_len 0 0 src"

declare u32_def [go_defs] quad_def [go_defs] a85_digit_def [go_defs] a85_digits_def [go_defs]
declare quad_bytes_def [go_defs] a85_flush_def [go_defs] a85_decode_def [go_defs]

section \<open>Round trip\<close>

lemma byte_val_less: "byte_val c < 256"
  by simp

lemma byte_val_digit: "n < 85 \<Longrightarrow> byte_val (a85_digit n) = 33 + n"
  by (simp add: a85_digit_def)

lemma byte_val_z: "byte_val (CHR ''z'') = 122"
  by simp

lemma digit_not_z: "n < 85 \<Longrightarrow> a85_digit n \<noteq> CHR ''z''"
  using byte_val_digit [of n] byte_val_z by force

lemma quad_nat:
  fixes a b c d :: nat
  assumes "a < 256" "b < 256" "c < 256" "d < 256"
  defines "q \<equiv> ((a * 256 + b) * 256 + c) * 256 + d"
  shows "q < 4294967296" and "q mod 256 = d" and "q div 256 = (a * 256 + b) * 256 + c"
    and "q div 65536 = a * 256 + b" and "q div 16777216 = a"
proof -
  show 1: "q div 256 = (a * 256 + b) * 256 + c" using assms by simp
  then have "q div 256 div 256 = a * 256 + b" using assms by simp
  then show 2: "q div 65536 = a * 256 + b" by (simp flip: div_mult2_eq)
  then have "q div 65536 div 256 = a" using assms by simp
  then show "q div 16777216 = a" by (simp flip: div_mult2_eq)
  show "q mod 256 = d" unfolding q_def mod_mult_self3 using assms by simp
qed (use assms in simp_all)

lemma quad_less: "quad a b c d < 2 ^ 32"
  using quad_nat(1) [OF byte_val_less byte_val_less byte_val_less byte_val_less, of a b c d]
  by (simp add: quad_def)

lemma quad_bytes_quad: "quad_bytes (quad a b c d) = [a, b, c, d]"
proof -
  have q: "quad a b c d div 256 = (byte_val a * 256 + byte_val b) * 256 + byte_val c"
    "quad a b c d div 65536 = byte_val a * 256 + byte_val b" "quad a b c d div 16777216 = byte_val a"
    "quad a b c d mod 256 = byte_val d"
    using quad_nat [OF byte_val_less byte_val_less byte_val_less byte_val_less, of a b c d]
    by (simp_all add: quad_def)
  have p: "(2 :: nat) ^ 8 = 256" "(2 :: nat) ^ 16 = 65536" "(2 :: nat) ^ 24 = 16777216" by simp_all
  show ?thesis
    by (simp only: quad_bytes_def p q mod_mult_self3 mod_less [OF byte_val_less] char_of_char)
qed

text \<open>One digit of the input.\<close>

lemma a85_loop_digit:
  assumes "n < 85" and "4 \<le> room"
  shows "a85_loop room nb v (a85_digit n # s) =
    (if nb = 4 then map_option (\<lambda>out. quad_bytes (u32 (v * 85 + n)) @ out) (a85_loop (room - 4) 0 0 s)
     else a85_loop room (Suc nb) (u32 (v * 85 + n)) s)"
  using assms digit_not_z [OF assms(1)] by (simp add: byte_val_digit Let_def)

lemma u32_small [simp]: "n < 2 ^ 32 \<Longrightarrow> u32 n = n"
  by (simp add: u32_def)

text \<open>The five digits, and reading the first few of them.\<close>

lemma a85_digits_eq:
  "a85_digits v = map (\<lambda>x. a85_digit (x mod 85))
     [v div 85 div 85 div 85 div 85, v div 85 div 85 div 85, v div 85 div 85, v div 85, v]"
  by (simp add: a85_digits_def flip: div_mult2_eq)

lemma u32_step: "x < 2 ^ 32 \<Longrightarrow> u32 (x div 85 * 85 + x mod 85) = x"
  by simp

lemma u32_first: "x < 85 \<Longrightarrow> u32 (0 * 85 + x mod 85) = x"
  by (simp add: u32_def)

lemma a85_digits_bounds:
  fixes v :: nat
  assumes "v < 2 ^ 32"
  shows "v div 85 < 2 ^ 32" "v div 85 div 85 < 2 ^ 32" "v div 85 div 85 div 85 < 2 ^ 32"
    "v div 85 div 85 div 85 div 85 < 85"
  using assms by (simp_all add: less_mult_imp_div_less flip: div_mult2_eq)

lemma a85_loop_prefix:
  assumes "v < 2 ^ 32" and "4 \<le> room"
  defines "v1 \<equiv> v div 85" and "v2 \<equiv> v div 85 div 85" and "v3 \<equiv> v div 85 div 85 div 85"
    and "v4 \<equiv> v div 85 div 85 div 85 div 85"
  shows "a85_loop room 0 0 (take 2 (a85_digits v) @ s) = a85_loop room 2 v3 s"
    and "a85_loop room 0 0 (take 3 (a85_digits v) @ s) = a85_loop room 3 v2 s"
    and "a85_loop room 0 0 (take 4 (a85_digits v) @ s) = a85_loop room 4 v1 s"
    and "a85_loop room 0 0 (a85_digits v @ s)
      = map_option (\<lambda>out. quad_bytes v @ out) (a85_loop (room - 4) 0 0 s)"
proof -
  note b = a85_digits_bounds [OF assms(1), folded v1_def v2_def v3_def v4_def]
  have d: "a85_digits v = map (\<lambda>x. a85_digit (x mod 85)) [v4, v3, v2, v1, v]"
    by (simp add: a85_digits_eq assms)
  have c: "v4 = v3 div 85" "v3 = v2 div 85" "v2 = v1 div 85" "v1 = v div 85" by (simp_all add: assms)
  have 1: "a85_loop room 0 0 (a85_digit (v4 mod 85) # t) = a85_loop room (Suc 0) v4 t" for t
    using assms(2) u32_first [OF b(4)] by (simp only: a85_loop_digit) simp
  have 2: "a85_loop room (Suc 0) v4 (a85_digit (v3 mod 85) # t) = a85_loop room 2 v3 t" for t
    using assms(2) u32_step [OF b(3)] by (simp only: a85_loop_digit c(1)) (simp add: numeral_2_eq_2)
  have 3: "a85_loop room 2 v3 (a85_digit (v2 mod 85) # t) = a85_loop room 3 v2 t" for t
    using assms(2) u32_step [OF b(2)] by (simp only: a85_loop_digit c(2)) (simp add: numeral_3_eq_3)
  have 4: "a85_loop room 3 v2 (a85_digit (v1 mod 85) # t) = a85_loop room 4 v1 t" for t
    using assms(2) u32_step [OF b(1)] by (simp only: a85_loop_digit c(3)) simp
  have 5: "a85_loop room 4 v1 (a85_digit (v mod 85) # t)
      = map_option (\<lambda>out. quad_bytes v @ out) (a85_loop (room - 4) 0 0 t)" for t
    using assms(2) u32_step [OF assms(1)] by (simp only: a85_loop_digit c(4)) simp
  show "a85_loop room 0 0 (take 2 (a85_digits v) @ s) = a85_loop room 2 v3 s"
    by (simp add: d 1 2 del: a85_loop.simps)
  show "a85_loop room 0 0 (take 3 (a85_digits v) @ s) = a85_loop room 3 v2 s"
    by (simp add: d 1 2 3 del: a85_loop.simps)
  show "a85_loop room 0 0 (take 4 (a85_digits v) @ s) = a85_loop room 4 v1 s"
    by (simp add: d 1 2 3 4 del: a85_loop.simps)
  show "a85_loop room 0 0 (a85_digits v @ s)
      = map_option (\<lambda>out. quad_bytes v @ out) (a85_loop (room - 4) 0 0 s)"
    by (simp add: d 1 2 3 4 5 del: a85_loop.simps)
qed

text \<open>
  A short fragment: its number has zero bytes at the end; the digits that are missing are
  filled up with the largest digit, which does not reach the bytes that count.
\<close>

lemma fill_up:
  fixes v w :: nat
  assumes "v < 2 ^ 32" and "v mod 2 ^ k = 0" and "(85 :: nat) ^ n \<le> 2 ^ k" and "w = v div 85 ^ n"
    and "k \<le> 32"
  shows "(w * 85 ^ n + (85 ^ n - 1)) div 2 ^ k = v div 2 ^ k"
    and "w * 85 ^ n + (85 ^ n - 1) < 2 ^ 32"
proof -
  let ?x = "w * 85 ^ n + (85 ^ n - (1 :: nat))"
  obtain p where p85: "(85 :: nat) ^ n = Suc p" by (metis not0_implies_Suc power_not_zero zero_neq_numeral)
  have m: "v mod Suc p \<le> p" and e: "v = w * Suc p + v mod Suc p"
    unfolding assms(4) p85 by (simp_all add: less_Suc_eq_le [symmetric] del: mult_Suc_right)
  have le: "Suc p \<le> 2 ^ k" using assms(3) p85 by simp
  have lo: "v \<le> ?x" and hi: "?x < v + 2 ^ k"
    using m e le unfolding p85 by linarith+
  have v: "v = v div 2 ^ k * 2 ^ k" using assms(2) by (metis add.right_neutral div_mult_mod_eq)
  have "?x div 2 ^ k < Suc (v div 2 ^ k)"
    by (rule less_mult_imp_div_less) (use hi v in \<open>simp add: add.commute\<close>)
  moreover have "v div 2 ^ k \<le> ?x div 2 ^ k" by (rule div_le_mono [OF lo])
  ultimately show eq: "?x div 2 ^ k = v div 2 ^ k" by simp
  have p: "(2 :: nat) ^ 32 = 2 ^ (32 - k) * 2 ^ k" using assms(5) by (simp flip: power_add)
  have "v div 2 ^ k < 2 ^ (32 - k)"
    by (rule less_mult_imp_div_less) (use assms(1) p in simp)
  then show "?x < 2 ^ 32"
    unfolding eq [symmetric] p by (simp add: div_less_iff_less_mult)
qed

lemma fill_iter:
  "w * 85 ^ n + (85 ^ n - 1) < 2 ^ 32 \<Longrightarrow>
   ((\<lambda>v. u32 (v * 85 + 84)) ^^ n) w = w * 85 ^ n + (85 ^ n - 1)"
proof (induction n)
  case (Suc n)
  obtain p where p: "(85 :: nat) ^ n = Suc p" by (metis not0_implies_Suc power_not_zero zero_neq_numeral)
  have "((\<lambda>v. u32 (v * 85 + 84)) ^^ n) w = w * 85 ^ n + (85 ^ n - 1)"
    by (rule Suc.IH) (use Suc.prems in \<open>simp add: p algebra_simps\<close>)
  with Suc.prems show ?case by (simp add: p algebra_simps)
qed simp

lemma take_quad_bytes:
  assumes "x div 2 ^ k = v div 2 ^ k" and "(j, k) \<in> {(1, 24), (2, 16), (3, 8)}"
  shows "take j (quad_bytes x) = take j (quad_bytes v)"
proof -
  have s: "y div 2 ^ 24 = y div 2 ^ 16 div 2 ^ 8" "y div 2 ^ 16 = y div 2 ^ 8 div 2 ^ 8" for y :: nat
    by (simp_all flip: div_mult2_eq)
  from assms(2) consider "j = 1" "k = 24" | "j = 2" "k = 16" | "j = 3" "k = 8" by auto
  then show ?thesis
  proof cases
    case 1
    then show ?thesis using assms(1) by (simp add: quad_bytes_def)
  next
    case 2
    then have "x div 2 ^ 16 = v div 2 ^ 16" using assms(1) by simp
    then have "x div 2 ^ 24 = v div 2 ^ 24" unfolding s(1) by simp
    with 2 assms(1) show ?thesis by (simp add: quad_bytes_def numeral_2_eq_2)
  next
    case 3
    then have e: "x div 2 ^ 8 = v div 2 ^ 8" using assms(1) by simp
    then have f: "x div 2 ^ 16 = v div 2 ^ 16" unfolding s(2) by simp
    then have "x div 2 ^ 24 = v div 2 ^ 24" unfolding s(1) by simp
    with 3 e f show ?thesis by (simp add: quad_bytes_def numeral_3_eq_3)
  qed
qed

lemma a85_flush_fragment:
  assumes "v < 2 ^ 32" and "v mod 2 ^ k = 0" and "(j, k, n) \<in> {(1, 24, 3), (2, 16, 2), (3, 8, 1)}"
  shows "a85_flush (Suc j) (v div 85 ^ n) = Some (take j (quad_bytes v))"
proof -
  have p: "(85 :: nat) ^ n \<le> 2 ^ k" "k \<le> 32" "5 - Suc j = n" "j \<noteq> 0" "(j, k) \<in> {(1, 24), (2, 16), (3, 8)}"
    using assms(3) by auto
  note f = fill_up [OF assms(1,2) p(1) refl p(2)]
  show ?thesis
    unfolding a85_flush_def p(3) fill_iter [OF f(2)] using take_quad_bytes [OF f(1) p(5)] p(4) by simp
qed

lemma quad_zeros:
  "quad a b c zero_byte mod 2 ^ 8 = 0" "quad a b zero_byte zero_byte mod 2 ^ 16 = 0"
  "quad a zero_byte zero_byte zero_byte mod 2 ^ 24 = 0"
proof -
  have "quad a b zero_byte zero_byte = (byte_val a * 256 + byte_val b) * 65536" by (simp add: quad_def)
  then show "quad a b zero_byte zero_byte mod 2 ^ 16 = 0" by simp
  have "quad a zero_byte zero_byte zero_byte = byte_val a * 16777216" by (simp add: quad_def)
  then show "quad a zero_byte zero_byte zero_byte mod 2 ^ 24 = 0" by simp
qed (simp add: quad_def)

lemma div_85s: "v div 85 div 85 = v div 85 ^ 2" "v div 85 div 85 div 85 = (v :: nat) div 85 ^ 3"
  by (simp_all flip: div_mult2_eq)

lemma a85_roundtrip_room:
  "4 * ((length x + 3) div 4) \<le> room \<Longrightarrow> a85_loop room 0 0 (a85_encode x) = Some x"
proof (induction x arbitrary: room rule: a85_encode.induct)
  case (1 a b c d rest)
  have "(x + 7) div 4 = Suc ((x + 3) div 4)" for x :: nat by presburger
  from this [of "length rest"] have r: "4 \<le> room" "4 * ((length rest + 3) div 4) \<le> room - 4"
    using "1.prems" by (simp_all add: add.commute)
  show ?case
  proof (cases "quad a b c d = 0")
    case True
    then have "quad_bytes 0 = [a, b, c, d]" using quad_bytes_quad [of a b c d] by simp
    with True r "1.IH"(1) show ?thesis by (simp add: Let_def)
  next
    case False
    with r "1.IH"(2) [OF refl False r(2)] show ?thesis
      by (simp add: Let_def a85_loop_prefix(4) [OF quad_less] quad_bytes_quad)
  qed
next
  case (2 a b c)
  then show ?case
    using a85_loop_prefix(3) [OF quad_less, of room a b c zero_byte "[]"]
      a85_flush_fragment [OF quad_less quad_zeros(1), of 3 1 a b c]
    by (simp add: quad_bytes_quad)
next
  case (3 a b)
  then show ?case
    using a85_loop_prefix(2) [OF quad_less, of room a b zero_byte zero_byte "[]"]
      a85_flush_fragment [OF quad_less quad_zeros(2), of 2 2 a b]
    by (simp add: quad_bytes_quad div_85s)
next
  case (4 a)
  then show ?case
    using a85_loop_prefix(1) [OF quad_less, unfolded div_85s(2), of room a zero_byte zero_byte
        zero_byte "[]"] a85_flush_fragment [OF quad_less quad_zeros(3), of 1 3 a]
    by (simp add: quad_bytes_quad numeral_2_eq_2)
qed (simp add: a85_flush_def)

lemma a85_roundtrip:
  "4 * ((length x + 3) div 4) \<le> n \<Longrightarrow> a85_decode n (a85_encode x) = Some x"
  by (simp add: a85_decode_def a85_roundtrip_room)

text \<open>What the encoder writes are printable characters.\<close>

lemma a85_digits_LF: "LF \<notin> set (a85_digits v)"
proof -
  have "LF \<noteq> a85_digit (x mod 85)" for x
  proof
    assume "LF = a85_digit (x mod 85)"
    then have "byte_val LF = 33 + x mod 85" using byte_val_digit [of "x mod 85"] by simp
    then show False by simp
  qed
  then show ?thesis by (simp add: a85_digits_eq)
qed

lemma a85_encode_LF: "LF \<notin> set (a85_encode x)"
  by (induction x rule: a85_encode.induct)
    (auto simp: Let_def a85_digits_LF dest!: in_set_takeD)

text \<open>Without the abbreviation for zeros the encoded form leaves enough room for decoding.\<close>

lemma a85_encode_length:
  "CHR ''z'' \<notin> set (a85_encode x) \<Longrightarrow>
   length (a85_encode x)
     = 5 * (length x div 4) + (if length x mod 4 = 0 then 0 else Suc (length x mod 4))"
proof (induction x rule: a85_encode.induct)
  case (1 a b c d rest)
  from 1(3) have "quad a b c d \<noteq> 0" by (simp add: Let_def split: if_splits)
  then have e: "a85_encode (a # b # c # d # rest) = a85_digits (quad a b c d) @ a85_encode rest"
    by (simp add: Let_def)
  have four: "(4 + n) div 4 = Suc (n div 4)" "(4 + n) mod 4 = n mod 4" for n :: nat by simp_all
  have l: "length (a # b # c # d # rest) = 4 + length rest" by simp
  from 1 show ?case unfolding e l four by (auto simp: a85_digits_def \<open>quad a b c d \<noteq> 0\<close>)
qed (simp_all add: a85_digits_def)

lemma a85_encode_room:
  assumes "CHR ''z'' \<notin> set (a85_encode x)" and "12 \<le> length x"
  shows "4 * ((length x + 3) div 4) \<le> length (a85_encode x)"
proof -
  define q r where "q = length x div 4" and "r = length x mod 4"
  have x: "length x = 4 * q + r" and r: "r < 4" by (simp_all add: q_def r_def)
  with assms(2) have q: "3 \<le> q" by linarith
  have "length (a85_encode x) = 5 * q + (if r = 0 then 0 else Suc r)"
    using a85_encode_length [OF assms(1)] by (simp add: q_def r_def)
  moreover have "(length x + 3) div 4 = q + (r + 3) div 4" unfolding x by simp
  moreover have "(r + 3) div 4 = (if r = 0 then 0 else 1)"
  proof (cases "r = 0")
    case False
    then have "(r + 3) div 4 = 1" using r by (intro div_nat_eqI) simp_all
    with False show ?thesis by simp
  qed simp
  ultimately show ?thesis using q by (cases "r = 0") simp_all
qed

lemma a85_digits_z: "CHR ''z'' \<notin> set (a85_digits v)"
proof -
  have "CHR ''z'' \<noteq> a85_digit (x mod 85)" for x
    using digit_not_z [of "x mod 85"] by simp
  then show ?thesis by (simp add: a85_digits_eq)
qed

lemma zero_byte_eq: "char_of (0 :: nat) = zero_byte"
  by (simp add: char_of_def)

lemma quad_nonzero: "zero_byte \<noteq> a \<Longrightarrow> 0 < quad a b c d"
proof -
  assume "zero_byte \<noteq> a"
  then have "byte_val a \<noteq> 0" by (metis char_of_char zero_byte_eq)
  then show ?thesis by (simp add: quad_def)
qed

lemma a85_encode_no_z: "zero_byte \<notin> set x \<Longrightarrow> CHR ''z'' \<notin> set (a85_encode x)"
  by (induction x rule: a85_encode.induct)
    (auto simp: Let_def a85_digits_z quad_nonzero dest!: in_set_takeD)

end
