(* ===== verification/Cmd_Auth.thy ===== *)
theory Cmd_Auth
  imports Server_State Go_Ascii85 Wire_Codec
begin

text \<open>
  Authentication: \<^verbatim>\<open>ping.go\<close>, \<^verbatim>\<open>whoami.go\<close>, \<^verbatim>\<open>auth.go\<close> and
  \<^verbatim>\<open>token.go\<close> of \<^verbatim>\<open>src/cmd/fly-server\<close>. Points in time are nanoseconds; their
  formatting and parsing are parameters.
\<close>

definition five_minutes :: int where "five_minutes = 5 * 60 * 1000000000"

section \<open>PING, WHOAMI, TOKEN\<close>

definition handlePing :: "'k handler" where
  "handlePing args s g = reply (NewString ''PONG'') s g"

definition handleWhoAmI :: "'k handler" where
  "handleWhoAmI args s g =
     (if username s = [] then reply Null s g else reply (NewString (username s)) s g)"

definition token_payload :: "string \<Rightarrow> string \<Rightarrow> bytes" where
  "token_payload name expiry = WriteTo (NewArray [NewString name, NewString expiry])"

definition handleToken :: "'k env \<Rightarrow> 'k handler" where
  "handleToken e args s g =
     (if singleUser s
      then reply (NewError ''ILLEGAL'' ''Cannot create an authentication token in single-user mode'')
             s g
      else if username s = []
      then reply (NewError ''DENIED''
             ''Cannot create an authentication token without being authenticated'') s g
      else case tokenKey g of
        None \<Rightarrow>
          reply (NewError ''ERROR'' ''Token authentication is not supported at this time'') s g
      | Some key \<Rightarrow>
          let plaintext = token_payload (username s) (fmt_time e (now g + five_minutes));
              g' = g\<lparr>rand := Suc (rand g)\<rparr>
          in
          (case AesEncrypt (aead e) (rand_bytes e (rand g) nonce_size) plaintext key of
             None \<Rightarrow> reply (NewError ''ERROR'' ''An unexpected error occurred'') s g'
           | Some encrypted \<Rightarrow> reply (NewString (a85_encode encrypted)) s g'))"

section \<open>AUTH\<close>

definition verifyPassword :: "'k env \<Rightarrow> handle \<Rightarrow> string \<Rightarrow> string \<Rightarrow> bool" where
  "verifyPassword e db name pw =
     (case FindUser db name of
        None \<Rightarrow> False
      | Some u \<Rightarrow> CompareHashAndPassword (bc e) (Password u) pw = Match)"

definition handlePasswordAuth :: "'k env \<Rightarrow> 'k handler" where
  "handlePasswordAuth e args s g =
     (if length args \<noteq> 3
      then reply (NewError ''ARG'' ''Password authentication requires a username and a password'')
             s g
      else case as_String (args ! 1) of
        Some name \<Rightarrow>
          (case as_String (args ! 2) of
             Some pw \<Rightarrow>
               if \<not> verifyPassword e (flydb g) name pw
               then reply (NewError ''DENIED'' ''Authentication failed'') s g
               else reply OK (changeUser (flydb g) name s) g
           | None \<Rightarrow> reply (type_error ''Password should be a string, got '' (args ! 2)) s g)
      | None \<Rightarrow> reply (type_error ''Username should be a string, got '' (args ! 1)) s g)"

datatype verify_result = Verified string | Rejected | Verify_panic string

definition check_payload :: "'k env \<Rightarrow> int \<Rightarrow> wvalue \<Rightarrow> verify_result" where
  "check_payload e t val =
     (case as_Array val of
        None \<Rightarrow> Rejected
      | Some vs \<Rightarrow>
          if length vs \<noteq> 2 then Rejected
          else (case as_String (vs ! 1) of
            None \<Rightarrow> Rejected
          | Some expiry \<Rightarrow>
              (case parse_time e expiry of
                 None \<Rightarrow> Rejected
               | Some date \<Rightarrow>
                   if t > date then Rejected
                   else (case as_String (vs ! 0) of
                     None \<Rightarrow> Rejected
                   | Some name \<Rightarrow> Verified name))))"

definition verifyToken :: "'k env \<Rightarrow> int \<Rightarrow> bytes \<Rightarrow> string \<Rightarrow> verify_result" where
  "verifyToken e t key token =
     (case a85_decode (length token) token of
        None \<Rightarrow> Rejected
      | Some decoded \<Rightarrow>
          (case AesDecrypt (aead e) decoded key of
             Decrypt_error \<Rightarrow> Rejected
           | Decrypt_panic \<Rightarrow> Verify_panic ''runtime error: slice bounds out of range''
           | Decrypted decrypted \<Rightarrow>
               (case fst (ReadValue ''EOF'' decrypted) of
                  Inl (Panic m) \<Rightarrow> Verify_panic m
                | Inl _ \<Rightarrow> Rejected
                | Inr val \<Rightarrow> check_payload e t val)))"

definition handleTokenAuth :: "'k env \<Rightarrow> 'k handler" where
  "handleTokenAuth e args s g =
     (if length args \<noteq> 2
      then reply (NewError ''ARG'' ''Token authentication requires a token'') s g
      else case as_String (args ! 1) of
        Some token \<Rightarrow>
          (case tokenKey g of
             None \<Rightarrow>
               reply (NewError ''ERROR'' ''Token authentication is not supported at this time'') s g
           | Some key \<Rightarrow>
               (case verifyToken e (now g) key token of
                  Rejected \<Rightarrow> reply (NewError ''DENIED'' ''Authentication failed'') s g
                | Verify_panic m \<Rightarrow> (Panicked m, s, g)
                | Verified name \<Rightarrow> reply OK (changeUser (flydb g) name s) g))
      | None \<Rightarrow> reply (type_error ''Token should be a string, got '' (args ! 1)) s g)"

definition handleAuth :: "'k env \<Rightarrow> 'k handler" where
  "handleAuth e args s g =
     (if length args = 0
      then reply (NewError ''ARG'' ''Command AUTH expects at least 1 argument'') s g
      else case as_String (args ! 0) of
        Some authType \<Rightarrow>
          if authType = ''PWD'' then handlePasswordAuth e args s g
          else if authType = ''TOK'' then handleTokenAuth e args s g
          else reply (NewErrorf ''ARG'' [''Unsupported AUTH type: '', authType]) s g
      | None \<Rightarrow> reply (type_error ''AUTH type should be a string, got '' (args ! 0)) s g)"

end
