(* ===== verification/Dispatch.thy ===== *)
theory Dispatch
  imports Cmd_Users Cmd_Acp Cmd_Files Cmd_Auth
begin

text \<open>
  The table of commands and their dispatch, \<open>commandHandlers\<close>, \<open>getCommandHandler\<close> and
  \<open>dispatchCommand\<close> of \<^verbatim>\<open>src/cmd/fly-server/main.go\<close>.
\<close>

definition commandHandlers :: "'k env \<Rightarrow> (string \<times> 'k handler) list" where
  "commandHandlers e =
     [(''PING'', handlePing), (''WHOAMI'', handleWhoAmI), (''AUTH'', handleAuth e),
      (''TOKEN'', handleToken e), (''MKDIR'', handleMkdir e), (''TOUCH'', handleTouch e),
      (''DEL'', handleDel e), (''MOVE'', handleMove e), (''COPY'', handleCopy e),
      (''LIST'', handleList e), (''LISTUSER'', handleListUser), (''ADDUSER'', handleAddUser e),
      (''SETPWD'', handleSetpwd e), (''SETADM'', handleSetadm e), (''CHROOT'', handleChroot e),
      (''RMUSER'', handleRmuser e), (''SHOWUSER'', handleShowUser), (''STREAM'', handleStream e),
      (''CLOSE'', handleClose), (''LISTACP'', handleListAcp), (''PUTACP'', handlePutAcp e),
      (''RMACP'', handleRmAcp e)]"

definition getCommandHandler :: "'k env \<Rightarrow> string \<Rightarrow> 'k handler option" where
  "getCommandHandler e s = map_of (commandHandlers e) (ToUpper s)"

definition unknown_command :: "string \<Rightarrow> wvalue" where
  "unknown_command name =
     NewErrorf ''CMD'' [''Unknown command '' @ [CHR 0x27], name, [CHR 0x27]]"

text \<open>The command is an array whose first element the reader has found to be a string.\<close>

definition dispatchCommand ::
  "'k env \<Rightarrow> wvalue list \<Rightarrow> sessionInfo \<Rightarrow> 'k server \<Rightarrow> outcome \<times> sessionInfo \<times> 'k server" where
  "dispatchCommand e cmd s g =
     (case cmd of
        [] \<Rightarrow> (Panicked ''runtime error: index out of range'', s, g)
      | v # args \<Rightarrow>
          (case as_String v of
             Some cmdName \<Rightarrow>
               (case getCommandHandler e cmdName of
                  None \<Rightarrow> reply (unknown_command cmdName) s g
                | Some handler \<Rightarrow> handler args (update (flydb g) s) g)
           | None \<Rightarrow> (Panicked ''interface conversion'', s, g)))"

end
