(* ===== verification/Session_Facts.thy ===== *)
theory Session_Facts
  imports Session_Streams
begin

text \<open>
  The table of streams: its invariant, which slot an opened stream gets, and the interface
  \<open>slot_table\<close> of a bounded table that hands out the lowest free slot, interpreted on the
  operations of theory \<open>Session_Streams\<close>.
\<close>

section \<open>The invariant\<close>

definition used_slots :: "session \<Rightarrow> nat set" where
  "used_slots s = {i. i < length (streams s) \<and> streams s ! i \<noteq> None}"

definition session_wf :: "session \<Rightarrow> bool" where
  "session_wf s \<longleftrightarrow>
     length (streams s) = num_slots \<and> streamCount s = int (card (used_slots s))"

lemma used_slots_finite [simp]: "finite (used_slots s)"
  by (simp add: used_slots_def)

lemma used_slots_less: "session_wf s \<Longrightarrow> i \<in> used_slots s \<Longrightarrow> i < num_slots"
  by (simp add: used_slots_def session_wf_def)

lemma session_wf_new [simp]: "session_wf new_session"
proof -
  have "used_slots new_session = {}" by (auto simp: used_slots_def new_session_def)
  then show ?thesis by (simp add: session_wf_def) (simp add: new_session_def)
qed

lemma used_Terminate [simp]: "used_slots (Terminate s) = used_slots s"
  by (simp add: used_slots_def Terminate_def)

lemma session_wf_Terminate [simp]: "session_wf (Terminate s) = session_wf s"
  unfolding session_wf_def used_Terminate by (simp add: Terminate_def)

section \<open>Free slots\<close>

lemma nextStreamId_Some:
  "nextStreamId n xs = Some i \<Longrightarrow>
   n \<le> i \<and> i - n < length xs \<and> xs ! (i - n) = None \<and> (\<forall>j < i - n. xs ! j \<noteq> None)"
proof (induction n xs rule: nextStreamId.induct)
  case (2 n x xs)
  show ?case
  proof (cases "x = None")
    case False
    with 2 have IH: "Suc n \<le> i" "i - Suc n < length xs" "xs ! (i - Suc n) = None"
      "\<forall>j < i - Suc n. xs ! j \<noteq> None" by auto
    have d: "i - n = Suc (i - Suc n)" using IH(1) by simp
    show ?thesis
      using IH False unfolding d by (auto simp: nth_Cons split: nat.split)
  qed (use 2 in auto)
qed simp

lemma nextStreamId_None: "nextStreamId n xs = None \<longleftrightarrow> (\<forall>j < length xs. xs ! j \<noteq> None)"
  by (induction n xs rule: nextStreamId.induct) (auto simp: nth_Cons split: nat.splits)

lemma free_slot_iff:
  "nextStreamId 0 (streams s) = Some i \<longleftrightarrow>
     i < length (streams s) \<and> i \<notin> used_slots s \<and> (\<forall>j < i. j \<in> used_slots s)"
proof
  assume "nextStreamId 0 (streams s) = Some i"
  from nextStreamId_Some [OF this]
  show "i < length (streams s) \<and> i \<notin> used_slots s \<and> (\<forall>j < i. j \<in> used_slots s)"
    by (auto simp: used_slots_def)
next
  assume i: "i < length (streams s) \<and> i \<notin> used_slots s \<and> (\<forall>j < i. j \<in> used_slots s)"
  then have "nextStreamId 0 (streams s) \<noteq> None"
    by (auto simp: nextStreamId_None used_slots_def)
  then obtain k where k: "nextStreamId 0 (streams s) = Some k" by auto
  from nextStreamId_Some [OF k] i have "\<not> k < i" "\<not> i < k" by (auto simp: used_slots_def)
  with k show "nextStreamId 0 (streams s) = Some i" by simp
qed

section \<open>The interface of a bounded table\<close>

locale slot_table =
  fixes wf :: "'s \<Rightarrow> bool"
    and used :: "'s \<Rightarrow> nat set"
    and free :: "'s \<Rightarrow> nat option"
    and insert_at :: "nat \<Rightarrow> 'a \<Rightarrow> 's \<Rightarrow> 's"
    and release :: "nat \<Rightarrow> 's \<Rightarrow> 's"
    and capacity :: nat
  assumes used_bound: "wf s \<Longrightarrow> used s \<subseteq> {..<capacity}"
    and free_Some: "wf s \<Longrightarrow> free s = Some i \<longleftrightarrow> i < capacity \<and> i \<notin> used s \<and> {..<i} \<subseteq> used s"
    and wf_insert: "wf s \<Longrightarrow> free s = Some i \<Longrightarrow> wf (insert_at i x s)"
    and used_insert: "wf s \<Longrightarrow> free s = Some i \<Longrightarrow> used (insert_at i x s) = insert i (used s)"
    and wf_release: "wf s \<Longrightarrow> i \<in> used s \<Longrightarrow> wf (release i s)"
    and used_release: "wf s \<Longrightarrow> i \<in> used s \<Longrightarrow> used (release i s) = used s - {i}"
begin

lemma free_least: "wf s \<Longrightarrow> free s = Some i \<Longrightarrow> i = (LEAST j. j \<notin> used s)"
proof -
  assume a: "wf s" "free s = Some i"
  then have i: "i \<notin> used s" "{..<i} \<subseteq> used s" by (simp_all add: free_Some)
  have "i \<le> j" if "j \<notin> used s" for j
    using i(2) that by (metis lessThan_iff linorder_not_less subsetD)
  with i(1) show ?thesis by (intro Least_equality [symmetric]) auto
qed

lemma free_None: "wf s \<Longrightarrow> free s = None \<longleftrightarrow> used s = {..<capacity}"
proof
  assume wf: "wf s" and none: "free s = None"
  show "used s = {..<capacity}"
  proof (rule ccontr)
    assume "used s \<noteq> {..<capacity}"
    with used_bound [OF wf] have ex: "\<exists>j. j < capacity \<and> j \<notin> used s" by auto
    define i where "i = (LEAST j. j < capacity \<and> j \<notin> used s)"
    have i: "i < capacity \<and> i \<notin> used s" unfolding i_def by (rule LeastI_ex [OF ex])
    have "j \<in> used s" if "j < i" for j
      using not_less_Least [of j "\<lambda>j. j < capacity \<and> j \<notin> used s", folded i_def] that i by simp
    with i have "free s = Some i" using wf by (auto simp: free_Some)
    with none show False by simp
  qed
next
  assume wf: "wf s" and full: "used s = {..<capacity}"
  show "free s = None"
    using free_Some [OF wf] full by (cases "free s") auto
qed

text \<open>A slot that is released is handed out again before any higher one.\<close>

lemma reuse: "wf s \<Longrightarrow> i \<in> used s \<Longrightarrow> \<exists>j. free (release i s) = Some j \<and> j \<le> i"
proof -
  assume a: "wf s" "i \<in> used s"
  have "i < capacity" using used_bound [OF a(1)] a(2) by auto
  with a have "free (release i s) \<noteq> None" by (auto simp: free_None wf_release used_release)
  then obtain j where j: "free (release i s) = Some j" by auto
  with a have "{..<j} \<subseteq> used s - {i}"
    using free_Some [OF wf_release [OF a], of j] used_release [OF a] by simp
  then have "\<not> i < j" by auto
  with j show ?thesis by auto
qed

end

lemma used_insert_stream:
  "i < length (streams s) \<Longrightarrow> used_slots (insert_stream i st s) = insert i (used_slots s)"
  by (auto simp: used_slots_def insert_stream_def nth_list_update)

lemma used_releaseStream: "used_slots (releaseStream i s) = used_slots s - {i}"
  by (cases "i < length (streams s)") (auto simp: used_slots_def releaseStream_def nth_list_update split: if_splits)

interpretation stream_table: slot_table session_wf used_slots "\<lambda>s. nextStreamId 0 (streams s)"
  insert_stream releaseStream num_slots
proof (unfold_locales, goal_cases)
  case (1 s) then show ?case using used_slots_less by auto
next
  case (2 s i) then show ?case by (auto simp: free_slot_iff session_wf_def)
next
  case (3 s i x)
  then have i: "i < length (streams s)" "i \<notin> used_slots s" by (simp_all add: free_slot_iff)
  with 3 show ?case
    unfolding session_wf_def used_insert_stream [OF i(1)] by (simp add: insert_stream_def)
next
  case (4 s i x) then show ?case by (simp add: free_slot_iff used_insert_stream)
next
  case (5 s i)
  then have "Suc (card (used_slots s - {i})) = card (used_slots s)" by (intro card_Suc_Diff1) simp_all
  with 5 show ?case
    unfolding session_wf_def used_releaseStream by (simp add: releaseStream_def)
next
  case (6 s i) then show ?case by (simp add: used_releaseStream)
qed

section \<open>The operations keep the invariant\<close>

lemma CloseStream_wf: "session_wf s \<Longrightarrow> session_wf (snd (CloseStream i s))"
proof (cases "getStream i s")
  case (Some st)
  assume wf: "session_wf s"
  from Some have "used_slots (s\<lparr>streams := (streams s)[nat i := Some (add_cancel st)]\<rparr>) = used_slots s"
    by (auto simp: used_slots_def getStream_def nth_list_update split: if_splits)
  with wf Some show ?thesis by (simp add: CloseStream_def session_wf_def)
qed (simp add: CloseStream_def)

lemma NewReadStream_wf: "session_wf s \<Longrightarrow> session_wf (fst (snd (NewReadStream K p s k)))"
  by (auto simp: NewReadStream_def stream_table.wf_insert
      split: prod.split sum.split os_err.split option.split)

lemma start_write_wf: "session_wf s \<Longrightarrow> session_wf (fst (snd (start_write K p s k)))"
  by (auto simp: start_write_def stream_table.wf_insert
      split: prod.split sum.split os_err.split option.split)

lemma NewWriteStream_wf: "session_wf s \<Longrightarrow> session_wf (fst (snd (NewWriteStream K p s k)))"
  using start_write_wf [of s K p]
  by (auto simp: NewWriteStream_def split: prod.split sum.split os_err.split)
    (metis fst_conv snd_conv)+

lemma NewCopyStream_wf: "session_wf s \<Longrightarrow> session_wf (snd (NewCopyStream p q s))"
  by (auto simp: NewCopyStream_def stream_table.wf_insert split: option.split)

end
