(* ===== verification/Server_Facts.thy ===== *)
theory Server_Facts
  imports Dispatch Session_Facts
begin

text \<open>
  One lemma per command that says, for every argument list and every environment, what the
  command can do: to the database, to the session, to the operating system. The properties of
  the server are consequences of these lemmas.
\<close>

section \<open>Shapes of results\<close>

text \<open>A command that only answers (it may have used up some randomness).\<close>

definition quiet :: "outcome \<times> sessionInfo \<times> 'k server \<Rightarrow> sessionInfo \<Rightarrow> 'k server \<Rightarrow> bool" where
  "quiet r s g \<longleftrightarrow> (\<exists>w n. r = (Reply w, s, g\<lparr>rand := n\<rparr>))"

lemma quiet_reply [simp]: "quiet (Reply w, s, g) s g"
  unfolding quiet_def by (rule exI [of _ w], rule exI [of _ "rand g"]) simp

lemma quiet_reply_rand [simp]: "quiet (Reply w, s, g\<lparr>rand := n\<rparr>) s g"
  unfolding quiet_def by blast

lemma args_1: "length args = Suc 0 \<Longrightarrow> args = [args ! 0]"
  by (cases args) auto

lemma args_2: "length args = 2 \<Longrightarrow> args = [args ! 0, args ! 1]"
  by (cases args; cases "tl args") auto

lemma rand_self [simp]: "g\<lparr>rand := rand g\<rparr> = (g :: 'k server)"
  by simp

lemma put_db_self [simp]: "put_db (flydb g) g = g"
  by (simp add: put_db_def)

section \<open>Commands that only answer\<close>

lemma handlePing_quiet: "quiet (handlePing args s g) s g"
  by (simp add: handlePing_def)

lemma handleWhoAmI_quiet: "quiet (handleWhoAmI args s g) s g"
  by (simp add: handleWhoAmI_def)

lemma handleToken_quiet: "quiet (handleToken e args s g) s g"
  by (simp add: handleToken_def Let_def split: option.split)

lemma handleShowUser_quiet: "quiet (handleShowUser args s g) s g"
  by (simp add: handleShowUser_def split: option.split)

lemma handleListUser_quiet: "quiet (handleListUser args s g) s g"
  by (simp add: handleListUser_def)

lemma handleListAcp_quiet: "quiet (handleListAcp args s g) s g"
  by (simp add: handleListAcp_def split: prod.split)

section \<open>Commands on users and policies\<close>

lemma handleAddUser_cases:
  fixes e :: "'k env"
  assumes "handleAddUser e args s g = r"
  obtains (quiet) "quiet r s g"
    | (add) name pw hash where "args = [String name, String pw]" and "singleUser s \<or> is_admin s"
      and "ValidateUsername name" and "pw \<noteq> []"
      and "GenerateFromPassword (bc e) (rand g) pw = Inr hash"
      and "r = register_user e \<lparr>Username = name, Password = hash, Chroot = [], Admin = singleUser s\<rparr>
          s (g\<lparr>rand := Suc (rand g)\<rparr>)"
  using assms args_2 [of args] that
  by (auto simp: handleAddUser_def hash_password_def split: if_splits option.splits sum.splits)

lemma handleSetpwd_cases:
  fixes e :: "'k env"
  assumes "handleSetpwd e args s g = r"
  obtains (quiet) "quiet r s g"
    | (set) name pw hash where "args = [String name, String pw]" and "\<not> singleUser s"
      and "username s = name \<or> is_admin s" and "pw \<noteq> []"
      and "GenerateFromPassword (bc e) (rand g) pw = Inr hash"
      and "r = commit ''Failed to update user''
          (UpdateUser (fault e) name (\<lambda>u. u\<lparr>Password := hash\<rparr>) (flydb g)) s (g\<lparr>rand := Suc (rand g)\<rparr>)"
  using assms args_2 [of args] that
  by (auto simp: handleSetpwd_def hash_password_def split: if_splits option.splits sum.splits)

lemma handleSetadm_cases:
  fixes e :: "'k env"
  assumes "handleSetadm e args s g = r"
  obtains (quiet) "quiet r s g"
    | (set) name admin where "args = [String name, Bool admin]" and "\<not> singleUser s" and "is_admin s"
      and "r = commit ''Failed to update user''
          (UpdateUser (fault e) name (\<lambda>u. u\<lparr>Admin := admin\<rparr>) (flydb g)) s g"
  using assms args_2 [of args] that
  by (auto simp: handleSetadm_def split: if_splits option.splits)

lemma handleChroot_cases:
  fixes e :: "'k env"
  assumes "handleChroot e args s g = r"
  obtains (quiet) "quiet r s g"
    | (mkdir) chroot real w k where "\<not> singleUser s" and "is_admin s" and "ResolveSingleUser (GetPolicies (flydb g)) (root g) chroot = Inr real"
      and "MkdirAll (kern e) real (sys g) = (Some w, k)"
      and "r = reply (NewError ''ERR'' ''Unexpected error occurred'') s (g\<lparr>sys := k\<rparr>)"
    | (set) name chroot real k where "args = [String name, String chroot]" and "\<not> singleUser s"
      and "is_admin s" and "ResolveSingleUser (GetPolicies (flydb g)) (root g) chroot = Inr real"
      and "MkdirAll (kern e) real (sys g) = (None, k)"
      and "r = commit ''Failed to update user''
          (UpdateUser (fault e) name (\<lambda>u. u\<lparr>Chroot := chroot\<rparr>) (flydb g)) s (g\<lparr>sys := k\<rparr>)"
  using assms args_2 [of args] that
  by (auto simp: handleChroot_def split: if_splits option.splits sum.splits prod.splits)

lemma handleRmuser_cases:
  fixes e :: "'k env"
  assumes "handleRmuser e args s g = r"
  obtains (quiet) "quiet r s g"
    | (remove) name where "args = [String name]" and "\<not> singleUser s" and "is_admin s"
      and "r = commit_delete ''User not found'' ''Failed to delete user''
          (DeleteUser (fault e) name (flydb g)) s g"
  using assms args_1 [of args] that
  by (auto simp: handleRmuser_def split: if_splits option.splits)

lemma handleRmAcp_cases:
  fixes e :: "'k env"
  assumes "handleRmAcp e args s g = r"
  obtains (quiet) "quiet r s g"
    | (remove) name where "args = [String name]" and "\<not> singleUser s" and "is_admin s"
      and "r = commit_delete ''Policy not found'' ''Failed to delete policy''
          (DeleteAccessPolicy (fault e) name (flydb g)) s g"
  using assms args_1 [of args] that
  by (auto simp: handleRmAcp_def split: if_splits option.splits)

lemma valid_policy_record:
  "verb = ''ALLOW'' \<or> verb = ''DENY'' \<Longrightarrow> act = ''R'' \<or> act = ''W'' \<Longrightarrow>
   valid_policy \<lparr>Verb = verb, Action = hd act, PolicyName = name, Users = us, Paths = ps\<rparr>
     \<longleftrightarrow> TrimSpace name \<noteq> []"
  by (auto simp: valid_policy_def go_defs)

lemma handlePutAcp_cases:
  fixes e :: "'k env"
  assumes "handlePutAcp e args s g = r"
  obtains (quiet) "quiet r s g"
    | (put) p us ps where "\<not> singleUser s" and "is_admin s" and "valid_policy p"
      and "length args = 5" and "args ! 0 = String (PolicyName p)"
      and "args ! 3 = Array us" and "us \<noteq> []" and "take_strings (\<lambda>x. x) us = Inr (user_list p)"
      and "args ! 4 = Array ps" and "ps \<noteq> []" and "take_strings policy_path ps = Inr (Paths p)"
      and "Users p = Some (user_list p)"
      and "r = commit ''Failed to create policy'' (PutAccessPolicy (fault e) p (flydb g)) s g"
proof (cases "quiet r s g")
  case False
  then obtain name verb act us ps where "\<not> singleUser s" "is_admin s" "TrimSpace name \<noteq> []"
    and ok: "verb = ''ALLOW'' \<or> verb = ''DENY''" "act = ''R'' \<or> act = ''W''"
    and "length args = 5" "args ! 0 = String name"
    and "\<exists>vs. args ! 3 = Array vs \<and> vs \<noteq> [] \<and> take_strings (\<lambda>x. x) vs = Inr us"
    and "\<exists>vs. args ! 4 = Array vs \<and> vs \<noteq> [] \<and> take_strings policy_path vs = Inr ps"
    and "r = create_policy e name verb act us ps s g"
    using assms by (auto simp: handlePutAcp_def split: if_splits option.splits sum.splits)
  with valid_policy_record [OF ok] put [of "\<lparr>Verb = verb, Action = hd act, PolicyName = name, Users = Some us, Paths = ps\<rparr>"]
  show thesis unfolding create_policy_def by (auto simp: user_list_def)
qed (rule quiet)

section \<open>Authentication\<close>

text \<open>What lets a client become the user \<open>name\<close>.\<close>

definition proves_identity :: "'k env \<Rightarrow> 'k server \<Rightarrow> wvalue list \<Rightarrow> string \<Rightarrow> bool" where
  "proves_identity e g args name \<longleftrightarrow>
     (\<exists>pw. args = [String ''PWD'', String name, String pw] \<and> verifyPassword e (flydb g) name pw)
     \<or> (\<exists>token key. args = [String ''TOK'', String token] \<and> tokenKey g = Some key
          \<and> verifyToken e (now g) key token = Verified name)"

lemma args_3: "length args = 3 \<Longrightarrow> args = [args ! 0, args ! 1, args ! 2]"
  by (cases args; cases "tl args"; cases "tl (tl args)") auto

lemma handlePasswordAuth_cases:
  fixes e :: "'k env"
  assumes "handlePasswordAuth e args s g = r"
  obtains (quiet) "quiet r s g"
    | (login) name pw where "args = [args ! 0, String name, String pw]"
      and "verifyPassword e (flydb g) name pw" and "r = reply OK (changeUser (flydb g) name s) g"
  using assms args_3 [of args] that
  by (auto simp: handlePasswordAuth_def split: if_splits option.splits)

lemma handleTokenAuth_cases:
  fixes e :: "'k env"
  assumes "handleTokenAuth e args s g = r"
  obtains (quiet) "quiet r s g"
    | (panic) m token key where "args = [args ! 0, String token]" and "tokenKey g = Some key"
      and "verifyToken e (now g) key token = Verify_panic m" and "r = (Panicked m, s, g)"
    | (login) name token key where "args = [args ! 0, String token]" and "tokenKey g = Some key"
      and "verifyToken e (now g) key token = Verified name"
      and "r = reply OK (changeUser (flydb g) name s) g"
  using assms args_2 [of args] that
  by (auto simp: handleTokenAuth_def split: if_splits option.splits verify_result.splits)

lemma handleAuth_cases:
  fixes e :: "'k env"
  assumes "handleAuth e args s g = r"
  obtains (quiet) "quiet r s g"
    | (panic) m token key where "args = [String ''TOK'', String token]" and "tokenKey g = Some key"
      and "verifyToken e (now g) key token = Verify_panic m" and "r = (Panicked m, s, g)"
    | (login) name where "proves_identity e g args name"
      and "r = reply OK (changeUser (flydb g) name s) g"
proof -
  consider "quiet r s g" | "args ! 0 = String ''PWD''" "handlePasswordAuth e args s g = r"
    | "args ! 0 = String ''TOK''" "handleTokenAuth e args s g = r"
    using assms by (auto simp: handleAuth_def split: if_splits option.splits)
  then show thesis
  proof cases
    case 2
    from 2(2) show thesis
      by (cases rule: handlePasswordAuth_cases) (use 2(1) that proves_identity_def in fastforce)+
  next
    case 3
    from 3(2) show thesis
      by (cases rule: handleTokenAuth_cases) (use 3(1) that proves_identity_def in fastforce)+
  qed (rule that)
qed

section \<open>Commands on files\<close>

text \<open>
  The calls a session may cause: each path is one the session can resolve, for writing where
  the call changes something, for reading otherwise; examining is allowed for both, and for
  the folder of a file to be written.
\<close>

definition can_read :: "'k server \<Rightarrow> sessionInfo \<Rightarrow> string \<Rightarrow> bool" where
  "can_read g s p \<longleftrightarrow> (\<exists>v. resolveRead g s v = Inr p)"

definition can_write :: "'k server \<Rightarrow> sessionInfo \<Rightarrow> string \<Rightarrow> bool" where
  "can_write g s p \<longleftrightarrow> (\<exists>v. resolveWrite g s v = Inr p)"

fun may_call :: "'k server \<Rightarrow> sessionInfo \<Rightarrow> os_call \<Rightarrow> bool" where
  "may_call g s (Call_MkdirAll p) = can_write g s p"
| "may_call g s (Call_Chtimes p) = can_write g s p"
| "may_call g s (Call_Create p) = can_write g s p"
| "may_call g s (Call_Remove p) = can_write g s p"
| "may_call g s (Call_RemoveAll p) = can_write g s p"
| "may_call g s (Call_Rename p q) = (can_read g s p \<and> can_write g s q)"
| "may_call g s (Call_Stat p) =
     (can_read g s p \<or> can_write g s p \<or> (\<exists>q. can_write g s q \<and> p = Dir q))"
| "may_call g s (Call_ReadDir p) = can_read g s p"
| "may_call g s (Call_Open p) = can_read g s p"
| "may_call g s Call_CreateTemp = (\<exists>q. can_write g s q)"

text \<open>
  The goroutine of a stream goes on to call the operating system when the command is over: it
  moves a finished file to its place, and removes what it has not finished. \<open>t\<close> is the name of
  the temporary file that the goroutine of a copy creates for itself; that of a write stream was
  created when it was opened. The goroutine of a read stream names no path any more.
\<close>

fun temp_name :: "string \<Rightarrow> stream \<Rightarrow> string" where
  "temp_name t (WriteStream n fs p f) = FileName f"
| "temp_name t st = t"

fun worker_calls :: "string \<Rightarrow> stream \<Rightarrow> os_call list" where
  "worker_calls t (ReadStream n f) = []"
| "worker_calls t (WriteStream n fs p f) = [Call_Rename (FileName f) p, Call_Remove (FileName f)]"
| "worker_calls t (CopyStream n p q) = [Call_Open p, Call_CreateTemp, Call_Rename t q, Call_Remove t]"

text \<open>What the session may cause a goroutine to call whose temporary file is \<open>t\<close>.\<close>

fun worker_may :: "'k server \<Rightarrow> sessionInfo \<Rightarrow> string \<Rightarrow> os_call \<Rightarrow> bool" where
  "worker_may g s t (Call_Rename p q) = (p = t \<and> can_write g s q)"
| "worker_may g s t (Call_Remove p) = (p = t)"
| "worker_may g s t c = may_call g s c"

text \<open>The streams a session may open, and that a command opens only such streams.\<close>

definition opened_file :: "'k kernel \<Rightarrow> string \<Rightarrow> os_file \<Rightarrow> bool" where
  "opened_file K p f \<longleftrightarrow> (\<exists>k. fst (OpenFile K p k) = Inr f)"

definition temp_file :: "'k kernel \<Rightarrow> os_file \<Rightarrow> bool" where
  "temp_file K f \<longleftrightarrow> (\<exists>k. fst (CreateTemp K k) = Inr f)"

lemma opened_fileI: "OpenFile K p k = (Inr f, k') \<Longrightarrow> opened_file K p f"
  unfolding opened_file_def by (rule exI [of _ k]) simp

lemma temp_fileI: "CreateTemp K k = (Inr f, k') \<Longrightarrow> temp_file K f"
  unfolding temp_file_def by (rule exI [of _ k]) simp

fun stream_allowed :: "'k env \<Rightarrow> 'k server \<Rightarrow> sessionInfo \<Rightarrow> stream \<Rightarrow> bool" where
  "stream_allowed e g s (ReadStream n f) =
     (\<exists>p. can_read g s p \<and> opened_file (kern e) p f)"
| "stream_allowed e g s (WriteStream n fs p f) =
     (can_write g s p \<and> temp_file (kern e) f)"
| "stream_allowed e g s (CopyStream n p q) = (can_read g s p \<and> can_write g s q)"

definition opens_only :: "(stream \<Rightarrow> bool) \<Rightarrow> session \<Rightarrow> session \<Rightarrow> bool" where
  "opens_only P s s' \<longleftrightarrow> length (streams s') = length (streams s)
     \<and> (\<forall>i < length (streams s). streams s' ! i = streams s ! i
          \<or> (\<exists>st. streams s ! i = Some st \<and> streams s' ! i = Some (add_cancel st))
          \<or> (\<exists>st. streams s ! i = None \<and> streams s' ! i = Some st \<and> P st))"

lemma opens_only_same [simp]: "streams s' = streams s \<Longrightarrow> opens_only P s s'"
  by (simp add: opens_only_def)

lemma opens_only_insert:
  "nextStreamId 0 (streams s) = Some i \<Longrightarrow> P st \<Longrightarrow> opens_only P s (insert_stream i st s)"
  using nextStreamId_Some [of 0 "streams s" i]
  by (auto simp: opens_only_def insert_stream_def nth_list_update)

lemma opens_only_close: "opens_only P s (snd (CloseStream i s))"
proof (cases "getStream i s")
  case (Some st)
  then have "streams s ! nat i = Some st" by (simp add: getStream_def split: if_splits)
  then have "(streams s)[nat i := Some (add_cancel st)] ! j = streams s ! j
      \<or> streams s ! j = Some st \<and> (streams s)[nat i := Some (add_cancel st)] ! j = Some (add_cancel st)"
    if "j < length (streams s)" for j
    using that by (cases "j = nat i") simp_all
  then have "opens_only P s (s\<lparr>streams := (streams s)[nat i := Some (add_cancel st)]\<rparr>)"
    unfolding opens_only_def by fastforce
  with Some show ?thesis by (simp add: CloseStream_def)
qed (simp add: CloseStream_def)

text \<open>A stream that can be opened makes no call that the session may not make.\<close>

lemma worker_allowed:
  "stream_allowed e g s st \<Longrightarrow> c \<in> set (worker_calls t st) \<Longrightarrow> worker_may g s (temp_name t st) c"
  by (cases st) auto

definition file_command ::
  "'k env \<Rightarrow> outcome \<times> sessionInfo \<times> 'k server \<Rightarrow> sessionInfo \<Rightarrow> 'k server \<Rightarrow> bool" where
  "file_command e r s g \<longleftrightarrow>
     (\<exists>out ss k. r = (out, s\<lparr>session := ss\<rparr>, put_sys k g) \<and> emits (may_call g s) (sys g) k
        \<and> (session_wf (session s) \<longrightarrow> session_wf ss)
        \<and> terminated ss = terminated (session s)
        \<and> opens_only (stream_allowed e g s) (session s) ss
        \<and> (\<forall>m x. out \<noteq> Fatal m x))"

lemma put_sys_simps [simp]:
  "sys (put_sys k g) = k" "flydb (put_sys k g) = flydb g" "root (put_sys k g) = root g"
  "tokenKey (put_sys k g) = tokenKey g" "now (put_sys k g) = now g" "rand (put_sys k g) = rand g"
  by (simp_all add: put_sys_def)

lemma file_command_reply [simp]: "file_command e (Reply w, s, g) s g"
  unfolding file_command_def
  by (rule exI [of _ "Reply w"], rule exI [of _ "session s"], rule exI [of _ "sys g"])
    (simp add: put_sys_def)

lemma file_command_sys:
  "emits (may_call g s) (sys g) k \<Longrightarrow> file_command e (Reply w, s, put_sys k g) s g"
  unfolding file_command_def
  by (rule exI [of _ "Reply w"], rule exI [of _ "session s"], rule exI [of _ k]) simp

lemma file_command_session:
  "emits (may_call g s) (sys g) k \<Longrightarrow> (session_wf (session s) \<Longrightarrow> session_wf ss) \<Longrightarrow>
   terminated ss = terminated (session s) \<Longrightarrow> opens_only (stream_allowed e g s) (session s) ss \<Longrightarrow>
   (\<And>m x. out \<noteq> Fatal m x) \<Longrightarrow>
   file_command e (out, s\<lparr>session := ss\<rparr>, put_sys k g) s g"
  unfolding file_command_def by blast

lemma can_readI [intro]: "resolveRead g s v = Inr p \<Longrightarrow> can_read g s p"
  by (auto simp: can_read_def)

lemma can_writeI [intro]: "resolveWrite g s v = Inr p \<Longrightarrow> can_write g s p"
  by (auto simp: can_write_def)

lemma handleMkdir_file: "file_command e (handleMkdir e args s g) s g"
  by (auto simp: handleMkdir_def emits_def split: option.split sum.split prod.split
      intro!: file_command_sys dest!: calls_os)

lemma handleTouch_file: "file_command e (handleTouch e args s g) s g"
  by (auto simp: handleTouch_def emits_def split: option.split sum.split prod.split os_err.split
      intro!: file_command_sys dest!: calls_os)

lemma handleDel_file: "file_command e (handleDel e args s g) s g"
  by (auto simp: handleDel_def emits_def
      split: option.split sum.split prod.split os_err.split if_splits
      intro!: file_command_sys dest!: calls_os)

lemma resolve_two_Inr:
  "resolve_two g s a b = Inr (p, q) \<Longrightarrow> can_read g s p \<and> can_write g s q"
  by (auto simp: resolve_two_def Let_def split: if_splits sum.splits)

lemma handleMove_file: "file_command e (handleMove e args s g) s g"
  by (auto simp: handleMove_def emits_def split: option.split sum.split prod.split os_err.split
      intro!: file_command_sys dest!: calls_os resolve_two_Inr)

lemma NewCopyStream_terminated: "terminated (snd (NewCopyStream p q s)) = terminated s"
  by (simp add: NewCopyStream_def insert_stream_def split: option.split)

lemma NewCopyStream_opens:
  "can_read g s p \<Longrightarrow> can_write g s q \<Longrightarrow>
   opens_only (stream_allowed e g s) ss (snd (NewCopyStream p q ss))"
  by (auto simp: NewCopyStream_def intro!: opens_only_insert split: option.split)

lemma copy_command:
  assumes "NewCopyStream p q (session s) = (r, ss)" and "emits (may_call g s) (sys g) k"
    and "can_read g s p" and "can_write g s q"
  shows "file_command e (Reply w, s\<lparr>session := ss\<rparr>, put_sys k g) s g"
  using NewCopyStream_wf [of "session s" p q] NewCopyStream_terminated [of p q "session s"]
    NewCopyStream_opens [OF assms(3,4), of e "session s"] assms(1,2)
  by (intro file_command_session) auto

lemma handleCopy_file: "file_command e (handleCopy e args s g) s g"
  by (auto simp: handleCopy_def emits_def split: option.split sum.split prod.split os_err.split
      intro!: file_command_sys copy_command dest!: calls_os resolve_two_Inr)

lemma handleList_file: "file_command e (handleList e args s g) s g"
  by (auto simp: handleList_def Let_def emits_def
      split: option.split sum.split prod.split os_err.split if_splits
      intro!: file_command_sys dest!: calls_os)

lemma CloseStream_terminated: "terminated (snd (CloseStream i s)) = terminated s"
  by (simp add: CloseStream_def split: option.split)

lemma file_command_same_sys:
  "(session_wf (session s) \<Longrightarrow> session_wf ss) \<Longrightarrow> terminated ss = terminated (session s) \<Longrightarrow>
   opens_only (stream_allowed e g s) (session s) ss \<Longrightarrow> file_command e (Reply w, s\<lparr>session := ss\<rparr>, g) s g"
  unfolding file_command_def
  by (rule exI [of _ "Reply w"], rule exI [of _ ss], rule exI [of _ "sys g"]) (simp add: put_sys_def)

lemma handleClose_file: "file_command e (handleClose args s g) s g"
  using CloseStream_wf CloseStream_terminated opens_only_close
  by (auto simp: handleClose_def split: option.split prod.split bool.split
      intro!: file_command_same_sys) (metis snd_conv)+

text \<open>What opening a stream does to the trace and to the session.\<close>

lemma insert_stream_terminated [simp]: "terminated (insert_stream i st s) = terminated s"
  by (simp add: insert_stream_def)

lemma opens_only_mono: "opens_only P s s' \<Longrightarrow> (\<And>st. P st \<Longrightarrow> Q st) \<Longrightarrow> opens_only Q s s'"
  unfolding opens_only_def by blast

lemma NewReadStream_calls:
  "NewReadStream K p s k = (r, s', k') \<Longrightarrow>
   calls k' = calls k @ [Call_Open p] \<and> terminated s' = terminated s \<and> (session_wf s \<longrightarrow> session_wf s')
   \<and> opens_only (\<lambda>st. \<exists>f. opened_file K p f \<and> st = ReadStream 0 f) s s'"
proof (cases "OpenFile K p k")
  case (Pair x k1)
  then have "x = Inr f \<Longrightarrow> opened_file K p f" for f by (simp add: opened_fileI)
  with Pair calls_os(9) [OF Pair] NewReadStream_wf [of s K p k]
  show "NewReadStream K p s k = (r, s', k') \<Longrightarrow> ?thesis"
    by (auto simp: NewReadStream_def intro!: opens_only_insert
        split: sum.splits os_err.splits option.splits)
qed

lemma start_write_calls:
  "start_write K p s k = (r, s', k') \<Longrightarrow>
   calls k' = calls k @ [Call_CreateTemp] \<and> terminated s' = terminated s
   \<and> (session_wf s \<longrightarrow> session_wf s')
   \<and> opens_only (\<lambda>st. \<exists>f. temp_file K f \<and> st = WriteStream 0 [] p f) s s'"
proof (cases "CreateTemp K k")
  case (Pair x k1)
  then have "x = Inr f \<Longrightarrow> temp_file K f" for f by (simp add: temp_fileI)
  with Pair calls_os(10) [OF Pair] start_write_wf [of s K p k]
  show "start_write K p s k = (r, s', k') \<Longrightarrow> ?thesis"
    by (auto simp: start_write_def intro!: opens_only_insert
        split: sum.splits os_err.splits option.splits)
qed

lemma NewWriteStream_calls:
  "NewWriteStream K p s k = (r, s', k') \<Longrightarrow>
   (\<exists>cs. calls k' = calls k @ cs \<and> set cs \<subseteq> {Call_Stat (Dir p), Call_Stat p, Call_CreateTemp})
   \<and> terminated s' = terminated s \<and> (session_wf s \<longrightarrow> session_wf s')
   \<and> opens_only (\<lambda>st. \<exists>f. temp_file K f \<and> st = WriteStream 0 [] p f) s s'"
  by (auto simp: NewWriteStream_def dest!: calls_os start_write_calls
      split: prod.splits sum.splits os_err.splits if_splits)

lemma resolve_path_can:
  "resolve_path g s v True = Inr p \<Longrightarrow> can_write g s p"
  "resolve_path g s v False = Inr p \<Longrightarrow> can_read g s p"
  by (auto simp: can_write_def can_read_def resolveRead_def resolveWrite_def)

lemma handleStream_read:
  assumes "resolve_path g s v False = Inr p"
    and "NewReadStream (kern e) p (session s) (sys g) = (r, ss, k)"
  shows "emits (may_call g s) (sys g) k" and "session_wf (session s) \<Longrightarrow> session_wf ss"
    and "terminated ss = terminated (session s)"
    and "opens_only (stream_allowed e g s) (session s) ss"
  using resolve_path_can(2) [OF assms(1)] NewReadStream_calls [OF assms(2)]
  by (auto simp: emits_def elim!: opens_only_mono)

lemma handleStream_write:
  assumes "resolve_path g s v True = Inr p"
    and "NewWriteStream (kern e) p (session s) (sys g) = (r, ss, k)"
  shows "emits (may_call g s) (sys g) k" and "session_wf (session s) \<Longrightarrow> session_wf ss"
    and "terminated ss = terminated (session s)"
    and "opens_only (stream_allowed e g s) (session s) ss"
proof -
  have "may_call g s c" if "c \<in> {Call_Stat (Dir p), Call_Stat p, Call_CreateTemp}" for c
    using that resolve_path_can(1) [OF assms(1)] by auto
  with NewWriteStream_calls [OF assms(2)] show "emits (may_call g s) (sys g) k"
    unfolding emits_def list_all_iff by (meson subsetD)
qed (use NewWriteStream_calls [OF assms(2)] resolve_path_can(1) [OF assms(1)] in
    \<open>auto elim!: opens_only_mono\<close>)

lemma handleStream_file: "file_command e (handleStream e args s g) s g"
proof -
  have "file_command e (case NewWriteStream (kern e) p (session s) (sys g) of
      (None, ss, k) \<Rightarrow> (Panicked m, s\<lparr>session := ss\<rparr>, put_sys k g)
    | (Some (Inl w), ss, k) \<Rightarrow> reply w (s\<lparr>session := ss\<rparr>) (put_sys k g)
    | (Some (Inr i), ss, k) \<Rightarrow> reply (NewInteger (int i)) (s\<lparr>session := ss\<rparr>) (put_sys k g)) s g"
    if "resolve_path g s v True = Inr p" for p v m
    using handleStream_write [OF that]
    by (auto split: prod.split option.split sum.split intro!: file_command_session)
  moreover have "file_command e (case NewReadStream (kern e) p (session s) (sys g) of
      (Inl w, ss, k) \<Rightarrow> reply w (s\<lparr>session := ss\<rparr>) (put_sys k g)
    | (Inr i, ss, k) \<Rightarrow> reply (NewInteger (int i)) (s\<lparr>session := ss\<rparr>) (put_sys k g)) s g"
    if "resolve_path g s v False = Inr p" for p v
    using handleStream_read [OF that]
    by (auto split: prod.split sum.split intro!: file_command_session)
  ultimately show ?thesis
    by (simp add: handleStream_def Let_def split: option.split sum.split)
qed

section \<open>Dispatch\<close>

text \<open>
  What one command can be, whatever its name: unknown or malformed, quiet, a log-in, a command
  on the database, or a command on files; each with the session updated first.
\<close>

lemma handler_cases:
  fixes e :: "'k env"
  assumes "getCommandHandler e n = Some h" and "h args s0 g = r"
  obtains (quiet) "quiet r s0 g"
    | (auth) "handleAuth e args s0 g = r"
    | (adduser) "handleAddUser e args s0 g = r"
    | (setpwd) "handleSetpwd e args s0 g = r"
    | (setadm) "handleSetadm e args s0 g = r"
    | (chroot_user) "handleChroot e args s0 g = r"
    | (rmuser) "handleRmuser e args s0 g = r"
    | (putacp) "handlePutAcp e args s0 g = r"
    | (rmacp) "handleRmAcp e args s0 g = r"
    | (on_files) "file_command e r s0 g"
proof -
  from assms(1) have "h \<in> snd ` set (commandHandlers e)"
    unfolding getCommandHandler_def by (auto dest!: map_of_SomeD intro: rev_image_eqI)
  then have "quiet r s0 g \<or> file_command e r s0 g \<or> h = handleAuth e \<or> h = handleAddUser e
      \<or> h = handleSetpwd e \<or> h = handleSetadm e \<or> h = handleChroot e \<or> h = handleRmuser e
      \<or> h = handlePutAcp e \<or> h = handleRmAcp e"
    unfolding commandHandlers_def assms(2) [symmetric]
    by (auto simp: handlePing_quiet handleWhoAmI_quiet handleToken_quiet handleShowUser_quiet
        handleListUser_quiet handleListAcp_quiet handleMkdir_file handleTouch_file handleDel_file
        handleMove_file handleCopy_file handleList_file handleStream_file handleClose_file)
  with assms(2) that show thesis by metis
qed

text \<open>What dispatching adds to that.\<close>

lemma dispatch_handles:
  assumes "dispatchCommand e cmd s g = r"
  obtains (refused) w where "r = reply w s g"
    | (malformed) m where "r = (Panicked m, s, g)" and "\<nexists>n args. cmd = String n # args"
    | (handled) n args h where "cmd = String n # args" and "getCommandHandler e n = Some h"
      and "h args (update (flydb g) s) g = r"
proof (cases "\<exists>n args h. cmd = String n # args \<and> getCommandHandler e n = Some h")
  case False
  then show thesis
    using assms that(1,2)
    by (auto simp: dispatchCommand_def as_String_None split: list.splits option.splits)
next
  case True
  with assms that(3) show thesis by (auto simp: dispatchCommand_def)
qed

end
