(* ===== verification/Server_Ops.thy ===== *)
theory Server_Ops
  imports Server_Facts
begin

text \<open>
  The server as an access-controlled database. \<open>db_op\<close> are the changes a command can
  ask for, \<open>run_op\<close> what each does, \<open>permitted\<close> who may ask for it. The lemmas show
  that every command, whatever its arguments, comes down to one permitted change, and how the
  session's user can change.
\<close>

section \<open>The abstract commands\<close>

datatype db_op =
    Keep
  | Add_user user
  | Set_password string bytes
  | Set_admin string bool
  | Set_chroot string string
  | Remove_user string
  | Put_policy policy
  | Remove_policy string

fun run_op :: "io_fault \<Rightarrow> db_op \<Rightarrow> handle \<Rightarrow> op_error option \<times> handle" where
  "run_op f Keep db = (None, db)"
| "run_op f (Add_user u) db = AddUser f u db"
| "run_op f (Set_password n h) db = UpdateUser f n (\<lambda>u. u\<lparr>Password := h\<rparr>) db"
| "run_op f (Set_admin n b) db = UpdateUser f n (\<lambda>u. u\<lparr>Admin := b\<rparr>) db"
| "run_op f (Set_chroot n c) db = UpdateUser f n (\<lambda>u. u\<lparr>Chroot := c\<rparr>) db"
| "run_op f (Remove_user n) db = DeleteUser f n db"
| "run_op f (Put_policy p) db = PutAccessPolicy f p db"
| "run_op f (Remove_policy n) db = DeleteAccessPolicy f n db"

text \<open>
  While there are no users anyone may add the first one, who becomes administrator. After that
  administrators manage users and policies, and users set their own password.
\<close>

fun permitted :: "sessionInfo \<Rightarrow> db_op \<Rightarrow> bool" where
  "permitted s Keep = True"
| "permitted s (Add_user u) =
     (valid_user u \<and> Chroot u = [] \<and> Admin u = singleUser s \<and> (singleUser s \<or> is_admin s))"
| "permitted s (Set_password n h) = (\<not> singleUser s \<and> (username s = n \<or> is_admin s))"
| "permitted s (Put_policy p) = (valid_policy p \<and> \<not> singleUser s \<and> is_admin s)"
| "permitted s _ = (\<not> singleUser s \<and> is_admin s)"

text \<open>\<open>op\<close> accounts for what a command did to the database and for how it ended.\<close>

definition accounts_for :: "io_fault \<Rightarrow> db_op \<Rightarrow> outcome \<Rightarrow> handle \<Rightarrow> handle \<Rightarrow> bool" where
  "accounts_for f op out db db' \<longleftrightarrow>
     db' = snd (run_op f op db)
     \<and> (\<forall>w. out = Reply w \<longrightarrow> fst (run_op f op db) = None \<or> db' = db)
     \<and> (\<forall>m x. out = Fatal m x \<longrightarrow> fst (run_op f op db) = Some x)
     \<and> (\<forall>m. out = Panicked m \<longrightarrow> db' = db)"

lemma accounts_Keep [simp]: "accounts_for f Keep out db db \<longleftrightarrow> (\<forall>m x. out \<noteq> Fatal m x)"
  by (auto simp: accounts_for_def)

section \<open>Every command on the database is one permitted change\<close>

text \<open>
  What such a command leaves alone, and the one call to the operating system there can be: an
  administrator's \<open>CHROOT\<close> makes the folder.
\<close>

definition makes_chroot :: "'k server \<Rightarrow> sessionInfo \<Rightarrow> 'k server \<Rightarrow> bool" where
  "makes_chroot g s g' \<longleftrightarrow> is_admin s \<and> \<not> singleUser s
     \<and> (\<exists>p chroot. ResolveSingleUser (GetPolicies (flydb g)) (root g) chroot = Inr p
          \<and> calls (sys g') = calls (sys g) @ [Call_MkdirAll p])"

definition constants_kept :: "'k server \<Rightarrow> 'k server \<Rightarrow> bool" where
  "constants_kept g g' \<longleftrightarrow> root g' = root g \<and> tokenKey g' = tokenKey g \<and> now g' = now g"

definition db_command ::
  "'k env \<Rightarrow> sessionInfo \<Rightarrow> 'k server \<Rightarrow> outcome \<Rightarrow> 'k server \<Rightarrow> db_op \<Rightarrow> bool" where
  "db_command e s g out g' op \<longleftrightarrow>
     permitted s op \<and> accounts_for (fault e) op out (flydb g) (flydb g') \<and> constants_kept g g'
     \<and> (calls (sys g') = calls (sys g) \<or> makes_chroot g s g')"

lemma constants_kept_refl [simp]: "constants_kept g g"
  by (simp add: constants_kept_def)

lemma constants_kept_update [simp]:
  "constants_kept g (gm\<lparr>rand := n\<rparr>) = constants_kept g gm"
  "constants_kept g (gm\<lparr>sys := k\<rparr>) = constants_kept g gm"
  "constants_kept g (put_db db gm) = constants_kept g gm"
  "constants_kept g (put_sys k gm) = constants_kept g gm"
  by (simp_all add: constants_kept_def)

text \<open>The four shapes in which the handlers end.\<close>

lemma quiet_command:
  "quiet (out, s', g') s g \<Longrightarrow> s' = s \<and> (\<exists>w. out = Reply w) \<and> db_command e s g out g' Keep"
  by (auto simp: quiet_def db_command_def)

lemma commit_command:
  assumes "(out, s', g') = commit m (run_op (fault e) op (flydb g)) s gm"
    and "permitted s op" and "constants_kept g gm"
    and "calls (sys gm) = calls (sys g) \<or> makes_chroot g s gm"
  shows "s' = s \<and> db_command e s g out g' op"
  using assms
  by (auto simp: commit_def accounts_for_def db_command_def makes_chroot_def
      split: prod.splits option.splits)

lemma commit_delete_command:
  assumes "(out, s', g') = commit_delete n m (run_op (fault e) op (flydb g)) s g"
    and "permitted s op" and "op = Remove_user k \<or> op = Remove_policy k"
  shows "s' = s \<and> db_command e s g out g' op"
  using assms
  by (auto simp: commit_delete_def commit_def accounts_for_def DeleteUser_def DeleteAccessPolicy_def
      db_result_def db_command_def split: prod.splits option.splits op_error.splits if_splits)

lemma register_command:
  assumes "(out, s', g') = register_user e u s gm" and "permitted s (Add_user u)"
    and "flydb gm = flydb g" and "sys gm = sys g" and "constants_kept g gm"
  shows "db_command e s g out g' (Add_user u)
    \<and> (s' = s \<or> singleUser s \<and> fst (AddUser (fault e) u (flydb g)) = None
        \<and> s' = changeUser (flydb g') (Username u) s)"
  using assms
  by (auto simp: register_user_def accounts_for_def AddUser_def db_result_def Let_def db_command_def
      split: prod.splits option.splits op_error.splits if_splits)

lemma handleAddUser_op:
  assumes "handleAddUser e args s g = (out, s', g')"
  shows "\<exists>op. db_command e s g out g' op
    \<and> (s' = s \<or> (\<exists>u. op = Add_user u \<and> singleUser s \<and> fst (run_op (fault e) op (flydb g)) = None
          \<and> s' = changeUser (flydb g') (Username u) s))"
  using assms
proof (cases rule: handleAddUser_cases)
  case quiet
  then show ?thesis using quiet_command by blast
next
  case (add name pw hash)
  from register_command [OF add(6), of g] add show ?thesis
    by (intro exI [of _ "Add_user \<lparr>Username = name, Password = hash, Chroot = [], Admin = singleUser s\<rparr>"])
      auto
qed

lemma handleSetpwd_op:
  assumes "handleSetpwd e args s g = (out, s', g')"
  shows "\<exists>op. s' = s \<and> db_command e s g out g' op"
  using assms
proof (cases rule: handleSetpwd_cases)
  case quiet
  then show ?thesis using quiet_command by blast
next
  case (set name pw hash)
  then show ?thesis
    by (intro exI [of _ "Set_password name hash"])
      (rule commit_command [where gm = "g\<lparr>rand := Suc (rand g)\<rparr>"], auto)
qed

lemma handleSetadm_op:
  assumes "handleSetadm e args s g = (out, s', g')"
  shows "\<exists>op. s' = s \<and> db_command e s g out g' op"
  using assms
proof (cases rule: handleSetadm_cases)
  case quiet
  then show ?thesis using quiet_command by blast
next
  case (set name admin)
  then show ?thesis
    by (intro exI [of _ "Set_admin name admin"]) (rule commit_command [where gm = g], auto)
qed

lemma handleChroot_op:
  assumes "handleChroot e args s g = (out, s', g')"
  shows "\<exists>op. s' = s \<and> db_command e s g out g' op"
  using assms
proof (cases rule: handleChroot_cases)
  case quiet
  then show ?thesis using quiet_command by blast
next
  case (mkdir chroot real w k)
  then show ?thesis
    by (intro exI [of _ Keep]) (auto simp: db_command_def makes_chroot_def dest!: calls_os)
next
  case (set name chroot real k)
  then have "makes_chroot g s (g\<lparr>sys := k\<rparr>)" by (auto simp: makes_chroot_def dest!: calls_os)
  with set show ?thesis
    by (intro exI [of _ "Set_chroot name chroot"])
      (rule commit_command [where gm = "g\<lparr>sys := k\<rparr>"], auto)
qed

lemma handleRmuser_op:
  assumes "handleRmuser e args s g = (out, s', g')"
  shows "\<exists>op. s' = s \<and> db_command e s g out g' op"
  using assms
proof (cases rule: handleRmuser_cases)
  case quiet
  then show ?thesis using quiet_command by blast
next
  case (remove name)
  then show ?thesis
    by (intro exI [of _ "Remove_user name"]) (rule commit_delete_command, auto)
qed

lemma handleRmAcp_op:
  assumes "handleRmAcp e args s g = (out, s', g')"
  shows "\<exists>op. s' = s \<and> db_command e s g out g' op"
  using assms
proof (cases rule: handleRmAcp_cases)
  case quiet
  then show ?thesis using quiet_command by blast
next
  case (remove name)
  then show ?thesis
    by (intro exI [of _ "Remove_policy name"]) (rule commit_delete_command, auto)
qed

lemma handlePutAcp_op:
  assumes "handlePutAcp e args s g = (out, s', g')"
  shows "\<exists>op. s' = s \<and> db_command e s g out g' op"
  using assms
proof (cases rule: handlePutAcp_cases)
  case quiet
  then show ?thesis using quiet_command by blast
next
  case (put p us ps)
  then show ?thesis
    by (intro exI [of _ "Put_policy p"]) (rule commit_command [where gm = g], auto)
qed

section \<open>Commands on files\<close>

text \<open>The session is the same one, its streams apart.\<close>

definition same_user :: "sessionInfo \<Rightarrow> sessionInfo \<Rightarrow> bool" where
  "same_user s s' \<longleftrightarrow> username s' = username s \<and> suser s' = suser s \<and> singleUser s' = singleUser s
     \<and> terminated (session s') = terminated (session s)"

lemma same_user_refl [simp]: "same_user s s"
  by (simp add: same_user_def)

lemma file_commandE:
  "file_command e (out, s', g') s g \<Longrightarrow>
   (\<forall>m x. out \<noteq> Fatal m x) \<and> same_user s s' \<and> flydb g' = flydb g \<and> constants_kept g g'
   \<and> emits (may_call g s) (sys g) (sys g')
   \<and> (session_wf (session s) \<longrightarrow> session_wf (session s'))
   \<and> opens_only (stream_allowed e g s) (session s) (session s')"
  by (auto simp: file_command_def same_user_def)

section \<open>Every command\<close>

text \<open>
  The five things the handler of a known command can amount to, for the session as it finds it:
  a change of the database by the session as it is, a registration that logs in, a log-in, a
  panic while verifying a token, and work on files.
\<close>

lemma handler_effect:
  fixes e :: "'k env"
  assumes "getCommandHandler e n = Some h" and "h args s0 g = (out, s', g')"
  obtains (database) op where "s' = s0" and "db_command e s0 g out g' op"
    | (first) u where "db_command e s0 g out g' (Add_user u)" and "singleUser s0"
      and "fst (AddUser (fault e) u (flydb g)) = None" and "s' = changeUser (flydb g') (Username u) s0"
    | (login) name where "proves_identity e g args name"
      and "out = Reply OK" and "s' = changeUser (flydb g) name s0" and "g' = g"
    | (panic) m token key where "args = [String ''TOK'', String token]"
      and "tokenKey g = Some key" and "verifyToken e (now g) key token = Verify_panic m"
      and "out = Panicked m" and "s' = s0" and "g' = g"
    | (files) "file_command e (out, s', g') s0 g"
proof -
  have db: thesis if "\<exists>op. s' = s0 \<and> db_command e s0 g out g' op" using that database by blast
  from assms show thesis
  proof (cases rule: handler_cases)
    case quiet
    then show thesis using db quiet_command by blast
  next
    case auth
    then show thesis
    proof (cases rule: handleAuth_cases)
      case quiet
      then show thesis using db quiet_command by blast
    next
      case (panic m token key)
      then show thesis using that(4) [of token key m] by simp
    next
      case (login name)
      then show thesis using that(3) [of name] by simp
    qed
  next
    case adduser
    from handleAddUser_op [OF this] show thesis using db that(2) by auto
  next
    case on_files
    then show thesis using that(5) by blast
  qed (drule handleSetpwd_op handleSetadm_op handleChroot_op handleRmuser_op handlePutAcp_op
        handleRmAcp_op, rule db, assumption)+
qed

text \<open>A command: that for the session as it is once it has been updated, or nothing at all.\<close>

lemma dispatch_effect:
  fixes e :: "'k env"
  assumes "dispatchCommand e cmd s g = (out, s', g')"
  defines "s0 \<equiv> update (flydb g) s"
  obtains (idle) "s' = s" and "g' = g" and "\<And>m x. out \<noteq> Fatal m x"
    | (database) op where "s' = s0" and "db_command e s0 g out g' op"
    | (first) u where "db_command e s0 g out g' (Add_user u)" and "singleUser s0"
      and "fst (AddUser (fault e) u (flydb g)) = None" and "s' = changeUser (flydb g') (Username u) s0"
    | (login) n args name where "cmd = String n # args" and "proves_identity e g args name"
      and "out = Reply OK" and "s' = changeUser (flydb g) name s0" and "g' = g"
    | (panic) m n token key where "cmd = [String n, String ''TOK'', String token]"
      and "tokenKey g = Some key" and "verifyToken e (now g) key token = Verify_panic m"
      and "out = Panicked m" and "s' = s0" and "g' = g"
    | (files) "file_command e (out, s', g') s0 g"
  using assms(1)
proof (cases rule: dispatch_handles)
  case (handled n args h)
  from handled(2,3) [folded s0_def] show thesis
    by (cases rule: handler_effect) (use that handled(1) in blast)+
qed (use that(1) in simp_all)

end
