(* ===== verification/Tls.thy ===== *)
theory Tls
  imports Db_Store
begin

text \<open>
  The TLS certificate of the server, \<^verbatim>\<open>src/internal/db/tls.go\<close>: generating it, loading it, and
  the timer that renews it. RSA, X.509 and PEM are parameters (record \<open>tls_lib\<close>); theory
  \<open>Db_Store\<close> sees of all this only what it leaves in the error of the handle.
\<close>

section \<open>The libraries and what may fail\<close>

text \<open>
  Keys, serial numbers, certificates and encoded keys are byte sequences; times are in
  nanoseconds. \<open>create_cert key serial notBefore notAfter\<close>; \<open>not_after\<close> is the parsed end of
  validity.
\<close>

record tls_lib =
  gen_key :: "nat \<Rightarrow> string + bytes"
  gen_serial :: "nat \<Rightarrow> string + bytes"
  create_cert :: "bytes \<Rightarrow> bytes \<Rightarrow> int \<Rightarrow> int \<Rightarrow> string + bytes"
  marshal_key :: "bytes \<Rightarrow> string + bytes"
  pem_encode :: "string \<Rightarrow> bytes \<Rightarrow> bytes"
  pem_decode :: "bytes \<Rightarrow> (string \<times> bytes) option"
  not_after :: "bytes \<Rightarrow> string + int"
  load_pair :: "bytes \<Rightarrow> bytes \<Rightarrow> string + bytes \<times> bytes"

text \<open>
  The calls on the two files: creating or writing one may fail (a write after a part), and so
  may examining or reading one.
\<close>

record tls_fault =
  cert_create :: "string option"
  cert_write :: "(bytes \<times> string) option"
  key_open :: "string option"
  key_write :: "(bytes \<times> string) option"
  cert_stat :: "string option"
  cert_read :: "string option"
  key_read :: "string option"

section \<open>The state\<close>

text \<open>The handle, the certificate that \<open>GetCertificate\<close> returns, and when the timer expires.\<close>

record tls_state =
  tdb :: handle
  certificate :: "(bytes \<times> bytes) option"
  timer :: "int option"

definition cert_path :: "handle \<Rightarrow> string" where
  "cert_path db = Join [dir db, ''.fly/cert.pem'']"

definition key_path :: "handle \<Rightarrow> string" where
  "key_path db = Join [dir db, ''.fly/key.pem'']"

definition hour :: int where "hour = 3600 * 10 ^ 9"

definition year :: int where "year = 365 * 24 * hour"

section \<open>Generating\<close>

definition put_file :: "string \<Rightarrow> bytes \<Rightarrow> handle \<Rightarrow> handle" where
  "put_file p b db = db\<lparr>disk := (disk db)(p \<mapsto> b)\<rparr>"

text \<open>Creating a file (it is empty then) and writing all of it.\<close>

definition write_pem ::
  "string \<Rightarrow> string option \<Rightarrow> (bytes \<times> string) option \<Rightarrow> string \<Rightarrow> bytes \<Rightarrow> handle \<Rightarrow> string option \<times> handle"
where
  "write_pem what open_fails write_fails p b db =
     (case open_fails of
        Some x \<Rightarrow> (Some (''failed to open '' @ what @ '' for writing: '' @ x), db)
      | None \<Rightarrow>
          (case write_fails of
             Some (part, x) \<Rightarrow> (Some (''failed to write data to '' @ what @ '': '' @ x), put_file p part db)
           | None \<Rightarrow> (None, put_file p b db)))"

definition tls_failed :: "string \<Rightarrow> handle \<Rightarrow> handle" where
  "tls_failed msg db = set_err (''Failed to generate TLS certificate: '' @ msg) No_cause db"

definition generateCert :: "tls_lib \<Rightarrow> tls_fault \<Rightarrow> nat \<Rightarrow> int \<Rightarrow> int \<Rightarrow> handle \<Rightarrow> handle" where
  "generateCert L f seed t expiry db =
     (if err db \<noteq> None then db
      else
        case gen_key L seed of
          Inl x \<Rightarrow> tls_failed (''failed to generate private key: '' @ x) db
        | Inr priv \<Rightarrow>
            (case gen_serial L seed of
               Inl x \<Rightarrow> tls_failed (''failed to generate serial number: '' @ x) db
             | Inr serialNumber \<Rightarrow>
                 (case create_cert L priv serialNumber t (t + expiry) of
                    Inl x \<Rightarrow> tls_failed x db
                  | Inr derBytes \<Rightarrow>
                      (case write_pem ''cert.pem'' (cert_create f) (cert_write f) (cert_path db)
                              (pem_encode L ''CERTIFICATE'' derBytes) db of
                         (Some x, db1) \<Rightarrow> tls_failed x db1
                       | (None, db1) \<Rightarrow>
                           (case key_open f of
                              Some x \<Rightarrow> tls_failed (''failed to open key.pem for writing: '' @ x) db1
                            | None \<Rightarrow>
                                (case marshal_key L priv of
                                   Inl x \<Rightarrow> tls_failed (''unable to marshal private key: '' @ x)
                                              (put_file (key_path db) [] db1)
                                 | Inr privBytes \<Rightarrow>
                                     (case write_pem ''key.pem'' None (key_write f) (key_path db)
                                             (pem_encode L ''PRIVATE KEY'' privBytes) db1 of
                                        (Some x, db2) \<Rightarrow> tls_failed x db2
                                      | (None, db2) \<Rightarrow> db2)))))))"

definition generateTlsCert :: "tls_lib \<Rightarrow> tls_fault \<Rightarrow> nat \<Rightarrow> int \<Rightarrow> handle \<Rightarrow> handle" where
  "generateTlsCert L f seed t db = generateCert L f seed t year db"

section \<open>Loading\<close>

definition certExists :: "tls_fault \<Rightarrow> handle \<Rightarrow> bool" where
  "certExists f db \<longleftrightarrow> cert_stat f \<noteq> None \<or> disk db (cert_path db) \<noteq> None"

definition getCertExpiry :: "tls_lib \<Rightarrow> tls_fault \<Rightarrow> handle \<Rightarrow> string + int" where
  "getCertExpiry L f db =
     (case (cert_read f, disk db (cert_path db)) of
        (Some x, _) \<Rightarrow> Inl (''failed to read certificate: '' @ x)
      | (None, None) \<Rightarrow> Inl ''failed to read certificate: no such file or directory''
      | (None, Some pemBytes) \<Rightarrow>
          (case pem_decode L pemBytes of
             Some (kind, b) \<Rightarrow>
               if kind \<noteq> ''CERTIFICATE'' then Inl ''failed to decode PEM block''
               else (case not_after L b of
                       Inl x \<Rightarrow> Inl (''failed to parse certificate: '' @ x)
                     | Inr t \<Rightarrow> Inr t)
           | None \<Rightarrow> Inl ''failed to decode PEM block''))"

text \<open>\<open>tls.LoadX509KeyPair\<close> reads both files.\<close>

definition LoadX509KeyPair :: "tls_lib \<Rightarrow> tls_fault \<Rightarrow> handle \<Rightarrow> string + bytes \<times> bytes" where
  "LoadX509KeyPair L f db =
     (case (cert_read f, key_read f, disk db (cert_path db), disk db (key_path db)) of
        (None, None, Some c, Some k) \<Rightarrow> load_pair L c k
      | (Some x, _) \<Rightarrow> Inl x
      | (None, Some x, _) \<Rightarrow> Inl x
      | _ \<Rightarrow> Inl ''no such file or directory'')"

text \<open>
  Loading: a certificate that is missing, expired or about to expire is generated; the timer is
  set to one hour before it expires; then the two files are loaded.
\<close>

definition loadTlsCert :: "tls_lib \<Rightarrow> tls_fault \<Rightarrow> nat \<Rightarrow> int \<Rightarrow> tls_state \<Rightarrow> tls_state" where
  "loadTlsCert L f seed t s =
     (if err (tdb s) \<noteq> None then s
      else
        let db1 = (if certExists f (tdb s) then tdb s else generateTlsCert L f seed t (tdb s)) in
        case getCertExpiry L f db1 of
          Inl x \<Rightarrow> s\<lparr>tdb := set_err (''Failed to get TLS certificate expiry: '' @ x) No_cause db1\<rparr>
        | Inr e1 \<Rightarrow>
            let expired = e1 < t + hour;
                expiry = (if expired then t + year else e1);
                db2 = (if expired then generateTlsCert L f (Suc seed) t db1 else db1);
                s1 = s\<lparr>tdb := db2, timer := Some (t + (expiry - (t + hour)))\<rparr>
            in case LoadX509KeyPair L f db2 of
                 Inl x \<Rightarrow> s1\<lparr>tdb := set_err (''Failed to load TLS certificate: '' @ x) No_cause db2\<rparr>
               | Inr cert \<Rightarrow> s1\<lparr>certificate := Some cert\<rparr>)"

text \<open>What the goroutine does when the timer expires.\<close>

definition renew :: "tls_lib \<Rightarrow> tls_fault \<Rightarrow> nat \<Rightarrow> int \<Rightarrow> tls_state \<Rightarrow> tls_state" where
  "renew L f seed t s =
     loadTlsCert L f (Suc seed) t (s\<lparr>tdb := generateTlsCert L f seed t (tdb s)\<rparr>)"

end
