(* ===== verification/Tls_Facts.thy ===== *)
theory Tls_Facts
  imports Tls Db_Reload
begin

text \<open>
  What loading and renewing the certificate do to the handle of the database: they touch only
  the two files of the certificate and the error, and an error they leave says so.
\<close>

section \<open>What it touches\<close>

text \<open>Two handles that differ at most in the error and in the two files of the certificate.\<close>

definition tls_only :: "handle \<Rightarrow> handle \<Rightarrow> bool" where
  "tls_only db db' \<longleftrightarrow> dir db' = dir db \<and> users db' = users db \<and> policies db' = policies db
     \<and> (\<forall>q. q \<noteq> cert_path db \<and> q \<noteq> key_path db \<longrightarrow> disk db' q = disk db q)"

lemma tls_only_refl [simp]: "tls_only db db"
  by (simp add: tls_only_def)

lemma tls_only_trans: "tls_only a b \<Longrightarrow> tls_only b c \<Longrightarrow> tls_only a c"
  by (auto simp: tls_only_def cert_path_def key_path_def)

lemma tls_only_err [simp]:
  "tls_only db (set_err m c db') = tls_only db db'" "tls_only db (tls_failed m db') = tls_only db db'"
  by (simp_all add: tls_only_def tls_failed_def)

lemma tls_only_put [simp]:
  "tls_only db (put_file (cert_path db) b db)" "tls_only db (put_file (key_path db) b db)"
  by (simp_all add: tls_only_def put_file_def)

lemma tls_failed_err [simp]:
  "err (tls_failed m db) = Some (DbErr (''Failed to generate TLS certificate: '' @ m) No_cause)"
  by (simp add: tls_failed_def)

lemma put_file_simps [simp]:
  "err (put_file p b db) = err db" "dir (put_file p b db) = dir db"
  "disk (put_file p b db) = (disk db)(p \<mapsto> b)"
  "cert_path (put_file p b db) = cert_path db" "key_path (put_file p b db) = key_path db"
  by (simp_all add: put_file_def cert_path_def key_path_def)

lemma write_pem_cases:
  "write_pem n fo w p b db = (x, db') \<Longrightarrow>
   x \<noteq> None \<and> (db' = db \<or> (\<exists>c. db' = put_file p c db)) \<or> x = None \<and> fo = None \<and> db' = put_file p b db"
  by (auto simp: write_pem_def split: option.splits prod.splits)

lemma write_pem_simps [simp]:
  "write_pem n None None p b db = (None, put_file p b db)"
  "write_pem n None (Some (part, y)) p b db
    = (Some (''failed to write data to '' @ n @ '': '' @ y), put_file p part db)"
  by (simp_all add: write_pem_def)

lemma tls_only_files [simp]:
  "tls_only db (put_file (key_path db) k (put_file (cert_path db) c db))"
  by (simp add: tls_only_def put_file_def)

text \<open>Generating leaves an error, or both files new.\<close>

lemma generateCert_cases:
  assumes "err db = None"
  shows "err (generateCert L f seed t expiry db) \<noteq> None \<and> tls_only db (generateCert L f seed t expiry db)
    \<or> cert_create f = None \<and> (\<exists>priv serial d k. create_cert L priv serial t (t + expiry) = Inr d
        \<and> generateCert L f seed t expiry db
          = put_file (key_path db) k (put_file (cert_path db) (pem_encode L ''CERTIFICATE'' d) db))"
proof (cases "\<exists>priv serial d. gen_key L seed = Inr priv \<and> gen_serial L seed = Inr serial
    \<and> create_cert L priv serial t (t + expiry) = Inr d")
  case False
  with assms show ?thesis by (auto simp: generateCert_def split: sum.splits)
next
  case True
  then obtain priv serial d where d: "gen_key L seed = Inr priv" "gen_serial L seed = Inr serial"
    "create_cert L priv serial t (t + expiry) = Inr d" by blast
  obtain x db1 where w: "write_pem ''cert.pem'' (cert_create f) (cert_write f) (cert_path db)
      (pem_encode L ''CERTIFICATE'' d) db = (x, db1)" by fastforce
  show ?thesis
  proof (cases x)
    case (Some m)
    with d w assms write_pem_cases [OF w] show ?thesis by (auto simp: generateCert_def)
  next
    case None
    with write_pem_cases [OF w] have db1: "db1 = put_file (cert_path db) (pem_encode L ''CERTIFICATE'' d) db"
      and c: "cert_create f = None" by auto
    have g: "generateCert L f seed t expiry db =
        (case key_open f of
           Some y \<Rightarrow> tls_failed (''failed to open key.pem for writing: '' @ y) db1
         | None \<Rightarrow>
             (case marshal_key L priv of
                Inl y \<Rightarrow> tls_failed (''unable to marshal private key: '' @ y) (put_file (key_path db) [] db1)
              | Inr k \<Rightarrow>
                  (case write_pem ''key.pem'' None (key_write f) (key_path db) (pem_encode L ''PRIVATE KEY'' k) db1 of
                     (Some y, db2) \<Rightarrow> tls_failed y db2 | (None, db2) \<Rightarrow> db2)))"
      using d w None assms by (simp add: generateCert_def)
    show ?thesis
    proof (cases "key_open f = None \<and> (\<exists>k. marshal_key L priv = Inr k) \<and> key_write f = None")
      case True
      then obtain k where "generateCert L f seed t expiry db = put_file (key_path db) k db1"
        by (auto simp: g)
      then show ?thesis using d(3) c unfolding db1 by blast
    next
      case False
      then show ?thesis
        by (cases "key_open f"; cases "marshal_key L priv"; cases "key_write f") (auto simp: g db1)
    qed
  qed
qed

lemma tls_names:
  "cert_path db = fly_prefix (dir db) @ ''cert.pem''" "key_path db = fly_prefix (dir db) @ ''key.pem''"
  using Join_fly [of "''cert.pem''" "dir db"] Join_fly [of "''key.pem''" "dir db"]
  by (simp_all add: cert_path_def key_path_def plain_def dotted_def)

lemma generate_broken: "err db \<noteq> None \<Longrightarrow> generateTlsCert L f seed t db = db"
  by (simp add: generateTlsCert_def generateCert_def)

lemma generate_only: "tls_only db (generateTlsCert L f seed t db)"
  using generateCert_cases [of db L f seed t year] generate_broken [of db L f seed t]
  by (cases "err db = None") (auto simp: generateTlsCert_def)

text \<open>
  \<open>Open\<close> in theory \<open>Db_Store\<close> takes only the error from loading the certificate: that is all it
  changes of the handle, apart from its own two files.
\<close>

lemma loading_abstracts:
  "tls_only (tdb s) (tdb (loadTlsCert L f seed t s))
   \<and> err (tdb (loadTlsCert L f seed t s)) = err (tls_outcome (err (tdb (loadTlsCert L f seed t s))) (tdb s))"
proof
  have 2: "tls_only db (generateTlsCert L f (Suc seed) t (generateTlsCert L f seed t db))" for db
    by (rule tls_only_trans [OF generate_only generate_only])
  show "tls_only (tdb s) (tdb (loadTlsCert L f seed t s))"
    by (auto simp: loadTlsCert_def Let_def generate_only 2 split: sum.split)
  show "err (tdb (loadTlsCert L f seed t s)) = err (tls_outcome (err (tdb (loadTlsCert L f seed t s))) (tdb s))"
    by (simp add: loadTlsCert_def tls_outcome_def)
qed

lemma loading_only: "tls_only (tdb s) (tdb (loadTlsCert L f seed t s))"
  using loading_abstracts [of s L f seed t] by blast

lemma renew_only: "tls_only (tdb s) (tdb (renew L f seed t s))"
  using tls_only_trans [OF generate_only loading_only [of "s\<lparr>tdb := generateTlsCert L f seed t (tdb s)\<rparr>", simplified]]
  by (simp add: renew_def)

section \<open>The errors it leaves\<close>

text \<open>The three messages of \<^verbatim>\<open>tls.go\<close>, and a handle whose error, if any, is one of them.\<close>

fun tls_error_text :: "db_err \<Rightarrow> bool" where
  "tls_error_text (DbErr m c) \<longleftrightarrow> c = No_cause
     \<and> (prefix ''Failed to generate TLS certificate: '' m
        \<or> prefix ''Failed to get TLS certificate expiry: '' m
        \<or> prefix ''Failed to load TLS certificate: '' m)"

definition only_tls_error :: "handle \<Rightarrow> bool" where
  "only_tls_error db \<longleftrightarrow> (\<forall>x. err db = Some x \<longrightarrow> tls_error_text x)"

lemma only_tls_errorI: "err db = None \<Longrightarrow> only_tls_error db"
  by (simp add: only_tls_error_def)

lemma only_tls_error_failed [simp]: "only_tls_error (tls_failed m db)"
  by (simp add: only_tls_error_def)

lemma only_tls_error_put [simp]: "only_tls_error (put_file p b db) = only_tls_error db"
  by (simp add: only_tls_error_def)

lemma only_tls_error_set [simp]: "only_tls_error (set_err m c db) = tls_error_text (DbErr m c)"
  by (simp add: only_tls_error_def)

lemma generate_tls_error: "only_tls_error db \<Longrightarrow> only_tls_error (generateTlsCert L f seed t db)"
  by (auto simp: generateTlsCert_def generateCert_def dest!: write_pem_cases
      split: sum.split option.split prod.split)

lemma loading_tls_error: "only_tls_error (tdb s) \<Longrightarrow> only_tls_error (tdb (loadTlsCert L f seed t s))"
  by (auto simp: loadTlsCert_def Let_def generate_tls_error split: sum.split)

lemma renew_tls_error: "only_tls_error (tdb s) \<Longrightarrow> only_tls_error (tdb (renew L f seed t s))"
  unfolding renew_def by (rule loading_tls_error) (simp add: generate_tls_error)

text \<open>An error that is pending is never taken back.\<close>

lemma load_broken: "err (tdb s) \<noteq> None \<Longrightarrow> loadTlsCert L f seed t s = s"
  by (simp add: loadTlsCert_def)

lemma renew_broken: "err (tdb s) \<noteq> None \<Longrightarrow> renew L f seed t s = s"
  by (simp add: renew_def load_broken generate_broken)

end
