(* ===== verification/Server_Run.thy ===== *)
theory Server_Run
  imports Server_Ops Tls_Facts
begin

text \<open>
  The running server: \<open>main\<close> of \<^verbatim>\<open>src/cmd/fly-server/main.go\<close> from opening the
  database to the loop that accepts connections, as a step relation on the server and the
  sessions of its clients. One step is one connection, one command of one client, answered, a
  renewal of the certificate, or the passing of time; commands of different clients interleave in
  any order. A command that ends the process has no successor.
\<close>

section \<open>The code\<close>

record 'k system =
  srv :: "'k server"
  clients :: "sessionInfo list"

text \<open>
  Starting up: the root directory must be a directory (asking for the kind of a nil
  \<open>FileInfo\<close> ends the process as well), the database must open. \<open>got\<close> is what the source
  of randomness delivers for the token key; that it failed is only logged.
\<close>

definition boot ::
  "'k kernel \<Rightarrow> bcrypt \<Rightarrow> open_env \<Rightarrow> string \<Rightarrow> (string \<rightharpoonup> bytes) \<Rightarrow> bytes \<Rightarrow> int \<Rightarrow> 'k sys
     \<Rightarrow> 'k system option" where
  "boot K hasher env d files got t k =
     (case Stat K d k of
        (Inl _, _) \<Rightarrow> None
      | (Inr info, k1) \<Rightarrow>
          if InfoKind info \<noteq> Directory then None
          else case Open hasher env d files of
            Inl _ \<Rightarrow> None
          | Inr db \<Rightarrow>
              Some \<lparr>srv = \<lparr>root = d, flydb = db, tokenKey = Some (fst (RandomKey 16 got)), sys = k1, rand = 0, now = t\<rparr>,
                    clients = []\<rparr>)"

text \<open>
  What the goroutines of a connection do to its session between commands: frames go in and out
  of a write stream, a stream ends and releases its slot, the connection is told to end.
\<close>

inductive moves :: "session \<Rightarrow> session \<Rightarrow> bool" where
  frames_move: "i < length (streams s) \<Longrightarrow> streams s ! i = Some (WriteStream n fs p x) \<Longrightarrow>
    moves s (s\<lparr>streams := (streams s)[i := Some (WriteStream n fs' p x)]\<rparr>)"
| stream_ends: "i \<in> used_slots s \<Longrightarrow> moves s (releaseStream i s)"
| told_to_end: "moves s (Terminate s)"

text \<open>
  The environment of a command may be another one each time: other faults, other answers. Which
  commands may come, and with which environments, is the argument \<open>ok\<close>. In a step \<open>world\<close> the
  operating system changes, by a stream or by another process; in a step \<open>renewal\<close> the goroutine
  that \<open>loadTlsCert\<close> has left behind renews the certificate in the handle that the commands
  share. The timer and the certificate that is served are no part of the system here, so a
  renewal may come at any time and with any values of theirs.
\<close>

inductive serves :: "('k env \<Rightarrow> wvalue list \<Rightarrow> bool) \<Rightarrow> 'k system \<Rightarrow> 'k system \<Rightarrow> bool" for ok where
  connect: "serves ok S (S\<lparr>clients := clients S @ [new_sessionInfo]\<rparr>)"
| command: "i < length (clients S) \<Longrightarrow> ok e cmd \<Longrightarrow>
    dispatchCommand e cmd (clients S ! i) (srv S) = (Reply w, s', g') \<Longrightarrow>
    serves ok S (S\<lparr>srv := g', clients := (clients S)[i := s']\<rparr>)"
| background: "i < length (clients S) \<Longrightarrow> moves (session (clients S ! i)) t \<Longrightarrow>
    serves ok S (S\<lparr>clients := (clients S)[i := (clients S ! i)\<lparr>session := t\<rparr>]\<rparr>)"
| renewal: "tdb st = flydb (srv S) \<Longrightarrow>
    serves ok S (S\<lparr>srv := put_db (tdb (renew L f seed t st)) (srv S)\<rparr>)"
| world: "serves ok S (S\<lparr>srv := srv S\<lparr>sys := k\<rparr>\<rparr>)"
| tick: "now (srv S) \<le> t \<Longrightarrow> serves ok S (S\<lparr>srv := srv S\<lparr>now := t\<rparr>\<rparr>)"

definition runs :: "('k env \<Rightarrow> wvalue list \<Rightarrow> bool) \<Rightarrow> 'k system \<Rightarrow> 'k system \<Rightarrow> bool" where
  "runs ok = (serves ok)\<^sup>*\<^sup>*"

text \<open>No restriction on the commands.\<close>

abbreviation anything :: "'k env \<Rightarrow> wvalue list \<Rightarrow> bool" where
  "anything \<equiv> \<lambda>e cmd. True"

inductive_cases servesE: "serves ok S S'"

lemma runs_refl [simp]: "runs ok S S"
  by (simp add: runs_def)

lemma runs_step: "runs ok S T \<Longrightarrow> serves ok T U \<Longrightarrow> runs ok S U"
  by (simp add: runs_def)

lemma runs_induct [consumes 1, case_names refl step]:
  "runs ok S T \<Longrightarrow> P S \<Longrightarrow> (\<And>T U. runs ok S T \<Longrightarrow> P T \<Longrightarrow> serves ok T U \<Longrightarrow> P U) \<Longrightarrow> P T"
  unfolding runs_def by (erule rtranclp_induct) auto

section \<open>What every change keeps\<close>

lemma run_op_wf:
  assumes "db_wf db" and "permitted s op"
  shows "db_wf (snd (run_op f op db))"
proof -
  note keep = ops_keep_wf [OF assms(1), of bob _ bob_reads]
  show ?thesis
  proof (cases op)
    case (Add_user u)
    then show ?thesis using assms ops_keep_wf [OF assms(1), of u "\<lambda>u. u" bob_reads] by simp
  next
    case (Set_password n h)
    then show ?thesis using keep [of "\<lambda>u. u\<lparr>Password := h\<rparr>"] by simp
  next
    case (Set_admin n b)
    then show ?thesis using keep [of "\<lambda>u. u\<lparr>Admin := b\<rparr>"] by simp
  next
    case (Set_chroot n c)
    then show ?thesis using keep [of "\<lambda>u. u\<lparr>Chroot := c\<rparr>"] by simp
  next
    case (Put_policy p)
    then show ?thesis using assms ops_keep_wf [OF assms(1), of bob "\<lambda>u. u" p] by simp
  qed (use assms keep [of "\<lambda>u. u"] in simp_all)
qed

lemma run_op_dir [simp]: "dir (snd (run_op f op db)) = dir db"
  by (cases op)
    (simp_all add: AddUser_def UpdateUser_def DeleteUser_def PutAccessPolicy_def
      DeleteAccessPolicy_def db_result_def put_user_def remove_user_def put_policy_def
      remove_policy_def split: option.split)

lemma run_op_ok:
  assumes "fst (run_op f op db) = None" and "err db = None"
  shows "err (snd (run_op f op db)) = None"
  using assms
  by (cases op)
    (auto simp: AddUser_def UpdateUser_def DeleteUser_def PutAccessPolicy_def
      DeleteAccessPolicy_def db_result_def split: option.splits if_splits)

text \<open>While an error is pending, an operation either reports it or does nothing.\<close>

lemma run_op_pending:
  assumes "fst (run_op f op db) = None" and "err db \<noteq> None"
  shows "snd (run_op f op db) = db"
  using assms
  by (cases op)
    (auto simp: AddUser_def UpdateUser_def DeleteUser_def PutAccessPolicy_def
      DeleteAccessPolicy_def db_result_def put_user_def remove_user_def put_policy_def
      remove_policy_def split: option.splits if_splits)

lemma run_op_synced:
  assumes "fst (run_op f op db) = None" and "synced db"
  shows "synced (snd (run_op f op db))"
proof (cases "err db = None")
  case True
  then show ?thesis using assms(1) ops_synced [OF assms(2) True, of f] assms(2) by (cases op) auto
next
  case False
  with run_op_pending [OF assms(1)] assms(2) show ?thesis by simp
qed

text \<open>The three files of the database, and that an operation that fails leaves them alone.\<close>

definition same_tables :: "handle \<Rightarrow> handle \<Rightarrow> bool" where
  "same_tables db db' \<longleftrightarrow> dir db' = dir db
     \<and> (\<forall>q \<in> {version_path db, users_path db, acp_path db}. disk db' q = disk db q)"

lemma same_tables_refl [simp]: "same_tables db db"
  by (simp add: same_tables_def)

lemma failed_write_tables:
  "err (writeUsers f db) \<noteq> None \<Longrightarrow> same_tables db (writeUsers f db)"
  "err (writeAccessPolicies f db) \<noteq> None \<Longrightarrow> same_tables db (writeAccessPolicies f db)"
  by (auto simp: same_tables_def writeUsers_def writeAccessPolicies_def Let_def file_names
      sanitized_def split: io_fault.splits)

lemma same_tables_users [simp]: "same_tables (db\<lparr>users := us\<rparr>) db' = same_tables db db'"
  by (simp add: same_tables_def)

lemma same_tables_policies [simp]: "same_tables (db\<lparr>policies := ps\<rparr>) db' = same_tables db db'"
  by (simp add: same_tables_def)

lemma run_op_failed:
  assumes "fst (run_op f op db) \<noteq> None"
  shows "same_tables db (snd (run_op f op db))"
proof -
  have u: "same_tables db (writeUsers f (db\<lparr>users := us\<rparr>))"
    if "err (writeUsers f (db\<lparr>users := us\<rparr>)) \<noteq> None" for us
    using failed_write_tables(1) [of f "db\<lparr>users := us\<rparr>"] that by simp
  have p: "same_tables db (writeAccessPolicies f (db\<lparr>policies := ps\<rparr>))"
    if "err (writeAccessPolicies f (db\<lparr>policies := ps\<rparr>)) \<noteq> None" for ps
    using failed_write_tables(2) [of f "db\<lparr>policies := ps\<rparr>"] that by simp
  show ?thesis
    using assms u p
    by (cases op)
      (auto simp: AddUser_def UpdateUser_def DeleteUser_def PutAccessPolicy_def
        DeleteAccessPolicy_def db_result_def put_user_def remove_user_def put_policy_def
        remove_policy_def split: option.splits if_splits)
qed

section \<open>The invariant of a running server\<close>

text \<open>
  A session has a user exactly when it has a username, and they agree, unless it has been told
  to terminate; its table of streams is in order.
\<close>

definition identity :: "sessionInfo \<Rightarrow> bool" where
  "identity s \<longleftrightarrow>
     (case suser s of None \<Rightarrow> username s = []
      | Some u \<Rightarrow> username s \<noteq> [] \<and> Username u = username s)"

definition client_wf :: "sessionInfo \<Rightarrow> bool" where
  "client_wf s \<longleftrightarrow> session_wf (session s) \<and> (terminated (session s) = 0 \<longrightarrow> identity s)"

lemma client_wf_new [simp]: "client_wf new_sessionInfo"
  by (simp add: client_wf_def identity_def new_sessionInfo_def)

lemma update_session [simp]: "session (update db s) = session s"
  by (simp add: update_def Let_def split: option.split)

lemma update_client_wf: "client_wf s \<Longrightarrow> client_wf (update db s)"
  by (auto simp: client_wf_def identity_def update_def Let_def split: option.splits)

lemma FindUser_wf: "db_wf db \<Longrightarrow> FindUser db n = Some u \<Longrightarrow> Username u = n \<and> n \<noteq> []"
  using user_table.find_key [of db n u] by (auto simp: db_wf_def ValidateUsername_def)

lemma changeUser_client_wf:
  assumes "db_wf db" and "client_wf s"
  shows "client_wf (changeUser db n s)"
  using assms FindUser_wf [OF assms(1), of n]
  by (auto simp: client_wf_def changeUser_def Let_def Terminate_def identity_def session_wf_def
      used_slots_def split: option.splits)

lemma same_user_client_wf:
  "same_user s s' \<Longrightarrow> client_wf s \<Longrightarrow> (session_wf (session s) \<Longrightarrow> session_wf (session s')) \<Longrightarrow> client_wf s'"
  by (auto simp: same_user_def client_wf_def identity_def split: option.splits)

definition system_wf :: "'k system \<Rightarrow> bool" where
  "system_wf S \<longleftrightarrow> db_wf (flydb (srv S)) \<and> only_tls_error (flydb (srv S))
     \<and> (\<forall>s \<in> set (clients S). client_wf s)"

lemma accounts_wf:
  assumes "accounts_for f op out db db'" and "permitted s op" and "db_wf db"
  shows "db_wf db'"
  using assms run_op_wf [OF assms(3,2), of f] by (simp add: accounts_for_def)

lemma accounts_ok:
  assumes "accounts_for f op (Reply w) db db'" and "only_tls_error db"
  shows "only_tls_error db'"
proof (cases "err db = None")
  case True
  with run_op_ok [of f op db] assms(1) have "err db' = None" by (auto simp: accounts_for_def)
  then show ?thesis by (rule only_tls_errorI)
next
  case False
  with run_op_pending [of f op db] assms(1) have "db' = db" by (auto simp: accounts_for_def)
  with assms(2) show ?thesis by simp
qed

lemma moves_wf:
  "moves s t \<Longrightarrow> session_wf s \<Longrightarrow> session_wf t \<and> terminated s \<le> terminated t"
proof (induction rule: moves.induct)
  case (frames_move i s n fs p x fs')
  then have "used_slots (s\<lparr>streams := (streams s)[i := Some (WriteStream n fs' p x)]\<rparr>) = used_slots s"
    by (auto simp: used_slots_def nth_list_update split: if_splits)
  with frames_move(3) show ?case by (simp add: session_wf_def)
next
  case (stream_ends i s)
  then show ?case using stream_table.wf_release by (simp add: releaseStream_def)
qed (simp add: Terminate_def session_wf_Terminate [unfolded Terminate_def])

lemma moves_client_wf: "moves (session s) t \<Longrightarrow> client_wf s \<Longrightarrow> client_wf (s\<lparr>session := t\<rparr>)"
  using moves_wf [of "session s" t] by (auto simp: client_wf_def identity_def split: option.splits)

text \<open>What a handler keeps, however it ends, and the change it makes.\<close>

lemma handler_keeps:
  assumes "getCommandHandler e n = Some h" and "h args s0 g = (out, s', g')"
    and "db_wf (flydb g)" and "client_wf s0"
  shows "db_wf (flydb g') \<and> client_wf s' \<and> constants_kept g g'"
  using assms(1,2)
proof (cases rule: handler_effect)
  case (database op)
  with accounts_wf [of "fault e" op out "flydb g"] assms(3,4) show ?thesis
    unfolding db_command_def by blast
next
  case (first u)
  then have "db_wf (flydb g')" "constants_kept g g'"
    using accounts_wf [of "fault e" "Add_user u" out "flydb g"] assms(3) unfolding db_command_def by blast+
  with first(4) changeUser_client_wf assms(4) show ?thesis by blast
next
  case (login name)
  then show ?thesis using assms(3,4) changeUser_client_wf by simp
next
  case (panic m token key)
  then show ?thesis using assms(3,4) by simp
next
  case files
  from file_commandE [OF this] same_user_client_wf [of s0 s'] assms(3,4)
  show ?thesis by (auto simp: file_command_def constants_kept_def)
qed

lemma handler_op:
  assumes "getCommandHandler e n = Some h" and "h args s0 g = (out, s', g')"
  obtains op where "permitted s0 op"
    and "accounts_for (fault e) op out (flydb g) (flydb g')" and "constants_kept g g'"
  using assms
proof (cases rule: handler_effect)
  case (panic m token key)
  then show thesis using that [of Keep] by simp
next
  case (login name)
  then show thesis using that [of Keep] by simp
next
  case files
  from file_commandE [OF this] show thesis using that [of Keep] by simp
next
  case (first u)
  then show thesis using that [of "Add_user u"] by (simp only: db_command_def)
next
  case (database op)
  then show thesis using that [of op] by (simp only: db_command_def)
qed

text \<open>The same of a command.\<close>

lemma dispatch_keeps:
  assumes "dispatchCommand e cmd s g = (out, s', g')" and "db_wf (flydb g)" and "client_wf s"
  shows "db_wf (flydb g') \<and> client_wf s' \<and> constants_kept g g'"
  using assms(1)
proof (cases rule: dispatch_handles)
  case (handled n args h)
  from handler_keeps [OF handled(2,3) assms(2) update_client_wf [OF assms(3)]] show ?thesis .
qed (use assms in simp_all)

lemma dispatch_op:
  assumes "dispatchCommand e cmd s g = (out, s', g')"
  obtains op where "permitted (update (flydb g) s) op"
    and "accounts_for (fault e) op out (flydb g) (flydb g')" and "constants_kept g g'"
  using assms
proof (cases rule: dispatch_handles)
  case (handled n args h)
  from handled(2,3) show thesis by (rule handler_op) (rule that)
qed (use that [of Keep] in simp_all)

lemma dispatch_ok:
  assumes "dispatchCommand e cmd s g = (Reply w, s', g')" and "only_tls_error (flydb g)"
  shows "only_tls_error (flydb g')"
  using assms accounts_ok by (blast elim: dispatch_op)

text \<open>What a renewal keeps.\<close>

lemma tls_only_wf: "tls_only db db' \<Longrightarrow> db_wf db' = db_wf db"
  by (simp add: tls_only_def db_wf_def)

lemma renewal_keeps:
  assumes "tdb st = flydb g" and "db_wf (flydb g)" and "only_tls_error (flydb g)"
  shows "db_wf (tdb (renew L f seed t st)) \<and> only_tls_error (tdb (renew L f seed t st))"
  using renew_only [of st L f seed t] renew_tls_error [of st L f seed t] assms by (simp add: tls_only_wf)

lemma boot_started:
  assumes "boot K hasher env d files got t k = Some S"
  obtains db where "Open hasher env d files = Inr db" and "flydb (srv S) = db" and "clients S = []"
    and "root (srv S) = d" and "tokenKey (srv S) = Some (fst (RandomKey 16 got))"
  using assms by (auto simp: boot_def split: prod.splits sum.splits if_splits)

lemma system_wf_step: "serves ok S T \<Longrightarrow> system_wf S \<Longrightarrow> system_wf T"
proof (induction rule: serves.induct)
  case (command i S e cmd w s' g')
  then have "client_wf (clients S ! i)" "db_wf (flydb (srv S))" "only_tls_error (flydb (srv S))"
    by (simp_all add: system_wf_def)
  with dispatch_keeps [OF command(3)] dispatch_ok [OF command(3)] command(4) show ?case
    by (auto simp: system_wf_def dest!: set_mp [OF set_update_subset_insert])
next
  case (background i S t)
  then have "client_wf ((clients S ! i)\<lparr>session := t\<rparr>)"
    using moves_client_wf by (simp add: system_wf_def)
  with background(3) show ?case
    by (auto simp: system_wf_def dest!: set_mp [OF set_update_subset_insert])
next
  case (renewal st S L f seed t)
  with renewal_keeps [of st "srv S"] show ?case by (simp add: system_wf_def)
qed (auto simp: system_wf_def)

lemma runs_wf: "runs ok S T \<Longrightarrow> system_wf S \<Longrightarrow> system_wf T"
  by (induction rule: runs_induct) (auto dest: system_wf_step)

lemma boot_wf: "boot K hasher env d files got t k = Some S \<Longrightarrow> system_wf S"
  by (erule boot_started) (auto simp: system_wf_def dest: open_makes_wf intro: only_tls_errorI)

text \<open>The root directory and the token key stay as they were at the start.\<close>

lemma runs_constant:
  assumes "runs ok S T"
  shows "root (srv T) = root (srv S) \<and> tokenKey (srv T) = tokenKey (srv S)"
  using assms
proof (induction rule: runs_induct)
  case (step T U)
  from step(2) have "root (srv U) = root (srv T) \<and> tokenKey (srv U) = tokenKey (srv T)"
    by cases (auto elim!: dispatch_op simp: constants_kept_def)
  with step show ?case by simp
qed simp

end
