(* ===== verification/Server_Text.thy ===== *)
theory Server_Text
  imports Server_Run Wire_Codec
begin

text \<open>
  The texts that get into the database: the strings of a command come off the wire and have no
  line feed, hashes come from bcrypt, paths are escaped when they are written. In every state that
  a server reaches, the tables can therefore be read back.
\<close>

section \<open>Texts in commands and in the database\<close>

text \<open>
  The documented behaviour of bcrypt: a hash is accepted by the comparison and has no line feed.
  And a command as the reader delivers it, in an environment with such a bcrypt.
\<close>

definition bcrypt_laws :: "bcrypt \<Rightarrow> bcrypt \<Rightarrow> bool" where
  "bcrypt_laws hasher b \<longleftrightarrow> (\<forall>seed pw hash. GenerateFromPassword b seed pw = Inr hash \<longrightarrow>
     LF \<notin> set hash \<and> CompareHashAndPassword hasher hash ''secret'' \<noteq> Malformed)"

definition off_the_wire :: "bcrypt \<Rightarrow> 'k env \<Rightarrow> wvalue list \<Rightarrow> bool" where
  "off_the_wire hasher e cmd \<longleftrightarrow> bcrypt_laws hasher (bc e) \<and> (\<exists>n. wire_shape n True (Array cmd))"

definition arg_text :: "wvalue \<Rightarrow> bool" where
  "arg_text v \<longleftrightarrow> (\<exists>n. wire_shape n False v)"

text \<open>What the tables hold: a policy as a command makes it, with its paths escaped.\<close>

definition policy_text :: "policy \<Rightarrow> bool" where
  "policy_text p \<longleftrightarrow> LF \<notin> set (PolicyName p)
     \<and> (\<exists>us. Users p = Some us \<and> us \<noteq> [] \<and> (\<forall>u \<in> set us. LF \<notin> set u))
     \<and> Paths p \<noteq> [] \<and> (\<forall>q \<in> set (Paths p). LF \<notin> set q)"

definition policy_escaped :: "policy \<Rightarrow> bool" where
  "policy_escaped p \<longleftrightarrow> policy_text p \<and> (\<exists>qs. Paths p = map escape_path qs)"

definition db_text :: "bcrypt \<Rightarrow> handle \<Rightarrow> bool" where
  "db_text hasher db \<longleftrightarrow> (\<forall>u \<in> set (FetchAllUsers db). user_storable hasher u)
     \<and> (\<forall>p \<in> set (FetchAllPolicies db). policy_escaped p)"

lemma policy_escaped_storable: "policy_escaped p \<Longrightarrow> policy_storable p"
  by (auto simp: policy_escaped_def policy_text_def policy_storable_def user_list_def
      policy_record_def parsePolicyPaths_escape)

lemma policy_text_sanitize: "policy_text p \<Longrightarrow> policy_escaped (sanitizePaths p)"
  by (auto simp: policy_escaped_def policy_text_def sanitizePaths_def escape_LF)

lemma arg_text_String [simp]: "arg_text (String x) = (LF \<notin> set x)"
  by (simp add: arg_text_def)

lemma arg_text_Array: "arg_text (Array vs) \<Longrightarrow> v \<in> set vs \<Longrightarrow> arg_text v"
  by (auto simp: arg_text_def)

lemma off_the_wire_args: "off_the_wire hasher e (n # args) \<Longrightarrow> v \<in> set args \<Longrightarrow> arg_text v"
  by (auto simp: off_the_wire_def arg_text_def)

lemma policy_path_LF: "LF \<notin> set x \<Longrightarrow> LF \<notin> set (policy_path x)"
  by (auto simp: policy_path_def Trim_def TrimRight_def TrimLeft_def dest!: set_dropWhileD)

lemma take_strings_text:
  "take_strings f vs = Inr xs \<Longrightarrow> \<forall>v \<in> set vs. arg_text v \<Longrightarrow>
   (\<And>x. LF \<notin> set x \<Longrightarrow> LF \<notin> set (f x)) \<Longrightarrow> length xs = length vs \<and> (\<forall>x \<in> set xs. LF \<notin> set x)"
  by (induction f vs arbitrary: xs rule: take_strings.induct)
    (auto split: option.splits sum.splits)

section \<open>The changes keep it\<close>

fun op_text :: "bcrypt \<Rightarrow> db_op \<Rightarrow> bool" where
  "op_text hasher (Add_user u) = user_storable hasher u"
| "op_text hasher (Set_password n h) \<longleftrightarrow>
     LF \<notin> set h \<and> CompareHashAndPassword hasher h ''secret'' \<noteq> Malformed"
| "op_text hasher (Set_chroot n c) = (LF \<notin> set c)"
| "op_text hasher (Put_policy p) = policy_text p"
| "op_text hasher _ = True"

lemma set_AList_update: "x \<in> set (AList.update k v m) \<Longrightarrow> x = (k, v) \<or> x \<in> set m"
  by (induction m) (auto split: if_splits)

lemma set_AList_delete: "x \<in> set (AList.delete k m) \<Longrightarrow> x \<in> set m"
  by (simp add: AList.delete_eq)

lemma users_text_update:
  assumes "db_text hasher db" and "user_storable hasher u"
  shows "db_text hasher (put_user f k u db)"
  using assms by (auto simp: db_text_def put_user_def FetchAllUsers_def FetchAllPolicies_def
      dest!: set_AList_update)

lemma users_text_delete: "db_text hasher db \<Longrightarrow> db_text hasher (remove_user f k db)"
  by (auto simp: db_text_def remove_user_def FetchAllUsers_def FetchAllPolicies_def
      dest!: set_AList_delete)

lemma policies_text_write:
  assumes "\<forall>u \<in> set (FetchAllUsers db). user_storable hasher u"
    and "\<forall>p \<in> set (FetchAllPolicies db). policy_text p" and "err (writeAccessPolicies f db) = None"
  shows "db_text hasher (writeAccessPolicies f db)"
proof -
  have "err db = None" using assms(3) by (cases "err db") (auto simp: writeAccessPolicies_def)
  with writeAccessPolicies_disk(1,4) [OF this, of f] assms(3)
  have "policies (writeAccessPolicies f db) = policies (sanitized db)" by simp
  with assms(1,2) policy_text_sanitize show ?thesis
    by (auto simp: db_text_def FetchAllUsers_def FetchAllPolicies_def sanitized_def)
qed

lemma db_textD:
  "db_text hasher db \<Longrightarrow> FindUser db n = Some u \<Longrightarrow> user_storable hasher u"
  by (fastforce simp: db_text_def FindUser_def FetchAllUsers_def dest!: map_of_SomeD)

lemma db_text_policies: "db_text hasher db \<Longrightarrow> p \<in> set (FetchAllPolicies db) \<Longrightarrow> policy_text p"
  by (auto simp: db_text_def policy_escaped_def)

lemma run_op_text:
  assumes "db_text hasher db" and "op_text hasher op" and "fst (run_op f op db) = None"
  shows "db_text hasher (snd (run_op f op db))"
proof -
  note texts = users_text_update [OF assms(1)] users_text_delete [OF assms(1)] db_textD [OF assms(1)]
  have put: "db_text hasher (writeAccessPolicies f (db\<lparr>policies := ps\<rparr>))"
    if "\<And>x. x \<in> set ps \<Longrightarrow> policy_text (snd x)" and "err (writeAccessPolicies f (db\<lparr>policies := ps\<rparr>)) = None" for ps
    by (rule policies_text_write) (use that assms(1) in \<open>auto simp: db_text_def FetchAllUsers_def FetchAllPolicies_def\<close>)
  have old: "policy_text (snd x)" if "x \<in> set (policies db)" for x
    using db_text_policies [OF assms(1), of "snd x"] that by (simp add: FetchAllPolicies_def)
  show ?thesis
    using assms
  proof (cases op)
    case (Put_policy p)
    then show ?thesis
      using assms(2,3) old put [of "AList.update (PolicyName p) p (policies db)"]
      by (force simp: PutAccessPolicy_def db_result_def put_policy_def dest: set_AList_update)
  next
    case (Remove_policy n)
    then show ?thesis
      using assms(1,3) old put [of "AList.delete n (policies db)"]
      by (force simp: DeleteAccessPolicy_def db_result_def remove_policy_def dest: set_AList_delete)
  qed (use texts in \<open>auto simp: AddUser_def UpdateUser_def DeleteUser_def db_result_def user_storable_def
      split: option.splits\<close>)
qed

section \<open>The commands keep it\<close>

lemma commit_db: "commit m res s g = (Reply w, s', g') \<Longrightarrow> fst res = None \<and> flydb g' = snd res"
  by (auto simp: commit_def split: prod.splits option.splits)

lemma commit_delete_db:
  "commit_delete n m (run_op f op db) s g = (Reply w, s', g') \<Longrightarrow> op = Remove_user k \<or> op = Remove_policy k \<Longrightarrow>
   flydb g' = db \<or> fst (run_op f op db) = None \<and> flydb g' = snd (run_op f op db)"
  by (auto simp: commit_delete_def commit_def DeleteUser_def DeleteAccessPolicy_def db_result_def
      split: prod.splits option.splits op_error.splits if_splits)

lemma register_db:
  "register_user e u s g = (Reply w, s', g') \<Longrightarrow>
   flydb g' = flydb g \<or> fst (AddUser (fault e) u (flydb g)) = None \<and> flydb g' = snd (AddUser (fault e) u (flydb g))"
  by (auto simp: register_user_def AddUser_def db_result_def Let_def
      split: prod.splits option.splits op_error.splits if_splits)

lemma handler_text:
  assumes "getCommandHandler e n = Some h" and "h args s0 g = (Reply w, s', g')"
    and "off_the_wire hasher e (nm # args)" and "db_text hasher (flydb g)"
  shows "db_text hasher (flydb g')"
proof -
  note arg = off_the_wire_args [OF assms(3)] and texts = run_op_text [OF assms(4)]
  have hash: "LF \<notin> set h \<and> CompareHashAndPassword hasher h ''secret'' \<noteq> Malformed"
    if "GenerateFromPassword (bc e) seed pw = Inr h" for seed pw h
    using assms(3) that by (auto simp: off_the_wire_def bcrypt_laws_def)
  have quiet: ?thesis if "quiet (Reply w, s', g') s0 g"
    using that assms(4) by (auto simp: quiet_def)
  from assms(1,2) show ?thesis
  proof (cases rule: handler_cases)
    case auth
    then show ?thesis by (cases rule: handleAuth_cases) (use quiet assms(4) in auto)
  next
    case adduser
    then show ?thesis
    proof (cases rule: handleAddUser_cases)
      case (add name pw hash)
      from register_db [OF add(6) [symmetric]] hash [OF add(5)]
        texts [of "Add_user \<lparr>Username = name, Password = hash, Chroot = [], Admin = singleUser s0\<rparr>" "fault e"]
      show ?thesis using assms(4) by (auto simp: user_storable_def)
    qed (rule quiet)
  next
    case setpwd
    then show ?thesis
    proof (cases rule: handleSetpwd_cases)
      case (set name pw hash)
      from commit_db [OF set(6) [symmetric]] hash [OF set(5)] texts [of "Set_password name hash" "fault e"]
      show ?thesis by simp
    qed (rule quiet)
  next
    case setadm
    then show ?thesis
    proof (cases rule: handleSetadm_cases)
      case (set name admin)
      from commit_db [OF set(4) [symmetric]] texts [of "Set_admin name admin" "fault e"]
      show ?thesis by simp
    qed (rule quiet)
  next
    case chroot_user
    then show ?thesis
    proof (cases rule: handleChroot_cases)
      case (set name chroot real k)
      from arg [of "String chroot"] arg_text_String [of chroot] set(1) have "LF \<notin> set chroot" by simp
      with commit_db [OF set(6) [symmetric]] texts [of "Set_chroot name chroot" "fault e"]
      show ?thesis by simp
    qed (use quiet assms(4) in auto)
  next
    case rmuser
    then show ?thesis
    proof (cases rule: handleRmuser_cases)
      case (remove name)
      then have "commit_delete ''User not found'' ''Failed to delete user'' (run_op (fault e) (Remove_user name) (flydb g)) s0 g
          = (Reply w, s', g')" by simp
      from commit_delete_db [OF this, of name] texts [of "Remove_user name" "fault e"] assms(4)
      show ?thesis by auto
    qed (rule quiet)
  next
    case rmacp
    then show ?thesis
    proof (cases rule: handleRmAcp_cases)
      case (remove name)
      then have "commit_delete ''Policy not found'' ''Failed to delete policy'' (run_op (fault e) (Remove_policy name) (flydb g)) s0 g
          = (Reply w, s', g')" by simp
      from commit_delete_db [OF this, of name] texts [of "Remove_policy name" "fault e"] assms(4)
      show ?thesis by auto
    qed (rule quiet)
  next
    case putacp
    then show ?thesis
    proof (cases rule: handlePutAcp_cases)
      case (put p us ps)
      have "arg_text (args ! 0)" "arg_text (args ! 3)" "arg_text (args ! 4)"
        using arg put(4) by simp_all
      then have "policy_text p"
        using put(5-12) arg_text_String take_strings_text [OF put(8)] take_strings_text [OF put(11)]
          arg_text_Array policy_path_LF by (fastforce simp: policy_text_def)
      with commit_db [OF put(13) [symmetric]] texts [of "Put_policy p" "fault e"] show ?thesis by simp
    qed (rule quiet)
  qed (use quiet assms(4) in \<open>auto simp: file_command_def\<close>)
qed

lemma dispatch_text:
  assumes "dispatchCommand e cmd s g = (Reply w, s', g')" and "off_the_wire hasher e cmd"
    and "db_text hasher (flydb g)"
  shows "db_text hasher (flydb g')"
  using assms(1)
proof (cases rule: dispatch_handles)
  case (handled n args h)
  from handler_text [OF handled(2,3)] assms(2,3) handled(1) show ?thesis by blast
qed (use assms(3) in auto)

text \<open>And so does every run, in which the certificate is renewed too.\<close>

lemma tls_only_text: "tls_only db db' \<Longrightarrow> db_text hasher db' = db_text hasher db"
  by (simp add: tls_only_def db_text_def FetchAllUsers_def FetchAllPolicies_def)

lemma runs_text:
  "runs (off_the_wire hasher) S T \<Longrightarrow> db_text hasher (flydb (srv S)) \<Longrightarrow> db_text hasher (flydb (srv T))"
proof (induction rule: runs_induct)
  case (step T U)
  from step(3) [OF step(4)] have T: "db_text hasher (flydb (srv T))" .
  from step(2) show ?case
  proof cases
    case (renewal st L f seed t)
    then show ?thesis using T tls_only_text [OF renew_only [of st L f seed t]] by simp
  qed (use T dispatch_text in auto)
qed

end
