(* ===== verification/Server_Props.thy ===== *)
theory Server_Props
  imports Server_Text Vfs_Props
begin

text \<open>
  The properties of the running server that concern its database and the operating system: the
  invariant of every run, the access control of every command, what reaches the operating
  system, and what a crash leaves behind.
\<close>

section \<open>A server to try things on\<close>

definition no_kernel :: "unit kernel" where
  "no_kernel = \<lparr>os_MkdirAll = \<lambda>p k. (None, k), os_Chtimes = \<lambda>p k. (None, k),
     os_Create = \<lambda>p k. (None, k),
     os_Stat = \<lambda>p k. (Inr \<lparr>InfoName = p, InfoKind = Directory, InfoSize = 0, InfoModTime = []\<rparr>, k),
     os_ReadDir = \<lambda>p k. (Inr [], k), os_Remove = \<lambda>p k. (None, k), os_RemoveAll = \<lambda>p k. (None, k),
     os_Rename = \<lambda>p q k. (None, k), os_Open = \<lambda>p k. (Inl OsNotExist, k),
     os_CreateTemp = \<lambda>k. (Inl OsNotExist, k), os_Close = \<lambda>f k. k\<rparr>"

definition clear_box :: aead where
  "clear_box = \<lparr>Seal = \<lambda>k n p. p, Unseal = \<lambda>k n c. Some c\<rparr>"

definition plain_env :: "unit env" where
  "plain_env = \<lparr>kern = no_kernel, bc = any_hash, fault = No_fault, aead = clear_box,
     rand_bytes = \<lambda>seed n. Some (replicate n (CHR ''x'')), fmt_time = \<lambda>t. ''now'',
     parse_time = \<lambda>x. Some 0\<rparr>"

lemma plain_env_simps [simp]:
  "kern plain_env = no_kernel" "bc plain_env = any_hash" "fault plain_env = No_fault"
  by (simp_all add: plain_env_def)

definition no_calls :: "unit sys" where
  "no_calls = \<lparr>kst = (), calls = []\<rparr>"

definition server_with :: "handle \<Rightarrow> unit server" where
  "server_with db = \<lparr>root = ''/srv'', flydb = db, tokenKey = None, sys = no_calls, rand = 0, now = 0\<rparr>"

lemma server_with_simps [simp]:
  "root (server_with db) = ''/srv''" "flydb (server_with db) = db" "sys (server_with db) = no_calls"
  "calls no_calls = []" "rand (server_with db) = 0" "tokenKey (server_with db) = None"
  by (simp_all add: server_with_def no_calls_def)

definition fresh_system :: "unit system" where
  "fresh_system = \<lparr>srv = server_with (fresh_db ''/srv'')\<lparr>sys := no_calls\<lparr>calls := [Call_Stat ''/srv'']\<rparr>,
     tokenKey := Some (replicate 16 (CHR 0x00))\<rparr>, clients = []\<rparr>"

lemma boot_fresh:
  "boot no_kernel any_hash good_env ''/srv'' Map.empty [] 0 no_calls = Some fresh_system"
  by (simp add: boot_def Stat_def syscall_def no_kernel_def no_calls_def Open_fresh fresh_system_def
      server_with_def RandomKey_def)

section \<open>The invariant\<close>

text \<open>
  C7. In every state a server reaches from the moment its database has opened, whatever its
  clients send, in whatever order, whatever fails, and whenever the certificate is renewed: the
  database is well formed; an error is pending in its handle only if a renewal of the
  certificate has failed, and then it is the message of that failure; every session's table of
  streams is in order, and a session that was not told to terminate has a user exactly when it
  has a username, and they agree. The root directory and the token key are those of the start;
  there always is a key, of zeros where the source of randomness failed.
\<close>

theorem server_invariant:
  assumes "boot K hasher env d files got t k = Some S" and "runs ok S T"
  shows "db_wf (flydb (srv T)) \<and> (\<forall>x. err (flydb (srv T)) = Some x \<longrightarrow> tls_error_text x)
    \<and> (\<forall>s \<in> set (clients T). session_wf (session s) \<and> (terminated (session s) = 0 \<longrightarrow> identity s))
    \<and> root (srv T) = d
    \<and> tokenKey (srv T) = Some (take 16 (got @ replicate 16 (CHR 0x00)))"
  using runs_wf [OF assms(2) boot_wf [OF assms(1)]] runs_constant [OF assms(2)] boot_started [OF assms(1)]
  by (auto simp: system_wf_def client_wf_def RandomKey_def only_tls_error_def)

theorem server_invariant_witness:
  "session_wf (session (hd (clients (fresh_system\<lparr>clients := [new_sessionInfo]\<rparr>))))"
proof -
  have "runs anything fresh_system (fresh_system\<lparr>clients := clients fresh_system @ [new_sessionInfo]\<rparr>)"
    by (rule runs_step [OF runs_refl connect])
  from server_invariant [OF boot_fresh this] show ?thesis by simp
qed

section \<open>Access control\<close>

text \<open>
  C2. The server refines an access-controlled database: whatever a client sends, what the
  command does to users and policies is one of the documented changes, and one that this
  session may make: the first user, by anyone, while there are none; its own password, by a
  user; everything else by administrators only, of whom the server has no other idea. A
  command is answered only if the change succeeded or nothing changed, and a command that
  ends the process reports the error of the change. The root directory and the token key
  never change.
\<close>

theorem commands_refine_changes:
  assumes "dispatchCommand e cmd s g = (out, s', g')"
  shows "\<exists>op. permitted (update (flydb g) s) op
    \<and> accounts_for (fault e) op out (flydb g) (flydb g') \<and> constants_kept g g'"
  using assms by (blast elim: dispatch_op)

lemma rmuser_denied:
  "dispatchCommand plain_env [String ''RMUSER'', String ''bob''] new_sessionInfo (server_with sample_db)
   = reply (NewError ''DENIED'' ''You are not allowed to manage users.'')
       (update sample_db new_sessionInfo) (server_with sample_db)"
  by (simp add: dispatchCommand_def getCommandHandler_def commandHandlers_def go_defs
      handleRmuser_def update_def new_sessionInfo_def NumUsers_def is_admin_def)

theorem commands_refine_changes_witness:
  "\<exists>op. permitted (update sample_db new_sessionInfo) op \<and> sample_db = snd (run_op No_fault op sample_db)"
  using commands_refine_changes [OF rmuser_denied] by (auto simp: accounts_for_def)

text \<open>A client without a user can do nothing once there are users.\<close>

lemma anonymous_resolves_nothing:
  "suser s = None \<Longrightarrow> \<not> singleUser s \<Longrightarrow> \<not> can_read g s p \<and> \<not> can_write g s p"
  by (simp add: can_read_def can_write_def resolveRead_def resolveWrite_def resolve_path_def
      Resolve_def resolve_def authorize_def Let_def)

lemma anonymous_calls_nothing:
  "suser s = None \<Longrightarrow> \<not> singleUser s \<Longrightarrow> \<not> may_call g s c"
  using anonymous_resolves_nothing [of s g] by (cases c) simp_all

lemma anonymous_emits:
  "suser s = None \<Longrightarrow> \<not> singleUser s \<Longrightarrow> emits (may_call g s) k k' \<Longrightarrow> calls k' = calls k"
  using anonymous_calls_nothing [of s g]
  by (auto simp: emits_def list_all_iff)

lemma anonymous_keeps_db:
  assumes "db_wf db" and "accounts_for f op out db db'" and "permitted s op"
    and "suser s = None" and "username s = []" and "\<not> singleUser s"
  shows "db' = db"
proof (cases op)
  case (Set_password n h)
  have "FindUser db [] = None" using FindUser_wf [OF assms(1), of "[]"] by (cases "FindUser db []") simp_all
  with Set_password assms show ?thesis by (auto simp: accounts_for_def UpdateUser_def is_admin_def)
qed (use assms in \<open>simp_all add: accounts_for_def is_admin_def\<close>)

text \<open>The streams that a command has opened.\<close>

definition new_streams :: "session \<Rightarrow> session \<Rightarrow> stream set" where
  "new_streams s s' = {st. \<exists>i < length (streams s'). streams s' ! i = Some st \<and> streams s ! i = None}"

lemma new_streams_same [simp]: "streams s' = streams s \<Longrightarrow> new_streams s s' = {}"
  by (simp add: new_streams_def)

lemma new_streams_only: "opens_only P s s' \<Longrightarrow> st \<in> new_streams s s' \<Longrightarrow> P st"
  by (auto simp: new_streams_def opens_only_def)

lemma changeUser_streams [simp]: "streams (session (changeUser db n s)) = streams (session s)"
  by (simp add: changeUser_def Let_def Terminate_def split: option.split)

lemma dispatch_opens:
  assumes "dispatchCommand e cmd s g = (out, s', g')" and "st \<in> new_streams (session s) (session s')"
  shows "stream_allowed e g (update (flydb g) s) st"
  using assms(1)
proof (cases rule: dispatch_effect)
  case files
  then have "opens_only (stream_allowed e g (update (flydb g) s)) (session s) (session s')"
    using file_commandE by fastforce
  then show ?thesis by (rule new_streams_only [OF _ assms(2)])
qed (use assms(2) in auto)



section \<open>What reaches the operating system\<close>

lemma can_confined:
  assumes "root g \<noteq> []"
  shows "can_read g s p \<Longrightarrow> confined (root g) p" and "can_write g s p \<Longrightarrow> confined (root g) p"
  using resolve_confined_if [OF assms]
  by (auto simp: can_read_def can_write_def resolveRead_def resolveWrite_def resolve_path_def
      Resolve_def ResolveSingleUser_def split: if_splits)

lemma may_call_confined:
  assumes "root g \<noteq> []" and "may_call g s c" and "p \<in> set (call_paths c)"
  shows "confined (root g) p \<or> (\<exists>q. confined (root g) q \<and> c = Call_Stat p \<and> p = Dir q)"
  using assms(2,3) can_confined [OF assms(1), of s] by (cases c) auto

lemma worker_may_confined:
  assumes "root g \<noteq> []" and "worker_may g s t c" and "p \<in> set (call_paths c)"
  shows "p = t \<or> confined (root g) p \<or> (\<exists>q. confined (root g) q \<and> c = Call_Stat p \<and> p = Dir q)"
proof (cases "worker_may g s t c = may_call g s c")
  case True
  with may_call_confined [OF assms(1) _ assms(3)] assms(2) show ?thesis by blast
next
  case False
  with assms(2,3) can_confined [OF assms(1), of s] show ?thesis by (cases c) auto
qed

text \<open>
  C1. The server is a reference monitor. Every call that a command makes to the operating system
  names only paths that lead from the root down plain segments outside the reserved folder
  (or asks about the parent of such a path), and it is one that the session may make: it
  changes only what the virtual file system resolves for this session for writing and looks
  only at what it resolves for reading or writing. The one exception is the folder that an
  administrator's CHROOT creates. The same holds of the calls that are still to come from the
  goroutine of a stream that the command opens, whenever it makes them: a copy opens a file
  that the session may read and moves its temporary file to one it may write, an upload moves
  the temporary file that was created for it to one it may write, and apart from that they
  name only the temporary file. A download reads a file that was opened as one the session
  may read.
\<close>

theorem os_calls_are_authorized:
  assumes "dispatchCommand e cmd s g = (out, s', g')" and "root g \<noteq> []"
  shows "\<exists>new. calls (sys g') = calls (sys g) @ new
    \<and> (\<forall>c \<in> set new.
        (may_call g (update (flydb g) s) c
         \<or> is_admin (update (flydb g) s) \<and> (\<exists>p. c = Call_MkdirAll p))
        \<and> (\<forall>p \<in> set (call_paths c). confined (root g) p
             \<or> (\<exists>q. confined (root g) q \<and> c = Call_Stat p \<and> p = Dir q)))
    \<and> (\<forall>st \<in> new_streams (session s) (session s'). stream_allowed e g (update (flydb g) s) st
        \<and> (\<forall>t. \<forall>c \<in> set (worker_calls t st).
             worker_may g (update (flydb g) s) (temp_name t st) c
             \<and> (\<forall>p \<in> set (call_paths c). p = temp_name t st \<or> confined (root g) p)))"
proof -
  let ?s = "update (flydb g) s"
  let ?fine = "\<lambda>c. (may_call g ?s c \<or> is_admin ?s \<and> (\<exists>p. c = Call_MkdirAll p))
      \<and> (\<forall>p \<in> set (call_paths c). confined (root g) p
           \<or> (\<exists>q. confined (root g) q \<and> c = Call_Stat p \<and> p = Dir q))"
  have later: "worker_may g ?s (temp_name t st) c
      \<and> (\<forall>p \<in> set (call_paths c). p = temp_name t st \<or> confined (root g) p)"
    if "st \<in> new_streams (session s) (session s')" and "c \<in> set (worker_calls t st)" for st t c
  proof -
    have w: "worker_may g ?s (temp_name t st) c"
      by (rule worker_allowed [OF dispatch_opens [OF assms(1) that(1)] that(2)])
    moreover have "c \<noteq> Call_Stat p" for p using that(2) by (cases st) auto
    ultimately show ?thesis using worker_may_confined [OF assms(2) w] by blast
  qed
  have chroot: "\<exists>new. calls (sys g') = calls (sys g) @ new \<and> (\<forall>c \<in> set new. ?fine c)"
    if "makes_chroot g ?s g'"
    using that resolve_confined_if [OF assms(2)]
    by (auto simp: makes_chroot_def ResolveSingleUser_def)
  from assms(1) have "\<exists>new. calls (sys g') = calls (sys g) @ new \<and> (\<forall>c \<in> set new. ?fine c)"
  proof (cases rule: dispatch_effect)
    case files
    then obtain new where "calls (sys g') = calls (sys g) @ new"
      and "\<forall>c \<in> set new. may_call g ?s c"
      by (auto simp: emits_def list_all_iff dest!: file_commandE)
    with may_call_confined [OF assms(2)] show ?thesis by (intro exI [of _ new]) blast
  qed (use chroot in \<open>auto simp: db_command_def\<close>)
  with later dispatch_opens [OF assms(1)] show ?thesis by blast
qed

lemma list_root:
  "dispatchCommand plain_env [String ''list'', String ''/''] new_sessionInfo (server_with (fresh_db ''/srv''))
   = reply (Table 0 0 []) (new_sessionInfo\<lparr>singleUser := True\<rparr>)
       (put_sys (no_calls\<lparr>calls := [Call_Stat ''/srv'', Call_ReadDir ''/srv'']\<rparr>) (server_with (fresh_db ''/srv'')))"
  by (simp add: dispatchCommand_def getCommandHandler_def commandHandlers_def go_defs handleList_def
      update_def new_sessionInfo_def NumUsers_def fresh_db_def resolveRead_def resolve_path_def
      ResolveSingleUser_def resolve_def virtual_path_def clean_vpath_def Let_def TrimSpace_def
      drop_words.simps space_runes_def os_defs syscall_def no_kernel_def no_calls_def table_value_def)

theorem os_calls_are_authorized_witness:
  "confined ''/srv'' ''/srv'' \<or> (\<exists>q. confined ''/srv'' q \<and> ''/srv'' = Dir q)"
  using os_calls_are_authorized [OF list_root] by (auto simp: no_calls_def)

section \<open>Crashes and restarts\<close>

lemma synced_empty:
  assumes "Open hasher env d Map.empty = Inr db"
  shows "synced db"
  using assms
proof (cases rule: Open_cases)
  case old
  then show ?thesis
    by (simp add: readAccessPolicies_def readUsers_def opened_def split: if_splits option.splits)
next
  case new
  let ?v = "writeVersionFile (version_fault env) (new_handle d Map.empty)"
  from new(2) have "err (writeUsers (users_fault env) ?v) = None" and a: "acp_fault env = No_fault"
    unfolding new(1) by (auto simp: writeAccessPolicies_def Let_def split: if_splits io_fault.splits)
  then have "err ?v = None" and "users_fault env = No_fault"
    by (auto simp: writeUsers_def Let_def split: if_splits io_fault.splits)
  moreover from this(1) have "version_fault env = No_fault"
    by (auto simp: writeVersionFile_def split: io_fault.splits)
  ultimately show ?thesis
    using a unfolding new(1)
    by (simp add: synced_def writeAccessPolicies_def writeUsers_def writeVersionFile_def Let_def
        rename_file_def file_names TrimRight_tilde users_bytes_def acp_bytes_def sanitized_def
        new_handle_def)
qed

lemma open_empty:
  assumes "Open hasher env d Map.empty = Inr db"
  shows "FetchAllUsers db = [] \<and> FetchAllPolicies db = []"
  using assms
proof (cases rule: Open_cases)
  case old
  then show ?thesis
    by (simp add: readAccessPolicies_def readUsers_def opened_def split: if_splits option.splits)
next
  case new
  then show ?thesis
    using writeAccessPolicies_policies [of "acp_fault env" "writeUsers (users_fault env)
        (writeVersionFile (version_fault env) (new_handle d Map.empty))"]
    by (auto simp: FetchAllUsers_def FetchAllPolicies_def sanitized_Nil)
qed

definition durable :: "string \<Rightarrow> 'k system \<Rightarrow> bool" where
  "durable d S \<longleftrightarrow> system_wf S \<and> synced (flydb (srv S)) \<and> dir (flydb (srv S)) = d"

lemma accounts_synced:
  "accounts_for f op (Reply w) db db' \<Longrightarrow> synced db \<Longrightarrow> synced db'"
  using run_op_synced [of f op db] by (auto simp: accounts_for_def)

lemma accounts_dir: "accounts_for f op out db db' \<Longrightarrow> dir db' = dir db"
  by (simp add: accounts_for_def)

lemma dispatch_synced:
  assumes "dispatchCommand e cmd s g = (Reply w, s', g')" and "synced (flydb g)"
  shows "synced (flydb g')"
  using assms accounts_synced by (blast elim: dispatch_op)

lemma dispatch_dir: "dispatchCommand e cmd s g = (out, s', g') \<Longrightarrow> dir (flydb g') = dir (flydb g)"
  using accounts_dir by (blast elim: dispatch_op)

text \<open>A renewal writes to no table.\<close>

lemma tls_only_synced: "tls_only db db' \<Longrightarrow> synced db' = synced db"
  by (simp add: tls_only_def synced_def users_bytes_def acp_bytes_def file_names tls_names)

lemma runs_durable: "runs ok S T \<Longrightarrow> durable d S \<Longrightarrow> durable d T"
proof (induction rule: runs_induct)
  case (step T U)
  then have "system_wf U" by (auto simp: durable_def dest: system_wf_step)
  moreover from step.IH [OF step.prems] have d: "synced (flydb (srv T))" "dir (flydb (srv T)) = d"
    by (simp_all add: durable_def)
  from step(2) have "synced (flydb (srv U)) \<and> dir (flydb (srv U)) = d"
  proof cases
    case (renewal st L f seed t)
    with d renew_only [of st L f seed t] tls_only_synced [OF renew_only [of st L f seed t]]
    show ?thesis by (simp add: tls_only_def)
  qed (use d dispatch_synced dispatch_dir in auto)
  ultimately show ?case by (simp add: durable_def)
qed simp

lemma synced_same_tables:
  "synced db \<Longrightarrow> same_tables db db' \<Longrightarrow> synced (db\<lparr>disk := disk db'\<rparr>)"
  by (simp add: synced_def same_tables_def users_bytes_def acp_bytes_def file_names)

text \<open>The database that a command must not lose: the new one once it is answered.\<close>

definition committed :: "outcome \<Rightarrow> 'k server \<Rightarrow> 'k server \<Rightarrow> handle" where
  "committed out g g' = (case out of Reply _ \<Rightarrow> flydb g' | _ \<Rightarrow> flydb g)"

lemma crash_synced:
  assumes "dispatchCommand e cmd s g = (out, s', g')" and "db_wf (flydb g)"
    and "synced (flydb g)" and "client_wf s"
  shows "db_wf (committed out g g') \<and> synced ((committed out g g')\<lparr>disk := disk (flydb g')\<rparr>)
    \<and> dir (committed out g g') = dir (flydb g)"
proof (cases out)
  case (Reply w)
  with assms dispatch_synced dispatch_dir dispatch_keeps [OF assms(1,2,4)] show ?thesis
    by (auto simp: committed_def)
next
  case (Fatal m x)
  from assms(1) obtain op where "accounts_for (fault e) op out (flydb g) (flydb g')"
    by (rule dispatch_op)
  then have "same_tables (flydb g) (flydb g')"
    using Fatal run_op_failed [of "fault e" op] by (simp add: accounts_for_def)
  with Fatal assms show ?thesis by (simp add: committed_def synced_same_tables)
next
  case (Panicked m)
  from assms(1) obtain op where "accounts_for (fault e) op out (flydb g) (flydb g')"
    by (rule dispatch_op)
  then have "flydb g' = flydb g" using Panicked unfolding accounts_for_def by blast
  with Panicked assms show ?thesis by (simp add: committed_def)
qed

lemma crash_text:
  assumes "dispatchCommand e cmd s g = (out, s', g')" and "off_the_wire hasher e cmd"
    and "db_text hasher (flydb g)"
  shows "db_text hasher (committed out g g')"
  using assms dispatch_text by (cases out) (auto simp: committed_def)

lemma db_wf_update [simp]:
  "db_wf (db\<lparr>disk := d\<rparr>) = db_wf db" "db_wf (db\<lparr>err := x\<rparr>) = db_wf db"
  by (simp_all add: db_wf_def)

lemma synced_err [simp]: "synced (db\<lparr>err := x\<rparr>) = synced db"
  by (simp add: synced_def users_bytes_def acp_bytes_def file_names)

text \<open>What comes back of a policy that was put by a command.\<close>

definition comes_back :: "policy \<Rightarrow> policy \<Rightarrow> bool" where
  "comes_back p p' \<longleftrightarrow> PolicyName p' = PolicyName p \<and> Verb p' = Verb p \<and> Action p' = Action p
     \<and> ((\<forall>u \<in> set (user_list p). CHR '':'' \<notin> set u) \<longrightarrow> Users p' = Users p)
     \<and> (\<exists>qs. Paths p = map escape_path qs \<and> Paths p' = map plus_to_space qs)"

lemma reread_comes_back: "policy_escaped p \<Longrightarrow> comes_back p (reread p)"
  by (auto simp: comes_back_def policy_escaped_def policy_text_def reread_def policy_record_def
      parsePolicyPaths_escape parsePolicyUsers_join user_list_def)


definition full_disk :: "unit env" where
  "full_disk = plain_env\<lparr>fault := Rename_fails ''ENOSPC''\<rparr>"

definition add_bob :: "wvalue list" where
  "add_bob = [String ''ADDUSER'', String ''bob'', String ''pw'']"

lemma NumUsers_fresh: "users (fresh_db d) = []" "err (fresh_db d) = None" "policies (fresh_db d) = []"
  by (simp_all add: fresh_db_def sanitized_def writeAccessPolicies_def Let_def)

lemma add_bob_dies:
  "\<exists>m x s' g'. dispatchCommand full_disk add_bob new_sessionInfo (srv fresh_system) = (Fatal m x, s', g')"
  by (simp add: add_bob_def full_disk_def plain_env_def dispatchCommand_def getCommandHandler_def
      commandHandlers_def go_defs handleAddUser_def hash_password_def register_user_def AddUser_def
      update_def new_sessionInfo_def NumUsers_def NumUsers_fresh FindUser_def fresh_system_def
      any_hash_def Let_def db_result_def put_user_def writeUsers_def server_with_def)

lemma wire_commands: "off_the_wire any_hash plain_env add_bob" "off_the_wire any_hash full_disk add_bob"
  by (auto simp: off_the_wire_def bcrypt_laws_def any_hash_def full_disk_def add_bob_def value_size_def)


end
