(* ===== verification/Auth_Props.thy ===== *)
theory Auth_Props
  imports Server_Props
begin

text \<open>
  The properties of the running server that concern who a session is: a session becomes
  somebody only by proof, passwords and tokens that the server accepted or issued let their
  owner in, what anyone can bring down without authenticating, and how long a revoked
  privilege lives on.
\<close>

section \<open>Becoming somebody\<close>

lemma AddUser_finds:
  "fst (AddUser f u db) = None \<Longrightarrow> FindUser (snd (AddUser f u db)) (Username u) = Some u"
  by (simp add: AddUser_def FindUser_def put_user_def update_conv' db_result_def split: option.splits)

text \<open>
  C10. A session changes hands only by proof: after any command it is who it was (or nobody, if
  that user is gone), or it is somebody whose password or token the command carried, or it has
  just created the first user of all, an administrator, and is that user.
\<close>

theorem login_is_earned:
  assumes "dispatchCommand e cmd s g = (out, s', g')"
  shows "s' = s \<or> same_user (update (flydb g) s) s'
    \<or> (\<exists>n args name. cmd = String n # args \<and> proves_identity e g args name
         \<and> s' = changeUser (flydb g) name (update (flydb g) s))
    \<or> (NumUsers (flydb g) = 0
       \<and> (\<exists>u. valid_user u \<and> Admin u \<and> FindUser (flydb g') (Username u) = Some u
            \<and> username s' = Username u \<and> suser s' = Some u))"
  using assms
proof (cases rule: dispatch_effect)
  case (first u)
  then have "FindUser (flydb g') (Username u) = Some u"
    using AddUser_finds [OF first(3)] by (simp add: db_command_def accounts_for_def)
  moreover have "NumUsers (flydb g) = 0"
    using first(2) by (simp add: update_def Let_def split: if_splits option.splits)
  ultimately show ?thesis
    using first by (simp add: db_command_def changeUser_def Let_def)
next
  case (login n args name)
  then show ?thesis by blast
next
  case files
  then show ?thesis by (blast dest: file_commandE)
qed auto

theorem login_is_earned_witness:
  "same_user (update sample_db new_sessionInfo) (update sample_db new_sessionInfo)"
  using login_is_earned [OF rmuser_denied] by simp

section \<open>Passwords\<close>

text \<open>The documented behaviour of bcrypt: a generated hash matches the password it is of.\<close>

definition bcrypt_ok :: "bcrypt \<Rightarrow> bool" where
  "bcrypt_ok b \<longleftrightarrow> (\<forall>seed pw h. GenerateFromPassword b seed pw = Inr h \<longrightarrow>
     CompareHashAndPassword b h pw = Match)"

lemma errors_not_OK [simp]: "NewError c m \<noteq> OK" "NewErrorf c ms \<noteq> OK"
  by (simp_all add: NewError_def NewErrorf_def OK_def)

lemma commit_OK:
  "commit m res s g = (Reply OK, s', g') \<Longrightarrow> fst res = None \<and> g' = put_db (snd res) g"
  by (auto simp: commit_def split: prod.splits option.splits)

lemma register_OK:
  "register_user e u s g = (Reply OK, s', g') \<Longrightarrow> FindUser (flydb g') (Username u) = Some u"
  using AddUser_finds [of "fault e" u "flydb g"]
  by (auto simp: register_user_def Let_def split: prod.splits option.splits op_error.splits)

lemma adduser_OK:
  assumes "dispatchCommand e [String ''ADDUSER'', String n, String pw] s g = (Reply OK, s', g')"
  shows "\<exists>u. FindUser (flydb g') n = Some u \<and> GenerateFromPassword (bc e) (rand g) pw = Inr (Password u)"
  using assms
  by (auto simp: dispatchCommand_def getCommandHandler_def commandHandlers_def go_defs
      handleAddUser_def hash_password_def type_error_def Let_def
      split: if_splits sum.splits dest!: register_OK)

lemma UpdateUser_finds:
  "fst (UpdateUser f n h db) = None \<Longrightarrow>
   \<exists>u. FindUser db n = Some u \<and> FindUser (snd (UpdateUser f n h db)) n = Some (h u)"
  by (simp add: UpdateUser_def FindUser_def put_user_def update_conv' db_result_def split: option.splits)

lemma setpwd_OK:
  assumes "dispatchCommand e [String ''SETPWD'', String n, String pw] s g = (Reply OK, s', g')"
  shows "\<exists>u. FindUser (flydb g') n = Some u \<and> GenerateFromPassword (bc e) (rand g) pw = Inr (Password u)"
proof -
  from assms obtain h where h: "GenerateFromPassword (bc e) (rand g) pw = Inr h"
    and c: "commit ''Failed to update user'' (UpdateUser (fault e) n (\<lambda>u. u\<lparr>Password := h\<rparr>) (flydb g))
      (update (flydb g) s) (g\<lparr>rand := Suc (rand g)\<rparr>) = (Reply OK, s', g')"
    by (auto simp: dispatchCommand_def getCommandHandler_def commandHandlers_def go_defs
        handleSetpwd_def hash_password_def type_error_def split: if_splits sum.splits)
  from UpdateUser_finds [of "fault e" n "\<lambda>u. u\<lparr>Password := h\<rparr>" "flydb g"] commit_OK [OF c] h
  show ?thesis by auto
qed

lemma auth_pwd:
  "dispatchCommand e [String ''AUTH'', String ''PWD'', String n, String pw] t g
   = (if verifyPassword e (flydb g) n pw
      then reply OK (changeUser (flydb g) n (update (flydb g) t)) g
      else reply (NewError ''DENIED'' ''Authentication failed'') (update (flydb g) t) g)"
  by (simp add: dispatchCommand_def getCommandHandler_def commandHandlers_def go_defs handleAuth_def
      handlePasswordAuth_def)

text \<open>
  C17. A password that was accepted lets its owner in: after an ADDUSER or SETPWD that was
  answered with OK, authenticating with that name and password succeeds, on any session, and
  makes the session that user; any password that bcrypt tells apart is refused and leaves the
  session who it was.
\<close>

theorem password_login:
  assumes "bcrypt_ok (bc e)" and "bc e' = bc e" and "c = ''ADDUSER'' \<or> c = ''SETPWD''"
    and "dispatchCommand e [String c, String n, String pw] s g = (Reply OK, s', g')"
  shows "\<exists>u. FindUser (flydb g') n = Some u
    \<and> dispatchCommand e' [String ''AUTH'', String ''PWD'', String n, String pw] t g'
      = reply OK ((update (flydb g') t)\<lparr>username := n, suser := Some u\<rparr>) g'
    \<and> (\<forall>pw'. CompareHashAndPassword (bc e) (Password u) pw' \<noteq> Match \<longrightarrow>
        dispatchCommand e' [String ''AUTH'', String ''PWD'', String n, String pw'] t g'
        = reply (NewError ''DENIED'' ''Authentication failed'') (update (flydb g') t) g')"
proof -
  from assms(3,4) obtain u where u: "FindUser (flydb g') n = Some u"
    and h: "GenerateFromPassword (bc e) (rand g) pw = Inr (Password u)"
    using adduser_OK setpwd_OK by blast
  from h assms(1) have "CompareHashAndPassword (bc e) (Password u) pw = Match"
    by (simp add: bcrypt_ok_def)
  with u assms(2) show ?thesis
    by (simp add: auth_pwd verifyPassword_def changeUser_def Let_def)
qed

lemma add_bob_ok:
  "\<exists>s' g'. dispatchCommand plain_env add_bob new_sessionInfo (srv fresh_system) = (Reply OK, s', g')"
  by (simp add: add_bob_def plain_env_def dispatchCommand_def getCommandHandler_def
      commandHandlers_def go_defs handleAddUser_def hash_password_def register_user_def AddUser_def
      update_def new_sessionInfo_def NumUsers_def NumUsers_fresh FindUser_def fresh_system_def
      any_hash_def Let_def db_result_def put_user_def server_with_def)

theorem password_login_witness:
  "\<exists>s' g' u. dispatchCommand plain_env add_bob new_sessionInfo (srv fresh_system) = (Reply OK, s', g')
    \<and> dispatchCommand plain_env [String ''AUTH'', String ''PWD'', String ''bob'', String ''pw''] new_sessionInfo g'
      = reply OK ((update (flydb g') new_sessionInfo)\<lparr>username := ''bob'', suser := Some u\<rparr>) g'"
proof -
  obtain s' g' where d: "dispatchCommand plain_env add_bob new_sessionInfo (srv fresh_system) = (Reply OK, s', g')"
    using add_bob_ok by blast
  have "bcrypt_ok (bc plain_env)" by (simp add: bcrypt_ok_def any_hash_def)
  from password_login [OF this refl disjI1 [OF refl] d [unfolded add_bob_def]] d show ?thesis by blast
qed

section \<open>Tokens\<close>

text \<open>
  The documented behaviour of what tokens rest on: unsealing undoes sealing, the source of
  randomness delivers as many bytes as asked for, and a formatted point in time is one line
  that parses to the same point.
\<close>

definition token_laws :: "'k env \<Rightarrow> bool" where
  "token_laws e \<longleftrightarrow>
     (\<forall>k n p. Unseal (aead e) k n (Seal (aead e) k n p) = Some p)
     \<and> (\<forall>seed n b. rand_bytes e seed n = Some b \<longrightarrow> length b = n)
     \<and> (\<forall>t. parse_time e (fmt_time e t) = Some t \<and> LF \<notin> set (fmt_time e t))"

lemma payload_reads:
  "LF \<notin> set n \<Longrightarrow> LF \<notin> set x \<Longrightarrow>
   fst (ReadValue ''EOF'' (token_payload n x)) = Inr (Array [String n, String x])"
  using reads_def [THEN iffD1, OF Read_WriteTo [of "NewReader ''EOF''" "Array [String n, String x]"],
      rule_format, of "[]"]
  by (simp add: ReadValue_def token_payload_def NewArray_def NewString_def value_size_def)

lemma token_issued:
  assumes "dispatchCommand e [String ''TOKEN''] s g = (Reply (String token), s', g')"
  obtains key nonce where "tokenKey g = Some key" and "valid_key key"
    and "rand_bytes e (rand g) nonce_size = Some nonce" and "username (update (flydb g) s) \<noteq> []"
    and "token = a85_encode (nonce @ Seal (aead e) key nonce
      (token_payload (username (update (flydb g) s)) (fmt_time e (now g + five_minutes))))"
  using assms that
  by (auto simp: dispatchCommand_def getCommandHandler_def commandHandlers_def go_defs
      handleToken_def AesEncrypt_def Let_def NewError_def NewString_def
      split: if_splits option.splits)

lemma auth_tok:
  "tokenKey g = Some key \<Longrightarrow>
   dispatchCommand e [String ''AUTH'', String ''TOK'', String token] t g
   = (case verifyToken e (now g) key token of
        Rejected \<Rightarrow> reply (NewError ''DENIED'' ''Authentication failed'') (update (flydb g) t) g
      | Verify_panic m \<Rightarrow> (Panicked m, update (flydb g) t, g)
      | Verified n \<Rightarrow> reply OK (changeUser (flydb g) n (update (flydb g) t)) g)"
  by (simp add: dispatchCommand_def getCommandHandler_def commandHandlers_def go_defs handleAuth_def
      handleTokenAuth_def)

lemma update_username_LF:
  assumes "db_wf db" and "username (update db s) \<noteq> []"
  shows "LF \<notin> set (username (update db s))"
proof -
  from assms(2) obtain u where u: "FindUser db (username s) = Some u" "username (update db s) = username s"
    by (auto simp: update_def Let_def split: if_splits option.splits)
  then have "ValidateUsername (username s)"
    using user_table.find_key [OF _ u(1)] assms(1) unfolding db_wf_def by metis
  then show ?thesis unfolding u(2) by (rule ValidateUsername_LF)
qed

lemma verify_issued:
  assumes "token_laws e" and "LF \<notin> set n" and "valid_key key" and "rand_bytes e seed nonce_size = Some nonce"
    and token: "token = a85_encode (nonce @ Seal (aead e) key nonce (token_payload n (fmt_time e x)))"
    and "CHR ''z'' \<notin> set token"
  shows "verifyToken e t key token = (if t \<le> x then Verified n else Rejected)"
proof -
  let ?c = "nonce @ Seal (aead e) key nonce (token_payload n (fmt_time e x))"
  have l: "length nonce = nonce_size" using assms(1,4) by (simp add: token_laws_def)
  then have "12 \<le> length ?c" by (simp add: nonce_size_def)
  then have "a85_decode (length token) token = Some ?c"
    unfolding token by (intro a85_roundtrip a85_encode_room) (use assms(6) token in simp_all)
  moreover have "AesDecrypt (aead e) ?c key = Decrypted (token_payload n (fmt_time e x))"
    using l assms(1,3) by (simp add: AesDecrypt_def token_laws_def)
  ultimately show ?thesis
    using assms(1,2) payload_reads [of n "fmt_time e x"]
    by (simp add: verifyToken_def check_payload_def token_laws_def)
qed

text \<open>
  C16. A token stands for the user it was issued to, for five minutes and no longer: within that
  time it lets any session in as that user, with nothing else to show, afterwards it is
  refused and the session stays who it was. (A token in which Ascii85 has abbreviated a group
  of zeros is left out: the decoder is given only as much room as the token is long.)
\<close>

theorem token_login:
  assumes "token_laws e" and "db_wf (flydb g)" and "aead e' = aead e" and "parse_time e' = parse_time e"
    and "dispatchCommand e [String ''TOKEN''] s g = (Reply (String token), s', g')"
    and "CHR ''z'' \<notin> set token" and "tokenKey g2 = tokenKey g"
  shows "dispatchCommand e' [String ''AUTH'', String ''TOK'', String token] t g2
    = (if now g2 \<le> now g + five_minutes
       then reply OK (changeUser (flydb g2) (username (update (flydb g) s)) (update (flydb g2) t)) g2
       else reply (NewError ''DENIED'' ''Authentication failed'') (update (flydb g2) t) g2)"
  using assms(5)
proof (rule token_issued)
  fix key nonce
  assume k: "tokenKey g = Some key" "valid_key key" "rand_bytes e (rand g) nonce_size = Some nonce"
    and n: "username (update (flydb g) s) \<noteq> []"
    and token: "token = a85_encode (nonce @ Seal (aead e) key nonce
      (token_payload (username (update (flydb g) s)) (fmt_time e (now g + five_minutes))))"
  have "verifyToken e' (now g2) key token = verifyToken e (now g2) key token"
    unfolding verifyToken_def check_payload_def assms(3,4) ..
  also have "\<dots> = (if now g2 \<le> now g + five_minutes
      then Verified (username (update (flydb g) s)) else Rejected)"
    by (rule verify_issued [OF assms(1) update_username_LF [OF assms(2) n] k(2,3) token assms(6)])
  finally show ?thesis using k(1) assms(7) by (simp add: auth_tok)
qed

text \<open>Points in time written in binary, lowest digit first, after a sign.\<close>

fun stamp :: "nat \<Rightarrow> string" where
  "stamp n = (if n = 0 then [] else (if odd n then CHR ''1'' else CHR ''0'') # stamp (n div 2))"

declare stamp.simps [simp del]

fun unstamp :: "string \<Rightarrow> nat" where
  "unstamp [] = 0"
| "unstamp (c # s) = (if c = CHR ''1'' then 1 else 0) + 2 * unstamp s"

lemma unstamp_stamp: "unstamp (stamp n) = n"
  by (induction n rule: stamp.induct) (subst stamp.simps, auto)

lemma stamp_LF: "LF \<notin> set (stamp n)"
  by (induction n rule: stamp.induct) (subst stamp.simps, auto)

definition stamp_env :: "unit env" where
  "stamp_env = plain_env\<lparr>
     fmt_time := \<lambda>t. if 0 \<le> t then CHR ''+'' # stamp (nat t) else CHR ''-'' # stamp (nat (- t)),
     parse_time := \<lambda>x. case x of [] \<Rightarrow> None
       | c # s \<Rightarrow> Some (if c = CHR ''-'' then - int (unstamp s) else int (unstamp s))\<rparr>"

lemma stamp_env_laws: "token_laws stamp_env"
  by (simp add: token_laws_def stamp_env_def plain_env_def clear_box_def unstamp_stamp stamp_LF)

definition token_server :: "unit server" where
  "token_server = (server_with sample_db)\<lparr>tokenKey := Some (replicate 16 (CHR ''k''))\<rparr>"

definition bob_session :: sessionInfo where
  "bob_session = new_sessionInfo\<lparr>username := ''bob'', suser := Some bob\<rparr>"

definition bob_token :: string where
  "bob_token = a85_encode (replicate 12 (CHR ''x'') @ token_payload ''bob'' (CHR ''+'' # stamp 300000000000))"

lemma stamp_no_zero: "zero_byte \<notin> set (stamp n)"
  by (induction n rule: stamp.induct) (subst stamp.simps, auto)

lemma bob_token_value: "CHR ''z'' \<notin> set bob_token"
  unfolding bob_token_def
  by (rule a85_encode_no_z)
    (simp add: token_payload_def NewArray_def NewString_def stamp_no_zero
      write_String_def Itoa_no_char is_digit_def)

lemma update_bob: "update sample_db bob_session = bob_session"
  by (simp add: update_def bob_session_def NumUsers_def FindUser_def new_sessionInfo_def)

lemma bob_token_issued:
  "dispatchCommand stamp_env [String ''TOKEN''] bob_session token_server
   = reply (String bob_token) bob_session (token_server\<lparr>rand := 1\<rparr>)"
  by (simp add: dispatchCommand_def getCommandHandler_def commandHandlers_def go_defs handleToken_def
      token_server_def update_bob) (simp add: bob_session_def new_sessionInfo_def AesEncrypt_def
      valid_key_def stamp_env_def plain_env_def clear_box_def nonce_size_def five_minutes_def
      server_with_def bob_token_def NewString_def Let_def)

theorem token_login_witness:
  "dispatchCommand stamp_env [String ''AUTH'', String ''TOK'', String bob_token] new_sessionInfo token_server
   = reply OK (changeUser sample_db ''bob'' (update sample_db new_sessionInfo)) token_server"
  using token_login [OF stamp_env_laws _ refl refl bob_token_issued bob_token_value,
      of token_server new_sessionInfo]
  by (simp add: token_server_def update_bob five_minutes_def) (simp add: bob_session_def)

section \<open>What anyone can bring down\<close>

text \<open>
  C39. Two commands of a client that has not authenticated end the server for everybody: setting
  the password of the user with the empty name, which a session without a user is taken to be,
  fails to find that user and is fatal; a token too short to hold a nonce is sliced out of
  bounds.
\<close>

theorem anonymous_can_stop_server:
  assumes "db_wf (flydb g)" and "NumUsers (flydb g) > 0" and "username s = []"
    and "GenerateFromPassword (bc e) (rand g) ''x'' = Inr h"
    and "tokenKey g = Some key" and "valid_key key"
  shows "fst (dispatchCommand e [String ''SETPWD'', String [], String ''x''] s g)
      = Fatal ''Failed to update user'' (NotFound ''user not found: '')
    \<and> fst (dispatchCommand e [String ''AUTH'', String ''TOK'', String []] s g)
      = Panicked ''runtime error: slice bounds out of range''"
proof
  have "FindUser (flydb g) [] = None"
    using FindUser_wf [OF assms(1), of "[]"] by (cases "FindUser (flydb g) []") simp_all
  moreover have "\<not> singleUser (update (flydb g) s)" "username (update (flydb g) s) = []"
    using assms(2,3) by (simp_all add: update_def)
  ultimately show "fst (dispatchCommand e [String ''SETPWD'', String [], String ''x''] s g)
      = Fatal ''Failed to update user'' (NotFound ''user not found: '')"
    using assms(4)
    by (simp add: dispatchCommand_def getCommandHandler_def commandHandlers_def go_defs
        handleSetpwd_def hash_password_def UpdateUser_def commit_def)
  have "verifyToken e (now g) key [] = Verify_panic ''runtime error: slice bounds out of range''"
    using assms(6) by (simp add: verifyToken_def a85_decode_def a85_flush_def AesDecrypt_def nonce_size_def)
  then show "fst (dispatchCommand e [String ''AUTH'', String ''TOK'', String []] s g)
      = Panicked ''runtime error: slice bounds out of range''"
    by (simp add: auth_tok [OF assms(5)])
qed

theorem anonymous_can_stop_server_witness:
  "fst (dispatchCommand plain_env [String ''SETPWD'', String [], String ''x''] new_sessionInfo token_server)
   = Fatal ''Failed to update user'' (NotFound ''user not found: '')"
  by (rule conjunct1 [OF anonymous_can_stop_server [where h = "''hash''" and key = "replicate 16 (CHR ''k'')"]])
    (simp_all add: token_server_def NumUsers_def new_sessionInfo_def any_hash_def valid_key_def)

section \<open>What a revoked privilege still allows\<close>

text \<open>
  Privileges that are taken away last as long as the session: a session that logged in while
  its user was an administrator goes on removing users after the administrator bit has been
  cleared in the database, because only the user's existence is looked at again.
\<close>

theorem revoked_admin_still_rules:
  assumes "suser s = Some u" and "Admin u" and "username s \<noteq> []"
    and "FindUser (flydb g) (username s) = Some v" and "\<not> Admin v"
    and "db_wf (flydb g)" and "FindUser (flydb g) n = Some x" and "fault e = No_fault"
    and "err (flydb g) = None"
  shows "\<exists>s' g'. dispatchCommand e [String ''RMUSER'', String n] s g = (Reply OK, s', g')
    \<and> FindUser (flydb g') n = None"
proof -
  have "users (flydb g) \<noteq> []" using assms(4) by (auto simp: FindUser_def)
  then have s0: "update (flydb g) s = s\<lparr>singleUser := False\<rparr>"
    using assms(3,4) by (simp add: update_def NumUsers_def)
  have "fst (DeleteUser No_fault n (flydb g)) = None"
    using assms(7,9) by (simp add: DeleteUser_def db_result_def remove_user_def)
  moreover have "FindUser (snd (DeleteUser No_fault n (flydb g))) n = None"
    using assms(7) by (simp add: DeleteUser_def FindUser_def db_result_def remove_user_def delete_conv'
        split: option.split)
  ultimately show ?thesis
    using assms(1,2,8) s0
    by (auto simp: dispatchCommand_def getCommandHandler_def commandHandlers_def go_defs
        handleRmuser_def is_admin_def commit_delete_def commit_def split: prod.split option.splits)
qed

theorem revoked_admin_still_rules_witness:
  "\<exists>s' g'. dispatchCommand plain_env [String ''RMUSER'', String ''bob'']
      (new_sessionInfo\<lparr>username := ''bob'', suser := Some bob_admin\<rparr>) (server_with sample_db) = (Reply OK, s', g')
    \<and> FindUser (flydb g') ''bob'' = None"
  by (rule revoked_admin_still_rules [where u = bob_admin and v = bob and x = bob])
    (simp_all add: bob_admin_def FindUser_def bob_def)

end
