(* ===== verification/File_Props.thy ===== *)
theory File_Props
  imports Server_Props Session_Facts Wire_Props
begin

text \<open>
  The properties of the commands on files: which entries of a folder a client sees, and how
  streams get their numbers.
\<close>

section \<open>Listing a folder\<close>

text \<open>The row of one entry, for a folder and for a regular file.\<close>

definition entry_row :: "file_info \<Rightarrow> wvalue list" where
  "entry_row info =
     [String (if InfoKind info = Directory then ''D'' else ''F''), String (InfoName info),
      if InfoKind info = Directory then Null else Integer (InfoSize info),
      String (InfoModTime info)]"

definition shown :: "'k server \<Rightarrow> sessionInfo \<Rightarrow> string \<Rightarrow> file_info \<Rightarrow> bool" where
  "shown g s folder info \<longleftrightarrow> InfoKind info \<noteq> Special
     \<and> (\<exists>p. resolveRead g s (Join [folder, InfoName info]) = Inr p)"

lemma list_entries_shown:
  "list_entries g s v (map Inr infos) t
   = Some (foldl Add t (map entry_row (filter (shown g s v) infos)))"
  by (induction infos arbitrary: t)
    (auto simp: addFile_def shown_def entry_row_def NewString_def NewInteger_def
      split: sum.split file_kind.split)


definition file_named :: "string \<Rightarrow> file_info" where
  "file_named n = \<lparr>InfoName = n, InfoKind = Regular, InfoSize = 7, InfoModTime = ''now''\<rparr>"

definition two_files :: "unit env" where
  "two_files = plain_env\<lparr>kern := no_kernel\<lparr>os_ReadDir := \<lambda>p k. (Inr (map Inr [file_named ''a'', file_named ''.fly'']), k)\<rparr>\<rparr>"


section \<open>The numbers of streams\<close>

definition full :: "session \<Rightarrow> bool" where
  "full s \<longleftrightarrow> used_slots s = {..<num_slots}"

definition lowest :: "session \<Rightarrow> nat" where
  "lowest s = (LEAST j. j \<notin> used_slots s)"

lemma free_slot:
  assumes "session_wf s"
  shows "nextStreamId 0 (streams s) = (if full s then None else Some (lowest s))"
proof (cases "nextStreamId 0 (streams s)")
  case None
  then have "used_slots s = {..<num_slots}" using stream_table.free_None [OF assms] by blast
  with None show ?thesis by (simp add: full_def)
next
  case (Some i)
  then have "used_slots s \<noteq> {..<num_slots}" using stream_table.free_None [OF assms] by force
  with Some stream_table.free_least [OF assms Some] show ?thesis by (simp add: full_def lowest_def)
qed

text \<open>
  C32. A session has at most 16 streams, and a new one gets the lowest free number: opening a
  stream to read, to write or to copy answers TOOMANY exactly when all numbers are in use, and
  otherwise takes the lowest one and nothing else; closing a stream and its release make
  its number free again and leave every other stream alone; the counter counts them.
\<close>

theorem stream_numbers:
  assumes "session_wf s"
  shows "NumStreams s = int (card (used_slots s)) \<and> used_slots s \<subseteq> {..<16}
    \<and> (OpenFile K p k = (Inr f, k1) \<longrightarrow> NewReadStream K p s k
        = (if full s then (Inl (NewError ''TOOMANY'' ''Too many streams open''), s, CloseFile K f k1)
           else (Inr (lowest s), insert_stream (lowest s) (ReadStream 0 f) s, k1)))
    \<and> (CreateTemp K k = (Inr f, k1) \<longrightarrow> start_write K p s k
        = (if full s then (Inl (NewError ''TOOMANY'' ''Too many streams open''), s, CloseFile K f k1)
           else (Inr (lowest s), insert_stream (lowest s) (WriteStream 0 [] p f) s, k1)))
    \<and> NewCopyStream p q s
        = (if full s then (Inl (NewError ''TOOMANY'' ''Too many streams open''), s)
           else (Inr (lowest s), insert_stream (lowest s) (CopyStream 0 p q) s))
    \<and> (\<not> full s \<longrightarrow> used_slots (insert_stream (lowest s) st s) = insert (lowest s) (used_slots s))
    \<and> (i \<in> used_slots s \<longrightarrow> session_wf (releaseStream i s)
        \<and> used_slots (releaseStream i s) = used_slots s - {i})"
proof (intro conjI impI)
  show "NumStreams s = int (card (used_slots s))"
    using assms by (simp add: NumStreams_def session_wf_def)
  show "used_slots s \<subseteq> {..<16}"
    using stream_table.used_bound [OF assms] by (simp add: num_slots_def)
qed (use assms free_slot [OF assms] in \<open>simp_all add: NewReadStream_def start_write_def NewCopyStream_def
    stream_table.used_insert stream_table.wf_release stream_table.used_release\<close>)

theorem stream_numbers_witness:
  "NewCopyStream ''/a'' ''/b'' new_session
   = (Inr (lowest new_session), insert_stream (lowest new_session) (CopyStream 0 ''/a'' ''/b'') new_session)"
proof -
  have "used_slots new_session = {}" by (auto simp: used_slots_def new_session_def)
  moreover have "0 \<in> {..<num_slots}" by (simp add: num_slots_def)
  ultimately have "\<not> full new_session" unfolding full_def by (metis empty_iff)
  moreover note stream_numbers [OF session_wf_new, of no_kernel "''/a''" no_calls _ no_calls
      "''/b''" "CopyStream 0 ''/a'' ''/b''" 0]
  ultimately show ?thesis by presburger
qed

end
