(* ===== verification/Stream_Workers.thy ===== *)
theory Stream_Workers
  imports Session_Streams
begin

text \<open>
  The goroutines behind the streams, the second half of
  \<^verbatim>\<open>src/internal/session/streams.go\<close>, each as a step relation on its own state: a
  worker, the session's writer that takes what it offers on \<open>dataOut\<close>, and the reader that
  feeds it interleave in any order. A select on \<open>done\<close>, \<open>cancel\<close> or the watchdog may find
  them ready at any moment, so the steps that end a worker are always possible.
\<close>

section \<open>Reading a file\<close>

definition buf_size :: nat where "buf_size = 32 * 1024"

text \<open>
  What a worker offers on \<open>dataOut\<close>: a blob is a slice of one of its two buffers, a
  reference and not a copy; it is read when the writer writes it out.
\<close>

datatype offer = Slice nat nat | Plain wvalue

fun deref :: "string \<Rightarrow> bytes list \<Rightarrow> offer \<Rightarrow> wvalue" where
  "deref tag bs (Slice i n) = NewTaggedValue (NewBlob (take n (bs ! i))) tag"
| "deref tag bs (Plain v) = NewTaggedValue v tag"

text \<open>
  The worker: what the file still holds, its buffers, the value it is blocked on and whether
  it returns after that, the value the writer has received and not yet written out, and what
  has been written out.
\<close>

record read_worker =
  unread :: bytes
  bufs :: "bytes list"
  cur :: nat
  offered :: "(offer \<times> bool) option"
  in_writer :: "offer option"
  written :: "wvalue list"
  returned :: bool

definition handleReadStream :: "bytes \<Rightarrow> read_worker" where
  "handleReadStream content =
     \<lparr>unread = content, bufs = [replicate buf_size (CHR 0x00), replicate buf_size (CHR 0x00)],
      cur = 0, offered = None, in_writer = None, written = [], returned = False\<rparr>"

definition next_buf :: "read_worker \<Rightarrow> nat" where
  "next_buf w = (cur w + 1) mod 2"

text \<open>A read of the file fills the front of a buffer.\<close>

definition fill :: "bytes \<Rightarrow> bytes \<Rightarrow> bytes" where
  "fill data b = data @ drop (length data) b"

definition read_error :: wvalue where
  "read_error = NewError ''IO'' ''Could not read chunk from file. Closing stream.''"

inductive read_step :: "string \<Rightarrow> read_worker \<Rightarrow> read_worker \<Rightarrow> bool" for tag where
  chunk: "\<not> returned w \<Longrightarrow> offered w = None \<Longrightarrow> unread w = data @ rest \<Longrightarrow> data \<noteq> [] \<Longrightarrow>
    length data \<le> buf_size \<Longrightarrow>
    read_step tag w
      (w\<lparr>unread := rest, cur := next_buf w,
         bufs := (bufs w)[next_buf w := fill data (bufs w ! next_buf w)],
         offered := Some (Slice (next_buf w) (length data), False)\<rparr>)"
| end_of_file: "\<not> returned w \<Longrightarrow> offered w = None \<Longrightarrow> unread w = [] \<Longrightarrow>
    read_step tag w (w\<lparr>cur := next_buf w, offered := Some (Plain Null, True)\<rparr>)"
| unreadable_chunk: "\<not> returned w \<Longrightarrow> offered w = None \<Longrightarrow>
    read_step tag w (w\<lparr>cur := next_buf w, offered := Some (Plain read_error, True)\<rparr>)"
| stopped: "\<not> returned w \<Longrightarrow> offered w = None \<Longrightarrow> read_step tag w (w\<lparr>returned := True\<rparr>)"
| received: "offered w = Some (v, fin) \<Longrightarrow> in_writer w = None \<Longrightarrow>
    read_step tag w (w\<lparr>offered := None, in_writer := Some v, returned := fin\<rparr>)"
| written_out: "in_writer w = Some v \<Longrightarrow>
    read_step tag w (w\<lparr>in_writer := None, written := written w @ [deref tag (bufs w) v]\<rparr>)"

section \<open>Writing a file\<close>

text \<open>
  The worker: the channel of frames, the temporary file and the file at the final path (what
  they hold), the error it is blocked on; and \<open>fed\<close>, all that the reader ever put into the
  channel.
\<close>

record write_worker =
  queue :: "frame list"
  tmp :: "bytes option"
  final :: "bytes option"
  woffered :: "wvalue option"
  wreturned :: bool
  fed :: "frame list"

definition frame_slots :: nat where "frame_slots = 5"

definition handleWriteStream :: "bytes option \<Rightarrow> write_worker" where
  "handleWriteStream old =
     \<lparr>queue = [], tmp = Some [], final = old, woffered = None, wreturned = False, fed = []\<rparr>"

definition running :: "write_worker \<Rightarrow> bool" where
  "running w \<longleftrightarrow> \<not> wreturned w \<and> woffered w = None"

definition cancelWriteStream :: "write_worker \<Rightarrow> write_worker" where
  "cancelWriteStream w = w\<lparr>tmp := None\<rparr>"

text \<open>The end of the goroutine after it has offered an error.\<close>

definition fail_with :: "string \<Rightarrow> string \<Rightarrow> string \<Rightarrow> write_worker \<Rightarrow> write_worker" where
  "fail_with tag code msg w = w\<lparr>woffered := Some (NewTaggedValue (NewError code msg) tag)\<rparr>"

inductive write_step :: "string \<Rightarrow> write_worker \<Rightarrow> write_worker \<Rightarrow> bool" for tag where
  feed: "length (queue w) < frame_slots \<Longrightarrow>
    write_step tag w (w\<lparr>queue := queue w @ [f], fed := fed w @ [f]\<rparr>)"
| handleChunk: "running w \<Longrightarrow> queue w = DataFrame p # q \<Longrightarrow> tmp w = Some t \<Longrightarrow>
    write_step tag w (w\<lparr>queue := q, tmp := Some (t @ p)\<rparr>)"
| chunk_fails: "running w \<Longrightarrow> queue w = DataFrame p # q \<Longrightarrow>
    write_step tag w
      (fail_with tag ''IO'' ''Could not write chunk to disk. Closing stream.''
        (cancelWriteStream (w\<lparr>queue := q\<rparr>)))"
| finishWriteStream: "running w \<Longrightarrow> queue w = FinishFrame # q \<Longrightarrow>
    write_step tag w (w\<lparr>queue := q, final := tmp w, tmp := None, wreturned := True\<rparr>)"
| rename_fails: "running w \<Longrightarrow> queue w = FinishFrame # q \<Longrightarrow>
    write_step tag w (fail_with tag ''IO'' ''Could not write file to disk.'' (w\<lparr>queue := q\<rparr>))"
| cancelled: "running w \<Longrightarrow> write_step tag w ((cancelWriteStream w)\<lparr>wreturned := True\<rparr>)"
| handleTimeout: "running w \<Longrightarrow>
    write_step tag w
      (fail_with tag ''TIMEOUT'' ''Timed out due to inactivity'' (cancelWriteStream w))"
| error_received: "woffered w = Some v \<Longrightarrow>
    write_step tag w (w\<lparr>woffered := None, wreturned := True\<rparr>)"

section \<open>The watchdog of a write stream\<close>

text \<open>
  The timer of \<^verbatim>\<open>src/internal/session/watchdog.go\<close>: counting, expired with its tick still in
  the channel, or expired with the tick received. \<open>reset\<close> stops the timer, receives the tick of
  one that had expired, and starts it again; \<open>None\<close> where it waits for a tick that has been
  received already. The steps \<open>handleTimeout\<close> above receive the tick and end the worker.
\<close>

datatype watchdog = Counting | Expired | Received

definition newWatchdog :: watchdog where "newWatchdog = Counting"

definition expire :: "watchdog \<Rightarrow> watchdog" where
  "expire d = (case d of Counting \<Rightarrow> Expired | x \<Rightarrow> x)"

definition reset :: "watchdog \<Rightarrow> watchdog option" where
  "reset d = (case d of Counting \<Rightarrow> Some Counting | Expired \<Rightarrow> Some Counting | Received \<Rightarrow> None)"

text \<open>
  A running worker has not received the tick, so its resets never wait, whenever the timer
  expires in between.
\<close>

lemma reset_never_waits: "fold (\<lambda>r d. if r then the (reset d) else expire d) rs newWatchdog \<noteq> Received"
proof -
  have "d \<noteq> Received \<Longrightarrow> fold (\<lambda>r d. if r then the (reset d) else expire d) rs d \<noteq> Received" for d
    by (induction rs arbitrary: d) (auto simp: reset_def expire_def split: watchdog.splits)
  then show ?thesis by (simp add: newWatchdog_def)
qed

section \<open>Copying a file\<close>

text \<open>
  The worker: what the source still holds once it has been opened, the temporary file, the
  file at the destination, the value it is blocked on.
\<close>

record copy_worker =
  source :: "bytes option"
  ctmp :: "bytes option"
  target :: "bytes option"
  coffered :: "wvalue option"
  creturned :: bool

definition handleCopyStream :: "bytes option \<Rightarrow> copy_worker" where
  "handleCopyStream old =
     \<lparr>source = None, ctmp = None, target = old, coffered = None, creturned = False\<rparr>"

definition busy :: "copy_worker \<Rightarrow> bool" where
  "busy w \<longleftrightarrow> \<not> creturned w \<and> coffered w = None"

definition cancelCopyStream :: "copy_worker \<Rightarrow> copy_worker" where
  "cancelCopyStream w = w\<lparr>ctmp := None\<rparr>"

definition copy_error :: "string \<Rightarrow> wvalue" where
  "copy_error msg = NewError ''IO'' msg"

inductive copy_step :: "string \<Rightarrow> bytes \<Rightarrow> copy_worker \<Rightarrow> copy_worker \<Rightarrow> bool" for tag content where
  open_fails: "busy w \<Longrightarrow> source w = None \<Longrightarrow>
    copy_step tag content w
      (w\<lparr>coffered := Some (NewTaggedValue (copy_error ''Could not open source file. Closing stream.'') tag)\<rparr>)"
| create_fails: "busy w \<Longrightarrow> source w = None \<Longrightarrow>
    copy_step tag content w
      (w\<lparr>coffered := Some (NewTaggedValue (copy_error ''Could not create temporary. Closing stream.'') tag)\<rparr>)"
| start: "busy w \<Longrightarrow> source w = None \<Longrightarrow>
    copy_step tag content w (w\<lparr>source := Some content, ctmp := Some []\<rparr>)"
| full_chunk: "busy w \<Longrightarrow> source w = Some s \<Longrightarrow> ctmp w = Some t \<Longrightarrow> buf_size \<le> length s \<Longrightarrow>
    copy_step tag content w
      (w\<lparr>source := Some (drop buf_size s), ctmp := Some (t @ take buf_size s)\<rparr>)"
| last_chunk: "busy w \<Longrightarrow> source w = Some s \<Longrightarrow> ctmp w = Some t \<Longrightarrow> length s < buf_size \<Longrightarrow>
    copy_step tag content w
      (w\<lparr>source := Some [], target := Some (t @ s), ctmp := None,
         coffered := Some (NewTaggedValue Null tag)\<rparr>)"
| move_fails: "busy w \<Longrightarrow> source w = Some s \<Longrightarrow> ctmp w = Some t \<Longrightarrow> length s < buf_size \<Longrightarrow>
    copy_step tag content w
      (w\<lparr>source := Some [], ctmp := Some (t @ s),
         coffered := Some (NewTaggedValue (copy_error
           ''Could not move temporary file to final destination. Closing stream.'') tag)\<rparr>)"
| copy_fails: "busy w \<Longrightarrow> source w = Some s \<Longrightarrow>
    copy_step tag content w
      (w\<lparr>coffered := Some (NewTaggedValue (copy_error ''Could not copy chunk of data. Closing stream.'') tag)\<rparr>)"
| copy_cancelled: "busy w \<Longrightarrow> source w = Some s \<Longrightarrow>
    copy_step tag content w ((cancelCopyStream w)\<lparr>creturned := True\<rparr>)"
| reply_received: "coffered w = Some v \<Longrightarrow>
    copy_step tag content w (w\<lparr>coffered := None, creturned := True\<rparr>)"

inductive_cases read_stepE: "read_step tag w w'"
inductive_cases write_stepE: "write_step tag w w'"
inductive_cases copy_stepE: "copy_step tag content w w'"

end
