(* ===== verification/Stream_Props.thy ===== *)
theory Stream_Props
  imports Stream_Workers
begin

text \<open>
  The properties of the stream workers: what a client receives of a file is the file, an upload
  or a copy replaces its destination completely or not at all, and what a client cannot tell.
  \<open>atomic_target\<close> is the interface of a worker that builds a file beside its destination and
  moves it there in one step.
\<close>

section \<open>Downloads\<close>

abbreviation blob_frame :: "string \<Rightarrow> bytes \<Rightarrow> wvalue" where
  "blob_frame tag p \<equiv> NewTaggedValue (NewBlob p) tag"

abbreviation end_frame :: "string \<Rightarrow> wvalue" where
  "end_frame tag \<equiv> NewTaggedValue Null tag"

definition pending :: "bytes list \<Rightarrow> offer option \<Rightarrow> bytes" where
  "pending bs x = (case x of Some (Slice i n) \<Rightarrow> take n (bs ! i) | _ \<Rightarrow> [])"

lemma pending_simps [simp]:
  "pending bs None = []" "pending bs (Some (Plain v)) = []"
  "pending bs (Some (Slice i n)) = take n (bs ! i)"
  by (simp_all add: pending_def)

text \<open>
  The buffers: the one the worker filled last is the one it offers, and the one the writer is
  writing out is never the one to be filled next.
\<close>

definition buffers_ok :: "read_worker \<Rightarrow> bool" where
  "buffers_ok w \<longleftrightarrow> length (bufs w) = 2 \<and> (\<forall>j < 2. length (bufs w ! j) = buf_size) \<and> cur w < 2
     \<and> (\<forall>i n fin. offered w = Some (Slice i n, fin) \<longrightarrow> i = cur w)
     \<and> (\<forall>i n. in_writer w = Some (Slice i n) \<longrightarrow>
          (if offered w = None then i = cur w else i = next_buf w))"

text \<open>What has been written out: chunks, and at the end at most one other frame.\<close>

definition ended_by :: "string \<Rightarrow> read_worker \<Rightarrow> wvalue \<Rightarrow> bool" where
  "ended_by tag w v \<longleftrightarrow> returned w \<and> offered w = None \<and> in_writer w = None
     \<and> (v = end_frame tag \<and> unread w = [] \<or> v = NewTaggedValue read_error tag)"

definition last_offer :: "read_worker \<Rightarrow> offer \<Rightarrow> bool" where
  "last_offer w v \<longleftrightarrow> v = Plain Null \<and> unread w = [] \<or> v = Plain read_error"

definition output_ok :: "string \<Rightarrow> bytes \<Rightarrow> read_worker \<Rightarrow> bool" where
  "output_ok tag content w \<longleftrightarrow>
     (\<exists>ps. concat ps @ pending (bufs w) (in_writer w)
          @ pending (bufs w) (map_option fst (offered w)) @ unread w = content
        \<and> (written w = map (blob_frame tag) ps
           \<or> (\<exists>v. written w = map (blob_frame tag) ps @ [v] \<and> ended_by tag w v)))
     \<and> (\<forall>v fin. offered w = Some (v, fin) \<longrightarrow>
          \<not> returned w \<and> (if fin then last_offer w v else \<exists>i n. v = Slice i n))
     \<and> (\<forall>v. in_writer w = Some (Plain v) \<longrightarrow>
          returned w \<and> offered w = None \<and> last_offer w (Plain v))
     \<and> (in_writer w \<noteq> None \<longrightarrow> (\<exists>ps. written w = map (blob_frame tag) ps))
     \<and> (\<not> returned w \<longrightarrow> (\<exists>ps. written w = map (blob_frame tag) ps))"

lemma next_buf_other [simp]: "cur w < 2 \<Longrightarrow> next_buf w < 2" "cur w < 2 \<Longrightarrow> next_buf w \<noteq> cur w"
  by (auto simp: next_buf_def less_2_cases_iff)

lemma next_buf_twice [simp]: "c < 2 \<Longrightarrow> Suc (Suc c mod 2) mod 2 = c"
  by (auto simp: less_2_cases_iff)

lemma fill_length [simp]: "length data \<le> length b \<Longrightarrow> length (fill data b) = length b"
  by (simp add: fill_def)

lemma fill_take [simp]: "take (length data) (fill data b) = data"
  by (simp add: fill_def)

lemma buffers_step: "read_step tag w w' \<Longrightarrow> buffers_ok w \<Longrightarrow> buffers_ok w'"
  by (induction rule: read_step.induct)
    (auto simp: buffers_ok_def next_buf_def nth_list_update split: if_splits)

text \<open>A read fills the one buffer that nobody is waiting for.\<close>

lemma pending_fill:
  "buffers_ok w \<Longrightarrow> offered w = None \<Longrightarrow>
   pending ((bufs w)[next_buf w := b]) (in_writer w) = pending (bufs w) (in_writer w)"
  by (auto simp: pending_def buffers_ok_def split: option.splits offer.splits)

lemma deref_slice [simp]: "deref tag bs (Slice i n) = blob_frame tag (take n (bs ! i))"
  by simp

lemma output_step:
  "read_step tag w w' \<Longrightarrow> buffers_ok w \<Longrightarrow> output_ok tag content w \<Longrightarrow> output_ok tag content w'"
proof (induction rule: read_step.induct)
  case (chunk w data rest)
  then obtain ps where ps: "written w = map (blob_frame tag) ps"
    "concat ps @ pending (bufs w) (in_writer w) @ unread w = content"
    unfolding output_ok_def by (auto simp: ended_by_def)
  have "next_buf w < length (bufs w)" "length (bufs w ! next_buf w) = buf_size"
    using chunk by (auto simp: buffers_ok_def)
  with ps chunk pending_fill [of w] show ?case
    by (auto simp: output_ok_def)
next
  case (end_of_file w)
  then show ?case by (auto simp: output_ok_def last_offer_def ended_by_def)
next
  case (unreadable_chunk w)
  then show ?case by (auto simp: output_ok_def last_offer_def ended_by_def)
next
  case (stopped w)
  then show ?case by (auto simp: output_ok_def ended_by_def)
next
  case (received w v fin)
  then show ?case
    by (auto simp: output_ok_def ended_by_def last_offer_def split: if_splits)
next
  case (written_out w v)
  then obtain ps where ps: "written w = map (blob_frame tag) ps"
    "concat ps @ pending (bufs w) (Some v) @ pending (bufs w) (map_option fst (offered w)) @ unread w = content"
    unfolding output_ok_def by (auto simp: ended_by_def)
  show ?case
  proof (cases v)
    case (Slice i n)
    have "written w @ [deref tag (bufs w) v] = map (blob_frame tag) (ps @ [take n (bufs w ! i)])"
      using ps(1) Slice by simp
    moreover have "concat (ps @ [take n (bufs w ! i)]) @ pending (bufs w) (map_option fst (offered w))
        @ unread w = content"
      using ps(2) Slice by simp
    moreover have "last_offer (w\<lparr>in_writer := None, written := ws\<rparr>) x = last_offer w x" for ws x
      by (simp add: last_offer_def)
    moreover note written_out(3) [unfolded output_ok_def, THEN conjunct2, THEN conjunct1]
    ultimately show ?thesis
      unfolding output_ok_def by (intro conjI exI [of _ "ps @ [take n (bufs w ! i)]"] impI) simp_all
  next
    case (Plain x)
    with written_out ps show ?thesis
      by (auto simp: output_ok_def ended_by_def last_offer_def)
  qed
qed

lemma read_start: "buffers_ok (handleReadStream content)" "output_ok tag content (handleReadStream content)"
proof -
  show "buffers_ok (handleReadStream content)"
    by (auto simp: handleReadStream_def buffers_ok_def less_2_cases_iff)
  show "output_ok tag content (handleReadStream content)"
    unfolding output_ok_def by (intro conjI exI [of _ "[]"]) (simp_all add: handleReadStream_def)
qed

lemma read_steps_ok:
  "(read_step tag)\<^sup>*\<^sup>* (handleReadStream content) w \<Longrightarrow> buffers_ok w \<and> output_ok tag content w"
proof (induction rule: rtranclp_induct)
  case (step w w')
  then show ?case using buffers_step output_step by blast
qed (simp add: read_start)

lemma read_frames:
  assumes "(read_step tag)\<^sup>*\<^sup>* (handleReadStream content) w"
  shows "\<exists>ps. prefix (concat ps) content
    \<and> (written w = map (blob_frame tag) ps
       \<or> written w = map (blob_frame tag) ps @ [end_frame tag] \<and> concat ps = content
       \<or> written w = map (blob_frame tag) ps @ [NewTaggedValue read_error tag])"
proof -
  from read_steps_ok [OF assms] obtain ps where ps: "concat ps @ pending (bufs w) (in_writer w)
      @ pending (bufs w) (map_option fst (offered w)) @ unread w = content"
    "written w = map (blob_frame tag) ps
     \<or> (\<exists>v. written w = map (blob_frame tag) ps @ [v] \<and> ended_by tag w v)"
    by (auto simp: output_ok_def)
  from ps(1) have "prefix (concat ps) content" by (auto simp: prefix_def)
  with ps show ?thesis by (intro exI [of _ ps]) (auto simp: ended_by_def)
qed

text \<open>No chunk is longer than a buffer.\<close>

definition chunk_frame :: "string \<Rightarrow> wvalue \<Rightarrow> bool" where
  "chunk_frame tag v \<longleftrightarrow> (\<forall>p. v = blob_frame tag p \<longrightarrow> length p \<le> buf_size)"

lemma chunks_small:
  "(read_step tag)\<^sup>*\<^sup>* (handleReadStream content) w \<Longrightarrow> \<forall>v \<in> set (written w). chunk_frame tag v"
proof (induction rule: rtranclp_induct)
  case base
  then show ?case by (simp add: handleReadStream_def)
next
  case (step u v)
  from step(2) show ?case
  proof cases
    case (written_out x)
    have "chunk_frame tag (deref tag (bufs u) x)"
    proof (cases x)
      case (Slice i n)
      have "i < 2" using read_steps_ok [OF step(1)] written_out Slice
        by (auto simp: buffers_ok_def next_buf_def split: if_splits)
      moreover have "buffers_ok u" using read_steps_ok [OF step(1)] by simp
      ultimately show ?thesis
        using Slice by (auto simp: chunk_frame_def buffers_ok_def NewTaggedValue_def NewBlob_def)
    next
      case (Plain y)
      have "\<And>p. y \<noteq> NewBlob p"
        using read_steps_ok [OF step(1)] written_out Plain
        by (auto simp: output_ok_def last_offer_def read_error_def NewBlob_def NewError_def)
      then show ?thesis using Plain by (simp add: chunk_frame_def NewTaggedValue_def)
    qed
    then show ?thesis using step.IH written_out by simp
  qed (use step.IH in simp_all)
qed

text \<open>
  C18. What a client receives of a file is the file: at every moment the frames of a read stream
  are chunks that make up a beginning of the file, byte for byte, although the worker fills
  its buffers while the writer still reads from them; then, if the stream has ended, the end
  frame after all of the file, or the error frame.
\<close>

theorem download_is_the_file:
  assumes "(read_step tag)\<^sup>*\<^sup>* (handleReadStream content) w"
  shows "\<exists>ps. prefix (concat ps) content
    \<and> (written w = map (blob_frame tag) ps
       \<or> written w = map (blob_frame tag) ps @ [end_frame tag] \<and> concat ps = content
       \<or> written w = map (blob_frame tag) ps @ [NewTaggedValue read_error tag])"
  by (rule read_frames [OF assms])

text \<open>The run that delivers a file chunk by chunk, each written out before the next is read.\<close>

definition idle :: "read_worker \<Rightarrow> bool" where
  "idle w \<longleftrightarrow> \<not> returned w \<and> offered w = None \<and> in_writer w = None \<and> length (bufs w) = 2 \<and> cur w < 2"

lemma deliver_chunk:
  assumes "idle w" and "unread w = data @ rest" and "data \<noteq> []" and "length data \<le> buf_size"
  obtains w' where "(read_step tag)\<^sup>*\<^sup>* w w'" and "idle w'" and "unread w' = rest"
    and "written w' = written w @ [blob_frame tag data]"
proof -
  let ?b = "(bufs w)[next_buf w := fill data (bufs w ! next_buf w)]"
  let ?w1 = "w\<lparr>unread := rest, cur := next_buf w, bufs := ?b,
      offered := Some (Slice (next_buf w) (length data), False)\<rparr>"
  let ?w2 = "?w1\<lparr>offered := None, in_writer := Some (Slice (next_buf w) (length data)), returned := False\<rparr>"
  let ?w3 = "?w2\<lparr>in_writer := None,
      written := written w @ [deref tag ?b (Slice (next_buf w) (length data))]\<rparr>"
  have "read_step tag w ?w1" using assms by (intro read_step.chunk) (auto simp: idle_def)
  moreover have "read_step tag ?w1 ?w2"
    by (rule read_step.received) (use assms(1) in \<open>simp_all add: idle_def\<close>)
  moreover have "read_step tag ?w2 ?w3"
    using read_step.written_out [of ?w2 "Slice (next_buf w) (length data)" tag] by simp
  ultimately have "(read_step tag)\<^sup>*\<^sup>* w ?w3" by (meson converse_rtranclp_into_rtranclp rtranclp.rtrancl_refl)
  moreover have "next_buf w < length (bufs w)" "next_buf w < 2" using assms(1) by (auto simp: idle_def)
  ultimately show thesis
    using assms(1) by (intro that [of ?w3]) (simp_all add: idle_def)
qed

lemma deliver_end:
  assumes "idle w" and "unread w = []"
  shows "\<exists>w'. (read_step tag)\<^sup>*\<^sup>* w w' \<and> written w' = written w @ [end_frame tag]"
proof -
  let ?w1 = "w\<lparr>cur := next_buf w, offered := Some (Plain Null, True)\<rparr>"
  let ?w2 = "?w1\<lparr>offered := None, in_writer := Some (Plain Null), returned := True\<rparr>"
  let ?w3 = "?w2\<lparr>in_writer := None, written := written w @ [deref tag (bufs w) (Plain Null)]\<rparr>"
  have "read_step tag w ?w1" using assms by (intro read_step.end_of_file) (auto simp: idle_def)
  moreover have "read_step tag ?w1 ?w2"
    by (rule read_step.received) (use assms(1) in \<open>simp_all add: idle_def\<close>)
  moreover have "read_step tag ?w2 ?w3"
    using read_step.written_out [of ?w2 "Plain Null" tag] by simp
  ultimately have "(read_step tag)\<^sup>*\<^sup>* w ?w3" by (meson converse_rtranclp_into_rtranclp rtranclp.rtrancl_refl)
  then show ?thesis by (intro exI [of _ ?w3]) simp
qed

lemma deliver_all:
  assumes "idle w"
  shows "\<exists>w' ps. (read_step tag)\<^sup>*\<^sup>* w w' \<and> concat ps = unread w
    \<and> written w' = written w @ map (blob_frame tag) ps @ [end_frame tag]"
  using assms
proof (induction "length (unread w)" arbitrary: w rule: less_induct)
  case less
  show ?case
  proof (cases "unread w = []")
    case True
    with deliver_end [OF less.prems, of tag] obtain w' where "(read_step tag)\<^sup>*\<^sup>* w w'"
      "written w' = written w @ [end_frame tag]" by blast
    with True show ?thesis by (intro exI [of _ w'] exI [of _ "[]"]) simp
  next
    case False
    let ?d = "take buf_size (unread w)"
    have d: "?d \<noteq> []" "length ?d \<le> buf_size" "unread w = ?d @ drop buf_size (unread w)"
      using False by (simp_all add: buf_size_def)
    from deliver_chunk [OF less.prems d(3,1,2), of tag] obtain w1 where w1: "(read_step tag)\<^sup>*\<^sup>* w w1"
      "idle w1" "unread w1 = drop buf_size (unread w)" "written w1 = written w @ [blob_frame tag ?d]"
      by blast
    have "length (unread w1) < length (unread w)" using False by (simp add: w1(3) buf_size_def)
    from less.hyps [OF this w1(2)] obtain w' ps where "(read_step tag)\<^sup>*\<^sup>* w1 w'" "concat ps = unread w1"
      "written w' = written w1 @ map (blob_frame tag) ps @ [end_frame tag]" by blast
    with w1 show ?thesis
      by (intro exI [of _ w'] exI [of _ "?d # ps"]) (auto intro: rtranclp_trans)
  qed
qed

lemma idle_start: "idle (handleReadStream content)"
  by (simp add: idle_def handleReadStream_def)

theorem download_is_the_file_witness:
  "\<exists>w ps. (read_step ''0'')\<^sup>*\<^sup>* (handleReadStream ''some bytes'') w \<and> prefix (concat ps) ''some bytes''"
proof -
  obtain w where "(read_step ''0'')\<^sup>*\<^sup>* (handleReadStream ''some bytes'') w"
    using deliver_all [OF idle_start] by blast
  with download_is_the_file [OF this] show ?thesis by blast
qed

text \<open>
  A download can always finish: from the start of a read stream on any file there is a run
  that delivers all of it, in chunks of at most 32 kilobytes, and then the end frame.
\<close>

theorem download_can_finish:
  "\<exists>w ps. (read_step tag)\<^sup>*\<^sup>* (handleReadStream content) w \<and> concat ps = content
    \<and> written w = map (blob_frame tag) ps @ [end_frame tag]"
  using deliver_all [OF idle_start, of tag content] by (simp add: handleReadStream_def)

section \<open>Files that are replaced in one step\<close>

locale atomic_target =
  fixes step :: "'s \<Rightarrow> 's \<Rightarrow> bool"
    and ok :: "'s \<Rightarrow> bool"
    and dest :: "'s \<Rightarrow> bytes option"
    and whole :: "'s \<Rightarrow> bytes \<Rightarrow> bool"
  assumes keeps: "step s t \<Longrightarrow> ok s \<Longrightarrow> ok t"
    and changes: "step s t \<Longrightarrow> ok s \<Longrightarrow> dest t = dest s \<or> (\<exists>d. dest t = Some d \<and> whole t d)"
    and stable: "step s t \<Longrightarrow> ok s \<Longrightarrow> whole s d \<Longrightarrow> whole t d"
begin

text \<open>Whatever happens, the destination holds what it held or the whole new content.\<close>

lemma old_or_whole:
  "step\<^sup>*\<^sup>* s t \<Longrightarrow> ok s \<Longrightarrow> ok t \<and> (dest t = dest s \<or> (\<exists>d. dest t = Some d \<and> whole t d))"
proof (induction rule: rtranclp_induct)
  case (step t u)
  then have "ok t" by blast
  with step keeps changes stable show ?case by metis
qed simp

end

section \<open>Uploads\<close>

text \<open>The data of a sequence of frames.\<close>

definition data_frames :: "bytes list \<Rightarrow> frame list" where
  "data_frames ps = map DataFrame ps"

text \<open>
  \<open>uploaded\<close>: the frames fed so far begin with a finished upload of exactly these bytes.
  \<open>write_ok\<close>: the temporary file holds what the frames already taken out of the channel carry.
\<close>

definition uploaded :: "write_worker \<Rightarrow> bytes \<Rightarrow> bool" where
  "uploaded w d \<longleftrightarrow> (\<exists>ps rest. fed w = data_frames ps @ FinishFrame # rest \<and> d = concat ps)"

definition write_ok :: "write_worker \<Rightarrow> bool" where
  "write_ok w \<longleftrightarrow> (running w \<longrightarrow>
     (\<exists>ps. fed w = data_frames ps @ queue w \<and> tmp w = Some (concat ps)))"

lemma write_keeps: "write_step tag w w' \<Longrightarrow> write_ok w \<Longrightarrow> write_ok w'"
proof (induction rule: write_step.induct)
  case (handleChunk w p q t)
  then obtain ps where "fed w = data_frames ps @ DataFrame p # q" "t = concat ps"
    by (auto simp: write_ok_def)
  then have "fed w = data_frames (ps @ [p]) @ q \<and> t @ p = concat (ps @ [p])"
    by (simp add: data_frames_def)
  then show ?case unfolding write_ok_def by (intro impI exI [of _ "ps @ [p]"]) simp
qed (auto simp: write_ok_def running_def fail_with_def cancelWriteStream_def)

lemma write_changes:
  "write_step tag w w' \<Longrightarrow> write_ok w \<Longrightarrow> final w' = final w \<or> (\<exists>d. final w' = Some d \<and> uploaded w' d)"
proof (induction rule: write_step.induct)
  case (finishWriteStream w q)
  then show ?case by (auto simp: write_ok_def uploaded_def)
qed (simp_all add: fail_with_def cancelWriteStream_def)

lemma write_stable: "write_step tag w w' \<Longrightarrow> uploaded w d \<Longrightarrow> uploaded w' d"
proof (induction rule: write_step.induct)
  case (feed w f)
  then obtain ps rest where "fed w @ [f] = data_frames ps @ FinishFrame # (rest @ [f])" "d = concat ps"
    by (auto simp: uploaded_def)
  then show ?case unfolding uploaded_def by (intro exI [of _ ps] exI [of _ "rest @ [f]"]) simp
qed (auto simp: uploaded_def fail_with_def cancelWriteStream_def)

interpretation upload_target: atomic_target "write_step tag" write_ok final uploaded for tag
  by unfold_locales (blast intro: write_keeps dest: write_changes write_stable)+

lemma write_start: "write_ok (handleWriteStream old)"
  by (simp add: write_ok_def handleWriteStream_def data_frames_def)

lemma write_final_once:
  "(write_step tag)\<^sup>*\<^sup>* w w' \<Longrightarrow> \<not> running w' \<or> (running w \<and> final w' = final w)"
proof (induction rule: rtranclp_induct)
  case base
  then show ?case by simp
next
  case (step u v)
  from step(2,3) show ?case
    by cases (auto simp: running_def fail_with_def cancelWriteStream_def)
qed

text \<open>
  C19. An upload replaces the file completely or not at all: whatever the client sends, and
  whether the stream is cancelled, times out or fails, the file at the final path is what it
  was, or it is exactly the data of the frames that the client sent before its finish frame;
  and it does not change while the worker runs.
\<close>

theorem upload_is_atomic:
  assumes "(write_step tag)\<^sup>*\<^sup>* (handleWriteStream old) w"
  shows "(final w = old \<or> (\<exists>ps rest. fed w = map DataFrame ps @ FinishFrame # rest
            \<and> final w = Some (concat ps)))
    \<and> (running w \<longrightarrow> final w = old)"
proof
  have "final (handleWriteStream old) = old" by (simp add: handleWriteStream_def)
  with upload_target.old_or_whole [OF assms write_start] show "final w = old
      \<or> (\<exists>ps rest. fed w = map DataFrame ps @ FinishFrame # rest \<and> final w = Some (concat ps))"
    by (auto simp: uploaded_def data_frames_def)
  show "running w \<longrightarrow> final w = old"
    using write_final_once [OF assms] by (auto simp: handleWriteStream_def)
qed

text \<open>The run of an upload in which every frame is written as soon as it is fed.\<close>

definition fresh :: "write_worker \<Rightarrow> bool" where
  "fresh w \<longleftrightarrow> running w \<and> queue w = []"

lemma upload_chunk:
  assumes "fresh w" and "tmp w = Some t"
  obtains w' where "(write_step tag)\<^sup>*\<^sup>* w w'" and "fresh w'" and "tmp w' = Some (t @ p)"
    and "fed w' = fed w @ [DataFrame p]" and "final w' = final w"
proof -
  let ?w1 = "w\<lparr>queue := [DataFrame p], fed := fed w @ [DataFrame p]\<rparr>"
  have "write_step tag w ?w1"
    using write_step.feed [of w tag "DataFrame p"] assms by (simp add: fresh_def frame_slots_def)
  moreover have "write_step tag ?w1 (?w1\<lparr>queue := [], tmp := Some (t @ p)\<rparr>)"
    by (rule write_step.handleChunk) (use assms in \<open>simp_all add: fresh_def running_def\<close>)
  ultimately have "(write_step tag)\<^sup>*\<^sup>* w (?w1\<lparr>queue := [], tmp := Some (t @ p)\<rparr>)"
    by (meson converse_rtranclp_into_rtranclp rtranclp.rtrancl_refl)
  then show thesis
    using assms by (intro that [of "?w1\<lparr>queue := [], tmp := Some (t @ p)\<rparr>"]) (simp_all add: fresh_def running_def)
qed

lemma upload_chunks:
  assumes "fresh w" and "tmp w = Some t"
  shows "\<exists>w'. (write_step tag)\<^sup>*\<^sup>* w w' \<and> fresh w' \<and> tmp w' = Some (t @ concat ps)
    \<and> fed w' = fed w @ map DataFrame ps \<and> final w' = final w"
  using assms
proof (induction ps arbitrary: w t)
  case Nil
  then show ?case by (intro exI [of _ w]) simp
next
  case (Cons p ps)
  from upload_chunk [OF Cons.prems, of tag p] obtain w1 where w1: "(write_step tag)\<^sup>*\<^sup>* w w1" "fresh w1"
    "tmp w1 = Some (t @ p)" "fed w1 = fed w @ [DataFrame p]" "final w1 = final w" by blast
  from Cons.IH [OF w1(2,3)] obtain w2 where "(write_step tag)\<^sup>*\<^sup>* w1 w2 \<and> fresh w2
      \<and> tmp w2 = Some ((t @ p) @ concat ps) \<and> fed w2 = fed w1 @ map DataFrame ps \<and> final w2 = final w1"
    by blast
  with w1 show ?case by (intro exI [of _ w2]) (auto intro: rtranclp_trans)
qed

text \<open>The state in which everything has been fed and the finish frame is still in the channel.\<close>

lemma upload_fed:
  "\<exists>w. (write_step tag)\<^sup>*\<^sup>* (handleWriteStream old) w \<and> running w \<and> queue w = [FinishFrame]
    \<and> tmp w = Some (concat ps) \<and> fed w = map DataFrame ps @ [FinishFrame] \<and> final w = old"
proof -
  have "fresh (handleWriteStream old)" "tmp (handleWriteStream old) = Some []"
    by (simp_all add: fresh_def running_def handleWriteStream_def)
  from upload_chunks [OF this, of tag ps] obtain w where w: "(write_step tag)\<^sup>*\<^sup>* (handleWriteStream old) w"
    "fresh w" "tmp w = Some (concat ps)" "fed w = map DataFrame ps" "final w = old"
    by (auto simp: handleWriteStream_def)
  let ?w1 = "w\<lparr>queue := queue w @ [FinishFrame], fed := fed w @ [FinishFrame]\<rparr>"
  have "write_step tag w ?w1"
    using w(2) by (intro write_step.feed) (simp add: fresh_def frame_slots_def)
  with w show ?thesis
    by (intro exI [of _ ?w1]) (auto simp: fresh_def running_def intro: rtranclp.rtrancl_into_rtrancl)
qed

text \<open>
  An upload can be lost without a word: whatever the client uploads, there is a run in which
  all of its frames, the finish frame included, were accepted, and yet the worker ends with the
  old file in place and the upload discarded, having offered no frame at all; success offers
  none either, so that the client cannot tell the two apart. (The session's end is enough: the
  worker looks for it before it looks at its frames.)
\<close>

theorem upload_may_be_lost:
  "(\<exists>w. (write_step tag)\<^sup>*\<^sup>* (handleWriteStream old) w \<and> wreturned w
      \<and> fed w = map DataFrame ps @ [FinishFrame] \<and> final w = old \<and> tmp w = None \<and> woffered w = None)
   \<and> (\<exists>w. (write_step tag)\<^sup>*\<^sup>* (handleWriteStream old) w \<and> wreturned w
      \<and> fed w = map DataFrame ps @ [FinishFrame] \<and> final w = Some (concat ps) \<and> tmp w = None
      \<and> woffered w = None)"
proof -
  from upload_fed [of tag old ps] obtain w where w: "(write_step tag)\<^sup>*\<^sup>* (handleWriteStream old) w"
    "running w" "queue w = [FinishFrame]" "tmp w = Some (concat ps)"
    "fed w = map DataFrame ps @ [FinishFrame]" "final w = old" by blast
  from w(1) write_step.cancelled [OF w(2), of tag]
  have lost: "(write_step tag)\<^sup>*\<^sup>* (handleWriteStream old) ((cancelWriteStream w)\<lparr>wreturned := True\<rparr>)"
    by simp
  from w(1) write_step.finishWriteStream [OF w(2,3), of tag]
  have kept: "(write_step tag)\<^sup>*\<^sup>* (handleWriteStream old)
      (w\<lparr>queue := [], final := tmp w, tmp := None, wreturned := True\<rparr>)"
    by simp
  from lost kept w show ?thesis
    by (intro conjI exI [of _ "(cancelWriteStream w)\<lparr>wreturned := True\<rparr>"]
        exI [of _ "w\<lparr>queue := [], final := tmp w, tmp := None, wreturned := True\<rparr>"])
      (simp_all add: cancelWriteStream_def running_def)
qed

theorem upload_is_atomic_witness:
  "\<exists>w. (write_step ''3'')\<^sup>*\<^sup>* (handleWriteStream (Some ''old'')) w
    \<and> (final w = Some ''old'' \<or> (\<exists>ps rest. fed w = map DataFrame ps @ FinishFrame # rest
          \<and> final w = Some (concat ps)))"
proof -
  obtain w where w: "(write_step ''3'')\<^sup>*\<^sup>* (handleWriteStream (Some ''old'')) w"
    using upload_fed [of "''3''" "Some ''old''" "[''new'']"] by blast
  from upload_is_atomic [OF w] w show ?thesis by blast
qed

text \<open>
  A worker that has ended leaves its channel as full as it is: a reader that waits to put a
  frame into a full one waits for ever.
\<close>

lemma ended_worker_takes_nothing:
  "(write_step tag)\<^sup>*\<^sup>* w w' \<Longrightarrow> wreturned w \<Longrightarrow> length (queue w) = frame_slots \<Longrightarrow>
   wreturned w' \<and> queue w' = queue w"
proof (induction rule: rtranclp_induct)
  case (step u v)
  then have "wreturned u" "queue u = queue w" "length (queue u) = frame_slots" by auto
  with step(2) show ?case by cases (auto simp: running_def)
qed simp

section \<open>Copies\<close>

definition copied :: "bytes \<Rightarrow> copy_worker \<Rightarrow> bytes \<Rightarrow> bool" where
  "copied content w d \<longleftrightarrow> d = content"

definition copy_ok :: "bytes \<Rightarrow> copy_worker \<Rightarrow> bool" where
  "copy_ok content w \<longleftrightarrow>
     (busy w \<longrightarrow> (case source w of None \<Rightarrow> True
        | Some s \<Rightarrow> \<exists>t. ctmp w = Some t \<and> t @ s = content))"

lemma copy_keeps: "copy_step tag content w w' \<Longrightarrow> copy_ok content w \<Longrightarrow> copy_ok content w'"
  by (induction rule: copy_step.induct)
    (auto simp: copy_ok_def busy_def cancelCopyStream_def copy_error_def split: option.splits)

lemma copy_changes:
  "copy_step tag content w w' \<Longrightarrow> copy_ok content w \<Longrightarrow>
   target w' = target w \<or> (\<exists>d. target w' = Some d \<and> copied content w' d)"
  by (induction rule: copy_step.induct) (auto simp: copy_ok_def cancelCopyStream_def copied_def)

interpretation copy_target: atomic_target "copy_step tag content" "copy_ok content" target "copied content"
  for tag content
  by unfold_locales (blast intro: copy_keeps, blast dest: copy_changes, simp add: copied_def)

lemma copy_start: "copy_ok content (handleCopyStream old)"
  by (simp add: copy_ok_def handleCopyStream_def)

definition announced :: "string \<Rightarrow> copy_worker \<Rightarrow> bool" where
  "announced tag w \<longleftrightarrow> coffered w = Some (end_frame tag)"

lemma announced_step:
  "copy_step tag content w w' \<Longrightarrow> copy_ok content w \<Longrightarrow> announced tag w' \<Longrightarrow> target w' = Some content"
  by (induction rule: copy_step.induct)
    (auto simp: announced_def copy_ok_def busy_def cancelCopyStream_def copy_error_def NewError_def
      NewTaggedValue_def split: option.splits)

text \<open>
  C20. A copy, made chunk by chunk beside its destination, is the whole file or nothing: whatever
  happens, the destination is what it was or exactly the source; and when the worker announces
  the end of the stream, it is the source.
\<close>

theorem copy_is_atomic:
  assumes "(copy_step tag content)\<^sup>*\<^sup>* (handleCopyStream old) w"
  shows "(target w = old \<or> target w = Some content)
    \<and> (coffered w = Some (end_frame tag) \<longrightarrow> target w = Some content)"
proof
  have "target (handleCopyStream old) = old" by (simp add: handleCopyStream_def)
  with copy_target.old_or_whole [OF assms copy_start]
  show "target w = old \<or> target w = Some content" by (auto simp: copied_def)
  have "copy_ok content w \<and> (announced tag w \<longrightarrow> target w = Some content)"
    using assms
  proof (induction rule: rtranclp_induct)
    case base
    then show ?case using copy_start by (simp add: announced_def handleCopyStream_def)
  next
    case (step u v)
    then show ?case using copy_keeps announced_step by blast
  qed
  then show "coffered w = Some (end_frame tag) \<longrightarrow> target w = Some content"
    by (simp add: announced_def)
qed

theorem copy_is_atomic_witness:
  "\<exists>w :: copy_worker. coffered w = Some (end_frame ''1'') \<and> target w = Some ''data''"
proof -
  let ?w0 = "handleCopyStream (Some ''old'')"
  let ?w1 = "?w0\<lparr>source := Some ''data'', ctmp := Some []\<rparr>"
  let ?w2 = "?w1\<lparr>source := Some [], target := Some ([] @ ''data''), ctmp := None,
      coffered := Some (end_frame ''1'')\<rparr>"
  have "copy_step ''1'' ''data'' ?w0 ?w1"
    by (rule copy_step.start) (simp_all add: busy_def handleCopyStream_def)
  moreover have "copy_step ''1'' ''data'' ?w1 ?w2"
    by (rule copy_step.last_chunk) (simp_all add: busy_def handleCopyStream_def buf_size_def)
  ultimately have "(copy_step ''1'' ''data'')\<^sup>*\<^sup>* ?w0 ?w2"
    by (meson converse_rtranclp_into_rtranclp rtranclp.rtrancl_refl)
  from copy_is_atomic [OF this] show ?thesis by (intro exI [of _ ?w2]) simp
qed

end
