(* ===== verification/Session_Loop.thy ===== *)
theory Session_Loop
  imports Session_Streams Wire_Codec
begin

text \<open>
  A connection: the reader, the worker and the writer of \<^verbatim>\<open>src/internal/session\<close>
  (\<^verbatim>\<open>reader.go\<close>, \<^verbatim>\<open>worker.go\<close>, \<^verbatim>\<open>writer.go\<close> and
  \<open>Handle\<close> of \<^verbatim>\<open>session.go\<close>) and the bounded channels between them, as one step
  relation for each of them, and their interleaving.
\<close>

section \<open>What the reader makes of a value\<close>

text \<open>
  What travels on the channel \<open>commands\<close>: a command, or a response that only passes through
  (in the source an array whose first element is the pointer \<open>outMarker\<close>, which no array that
  was read can hold).
\<close>

datatype queued = Pass wvalue | Cmd "wvalue list"

datatype reading = Enqueue queued | Frame_for nat os_file frame

definition protocolError :: "string list \<Rightarrow> reading" where
  "protocolError parts = Enqueue (Pass (NewError ''PROTO'' (concat (''Protocol error: '' # parts))))"

definition streamError :: "string \<Rightarrow> string \<Rightarrow> string \<Rightarrow> reading" where
  "streamError code msg tag = Enqueue (Pass (NewTaggedValue (NewError code msg) tag))"

definition handleCommand :: "wvalue list \<Rightarrow> reading" where
  "handleCommand vs =
     (case vs of
        [] \<Rightarrow> protocolError [''unexpected empty array'']
      | String _ # _ \<Rightarrow> Enqueue (Cmd vs)
      | v # _ \<Rightarrow> protocolError [''command name should be a string, was '', Name v])"

text \<open>The frame that a payload stands for; neither a blob nor null is no frame.\<close>

definition payload_frame :: "wvalue \<Rightarrow> frame option" where
  "payload_frame v = (case v of Blob d \<Rightarrow> Some (DataFrame d) | Null \<Rightarrow> Some FinishFrame | _ \<Rightarrow> None)"

definition handleStreamFrame :: "session \<Rightarrow> string \<Rightarrow> wvalue \<Rightarrow> reading" where
  "handleStreamFrame s tag v =
     (case payload_frame v of
        None \<Rightarrow> protocolError [''invalid stream frame, unexpected '', Name v]
      | Some f \<Rightarrow>
          (case Atoi tag of
             None \<Rightarrow> protocolError [''Protocol error: invalid stream ID: '', tag]
           | Some i \<Rightarrow>
               (case getStream i s of
                  None \<Rightarrow> streamError ''ARG'' ''Stream is closed'' tag
                | Some (WriteStream _ _ _ file) \<Rightarrow> Frame_for (nat i) file f
                | Some _ \<Rightarrow> streamError ''ARG'' ''Stream is not open for writing'' tag)))"

definition on_value :: "session \<Rightarrow> wvalue \<Rightarrow> reading" where
  "on_value s v =
     (case v of
        TaggedValue tag p \<Rightarrow> handleStreamFrame s tag p
      | Array vs \<Rightarrow> handleCommand vs
      | _ \<Rightarrow> protocolError [''unexpected '', Name v])"

definition commandIsQuit :: "wvalue list \<Rightarrow> bool" where
  "commandIsQuit vs = (case vs of String n # _ \<Rightarrow> ToUpper n = ''QUIT'' | _ \<Rightarrow> False)"

section \<open>The goroutines and their channels\<close>

text \<open>
  Where each goroutine stands. In the states \<open>Reader_tells\<close>, \<open>Worker_tells\<close> and \<open>Writer_tells\<close> it is
  sending a token to \<open>terminate\<close>, which may have no room; the worker does so inside the callback,
  whose response it holds. The writer writes a response it has taken from \<open>cmdOut\<close>, or a frame
  that a worker of a stream lets it read from its buffer. It ends when \<open>cmdOut\<close> has been drained,
  when a write fails (of the response that is kept here), or because \<open>done\<close> is closed.
\<close>

datatype reader_pc = Reading | Queueing queued | Feeding nat os_file frame | Reader_tells | Reader_gone

datatype worker_pc = Waiting | Worker_tells wvalue | Replying wvalue | Quitting | Worker_gone

datatype ending = Drained | Write_failed "wvalue option" | Stopped

datatype writer_pc =
    Writer_waits
  | Writing_reply wvalue
  | Writing_frame
  | Writer_tells ending
  | Writer_gone ending

text \<open>What the writer has written, by the channel it came from.\<close>

datatype sent = From_cmd wvalue | From_stream wvalue

text \<open>
  \<open>input\<close> is all the client sends from now on until the connection breaks; \<open>sess\<close> holds
  the table of streams and the number of tokens for \<open>terminate\<close>; \<open>stop\<close> says that \<open>done\<close> is closed;
  \<open>host\<close> is what the callback works on. \<open>got\<close> and \<open>handled\<close> record what went into and came
  out of \<open>commands\<close>. \<open>stream_workers\<close> counts the goroutines of streams in the wait group.
\<close>

record 'h conn =
  input :: bytes
  reader :: reader_pc
  commands :: "queued list"
  worker :: worker_pc
  cmdOut :: "wvalue list"
  cmdOut_closed :: bool
  writer :: writer_pc
  wire_out :: "sent list"
  stop :: bool
  ended :: bool
  sess :: session
  host :: 'h
  got :: "queued list"
  handled :: "queued list"
  stream_workers :: nat

definition Handle :: "bytes \<Rightarrow> session \<Rightarrow> 'h \<Rightarrow> 'h conn" where
  "Handle bs s h =
     \<lparr>input = bs, reader = Reading, commands = [], worker = Waiting, cmdOut = [],
      cmdOut_closed = False, writer = Writer_waits, wire_out = [], stop = False, ended = False,
      sess = s, host = h, got = [], handled = [], stream_workers = 0\<rparr>"

definition writer_gone :: "'h conn \<Rightarrow> bool" where
  "writer_gone c \<longleftrightarrow> (\<exists>x. writer c = Writer_gone x)"

definition chan_slots :: nat where "chan_slots = 5"

text \<open>
  The channel \<open>terminate\<close> has three slots, and \<open>Handle\<close> takes one token from it, just before it
  closes \<open>done\<close>. A token counts in \<open>terminated\<close> from the moment its sending begins; those of
  the goroutines that are still sending are not in the channel yet.
\<close>

definition term_slots :: nat where "term_slots = 3"

definition tokens_waiting :: "'h conn \<Rightarrow> nat" where
  "tokens_waiting c = (if reader c = Reader_tells then 1 else 0)
     + (case worker c of Worker_tells v \<Rightarrow> 1 | _ \<Rightarrow> 0) + (case writer c of Writer_tells x \<Rightarrow> 1 | _ \<Rightarrow> 0)"

definition tokens_sent :: "'h conn \<Rightarrow> nat" where
  "tokens_sent c = terminated (sess c) - tokens_waiting c"

definition token_fits :: "'h conn \<Rightarrow> bool" where
  "token_fits c \<longleftrightarrow> tokens_sent c < term_slots + (if stop c then 1 else 0)"

definition conn_reader :: reader where
  "conn_reader = (NewReader ''EOF'')\<lparr>MaxBlobSize := 32 * 1024\<rparr>"

definition to_reader :: "reading \<Rightarrow> reader_pc" where
  "to_reader x = (case x of Enqueue q \<Rightarrow> Queueing q | Frame_for i file f \<Rightarrow> Feeding i file f)"

text \<open>The callback: the response and what it leaves behind, or nothing where the process ends.\<close>

type_synonym 'h callback = "wvalue list \<Rightarrow> session \<Rightarrow> 'h \<Rightarrow> (wvalue \<times> session \<times> 'h) option"

definition put_frame :: "nat \<Rightarrow> frame \<Rightarrow> session \<Rightarrow> session" where
  "put_frame i f s =
     (case streams s ! i of
        Some (WriteStream n fs p file) \<Rightarrow>
          s\<lparr>streams := (streams s)[i := Some (WriteStream n (fs @ [f]) p file)]\<rparr>
      | _ \<Rightarrow> s)"

text \<open>The stream in slot \<open>i\<close> is the one whose temporary file is \<open>file\<close>.\<close>

definition holds :: "session \<Rightarrow> nat \<Rightarrow> os_file \<Rightarrow> frame list \<Rightarrow> bool" where
  "holds s i file fs \<longleftrightarrow>
     i < length (streams s) \<and> (\<exists>n p. streams s ! i = Some (WriteStream n fs p file))"

text \<open>
  The loop of the reader. It looks at \<open>done\<close> between two values and is blocked while it waits
  for room in a channel. The channel of a stream that has been released is no longer part of the
  state; it may have room or not, and if it has none, the reader waits for ever.
\<close>

inductive reader_step :: "'h conn \<Rightarrow> 'h conn \<Rightarrow> bool" where
  read_value: "reader c = Reading \<Longrightarrow> Read conn_reader (input c) = (Inr v, rest) \<Longrightarrow>
    reader_step c (c\<lparr>input := rest, reader := to_reader (on_value (sess c) v)\<rparr>)"
| read_format: "reader c = Reading \<Longrightarrow> Read conn_reader (input c) = (Inl (ErrFormat m), rest) \<Longrightarrow>
    reader_step c (c\<lparr>input := rest, reader := Queueing (Pass (NewError ''PROTO'' m))\<rparr>)"
| read_io: "reader c = Reading \<Longrightarrow> Read conn_reader (input c) = (Inl (ErrIO m), rest) \<Longrightarrow>
    reader_step c (c\<lparr>input := rest, reader := Reader_tells, sess := Terminate (sess c)\<rparr>)"
| reader_told: "reader c = Reader_tells \<Longrightarrow> token_fits c \<Longrightarrow> reader_step c (c\<lparr>reader := Reader_gone\<rparr>)"
| reader_stops: "reader c = Reading \<Longrightarrow> stop c \<Longrightarrow> reader_step c (c\<lparr>reader := Reader_gone\<rparr>)"
| enqueue: "reader c = Queueing q \<Longrightarrow> length (commands c) < chan_slots \<Longrightarrow>
    reader_step c (c\<lparr>reader := Reading, commands := commands c @ [q], got := got c @ [q]\<rparr>)"
| feed: "reader c = Feeding i file f \<Longrightarrow> holds (sess c) i file fs \<Longrightarrow> length fs < chan_slots \<Longrightarrow>
    reader_step c (c\<lparr>reader := Reading, sess := put_frame i f (sess c)\<rparr>)"
| feed_orphan: "reader c = Feeding i file f \<Longrightarrow> \<nexists>fs. holds (sess c) i file fs \<Longrightarrow>
    reader_step c (c\<lparr>reader := Reading\<rparr>)"

text \<open>
  The loop of the worker: a value that passes through, QUIT, or a command for the callback, which
  may send a token. A command at which the process ends has no step.
\<close>

inductive worker_step :: "'h callback \<Rightarrow> 'h conn \<Rightarrow> 'h conn \<Rightarrow> bool" for cb where
  pass: "worker c = Waiting \<Longrightarrow> commands c = Pass v # qs \<Longrightarrow>
    worker_step cb c (c\<lparr>worker := Replying v, commands := qs, handled := handled c @ [Pass v]\<rparr>)"
| quit: "worker c = Waiting \<Longrightarrow> commands c = Cmd vs # qs \<Longrightarrow> commandIsQuit vs \<Longrightarrow>
    worker_step cb c (c\<lparr>worker := Quitting, commands := qs, handled := handled c @ [Cmd vs]\<rparr>)"
| call: "worker c = Waiting \<Longrightarrow> commands c = Cmd vs # qs \<Longrightarrow> \<not> commandIsQuit vs \<Longrightarrow>
    cb vs (sess c) (host c) = Some (v, s, h) \<Longrightarrow>
    worker_step cb c
      (c\<lparr>worker := (if terminated (sess c) < terminated s then Worker_tells v else Replying v),
         commands := qs, sess := s, host := h, handled := handled c @ [Cmd vs]\<rparr>)"
| worker_told: "worker c = Worker_tells v \<Longrightarrow> token_fits c \<Longrightarrow> worker_step cb c (c\<lparr>worker := Replying v\<rparr>)"
| worker_stops: "worker c = Waiting \<Longrightarrow> stop c \<Longrightarrow> worker_step cb c (c\<lparr>worker := Worker_gone\<rparr>)"
| reply: "worker c = Replying v \<Longrightarrow> length (cmdOut c) < chan_slots \<Longrightarrow>
    worker_step cb c (c\<lparr>worker := Waiting, cmdOut := cmdOut c @ [v]\<rparr>)"
| close_out: "worker c = Quitting \<Longrightarrow> length (cmdOut c) < chan_slots \<Longrightarrow>
    worker_step cb c (c\<lparr>worker := Worker_gone, cmdOut := cmdOut c @ [OK], cmdOut_closed := True\<rparr>)"

text \<open>
  The loop of the writer: it takes a response from \<open>cmdOut\<close> or a frame from \<open>dataOut\<close> and then
  writes it, during which the channel has room again. Responses come first in the source when
  both are ready; here either may. A write may fail after a part.
\<close>

inductive writer_step :: "'h conn \<Rightarrow> 'h conn \<Rightarrow> bool" where
  take_reply: "writer c = Writer_waits \<Longrightarrow> cmdOut c = v # vs \<Longrightarrow>
    writer_step c (c\<lparr>writer := Writing_reply v, cmdOut := vs\<rparr>)"
| take_frame: "writer c = Writer_waits \<Longrightarrow> writer_step c (c\<lparr>writer := Writing_frame\<rparr>)"
| reply_written: "writer c = Writing_reply v \<Longrightarrow>
    writer_step c (c\<lparr>writer := Writer_waits, wire_out := wire_out c @ [From_cmd v]\<rparr>)"
| frame_written: "writer c = Writing_frame \<Longrightarrow>
    writer_step c (c\<lparr>writer := Writer_waits,
      wire_out := wire_out c @ [From_stream (NewTaggedValue v (Itoa (int i)))]\<rparr>)"
| drained: "writer c = Writer_waits \<Longrightarrow> cmdOut_closed c \<Longrightarrow> cmdOut c = [] \<Longrightarrow>
    writer_step c (c\<lparr>writer := Writer_tells Drained, sess := Terminate (sess c)\<rparr>)"
| reply_fails: "writer c = Writing_reply v \<Longrightarrow>
    writer_step c (c\<lparr>writer := Writer_tells (Write_failed (Some v)), sess := Terminate (sess c)\<rparr>)"
| frame_fails: "writer c = Writing_frame \<Longrightarrow>
    writer_step c (c\<lparr>writer := Writer_tells (Write_failed None), sess := Terminate (sess c)\<rparr>)"
| writer_told: "writer c = Writer_tells x \<Longrightarrow> token_fits c \<Longrightarrow> writer_step c (c\<lparr>writer := Writer_gone x\<rparr>)"
| writer_stops: "writer c = Writer_waits \<Longrightarrow> stop c \<Longrightarrow> writer_step c (c\<lparr>writer := Writer_gone Stopped\<rparr>)"

text \<open>The rest of \<open>Handle\<close>: wait for a token, close \<open>done\<close>, wait for the goroutines, close.\<close>

inductive handle_step :: "'h conn \<Rightarrow> 'h conn \<Rightarrow> bool" where
  close_done: "0 < tokens_sent c \<Longrightarrow> \<not> stop c \<Longrightarrow> handle_step c (c\<lparr>stop := True\<rparr>)"
| close_conn: "stop c \<Longrightarrow> reader c = Reader_gone \<Longrightarrow> worker c = Worker_gone \<Longrightarrow> writer_gone c \<Longrightarrow>
    stream_workers c = 0 \<Longrightarrow> handle_step c (c\<lparr>ended := True\<rparr>)"

text \<open>
  The goroutines of one connection in any order; and, in \<open>conn_step\<close>, with them the rest of the
  world: it may change the streams, start and end their goroutines and change what the callback
  works on in every way, except that it takes no token back. What holds of all these steps holds
  whatever the streams and the other connections do. (Theory \<open>Server_Conn\<close> puts the goroutines of
  all connections together with the server, and leaves nothing to such a world.)
\<close>

inductive goroutine_step :: "'h callback \<Rightarrow> 'h conn \<Rightarrow> 'h conn \<Rightarrow> bool" for cb where
  reader_runs: "reader_step c c' \<Longrightarrow> goroutine_step cb c c'"
| worker_runs: "worker_step cb c c' \<Longrightarrow> goroutine_step cb c c'"
| writer_runs: "writer_step c c' \<Longrightarrow> goroutine_step cb c c'"
| handle_runs: "handle_step c c' \<Longrightarrow> goroutine_step cb c c'"

inductive conn_step :: "'h callback \<Rightarrow> 'h conn \<Rightarrow> 'h conn \<Rightarrow> bool" for cb where
  own: "goroutine_step cb c c' \<Longrightarrow> conn_step cb c c'"
| world: "terminated (sess c) \<le> terminated s \<Longrightarrow>
    conn_step cb c (c\<lparr>sess := s, host := h, stream_workers := n\<rparr>)"

lemma conn_reads: "reader_step c c' \<Longrightarrow> conn_step cb c c'"
  by (rule conn_step.own [OF goroutine_step.reader_runs])

lemma conn_works: "worker_step cb c c' \<Longrightarrow> conn_step cb c c'"
  by (rule conn_step.own [OF goroutine_step.worker_runs])

lemma conn_writes: "writer_step c c' \<Longrightarrow> conn_step cb c c'"
  by (rule conn_step.own [OF goroutine_step.writer_runs])

lemma conn_handles: "handle_step c c' \<Longrightarrow> conn_step cb c c'"
  by (rule conn_step.own [OF goroutine_step.handle_runs])

text \<open>A property of all steps follows from the four relations and the world.\<close>

lemma conn_step_induct [consumes 1, case_names reader worker writer handle world]:
  assumes "conn_step cb c c'"
    and "\<And>c c'. reader_step c c' \<Longrightarrow> P c c'"
    and "\<And>c c'. worker_step cb c c' \<Longrightarrow> P c c'"
    and "\<And>c c'. writer_step c c' \<Longrightarrow> P c c'"
    and "\<And>c c'. handle_step c c' \<Longrightarrow> P c c'"
    and "\<And>c s h n. terminated (sess c) \<le> terminated s \<Longrightarrow>
      P c (c\<lparr>sess := s, host := h, stream_workers := n\<rparr>)"
  shows "P c c'"
  using assms by (auto elim!: conn_step.cases goroutine_step.cases)

lemmas conn_step_elims = reader_step.cases worker_step.cases writer_step.cases handle_step.cases

end
