(* ===== verification/Session_Props.thy ===== *)
theory Session_Props
  imports Session_Loop Dispatch
begin

text \<open>
  The properties of a connection: one response per request, in order, with bounded read-ahead;
  an orderly end after QUIT; and two ways in which a connection never ends.
\<close>

section \<open>Requests and their responses\<close>

text \<open>A response that a queued item may get.\<close>

fun answer_to :: "'h callback \<Rightarrow> queued \<Rightarrow> wvalue \<Rightarrow> bool" where
  "answer_to cb (Pass w) v = (v = w)"
| "answer_to cb (Cmd vs) v =
     (if commandIsQuit vs then v = OK else \<exists>s h s' h'. cb vs s h = Some (v, s', h'))"

fun answers :: "sent list \<Rightarrow> wvalue list" where
  "answers [] = []"
| "answers (From_cmd v # xs) = v # answers xs"
| "answers (From_stream v # xs) = answers xs"

lemma answers_append [simp]: "answers (xs @ ys) = answers xs @ answers ys"
  by (induction xs rule: answers.induct) simp_all

lemma answers_From_cmd [simp]: "answers (map From_cmd vs) = vs"
  by (induction vs) simp_all

definition in_worker :: "'h conn \<Rightarrow> wvalue list" where
  "in_worker c = (case worker c of Worker_tells v \<Rightarrow> [v] | Replying v \<Rightarrow> [v] | Quitting \<Rightarrow> [OK] | _ \<Rightarrow> [])"

text \<open>The response that the writer has taken and not written, or could not write.\<close>

fun reply_of :: "writer_pc \<Rightarrow> wvalue list" where
  "reply_of (Writing_reply v) = [v]"
| "reply_of (Writer_tells (Write_failed (Some v))) = [v]"
| "reply_of (Writer_gone (Write_failed (Some v))) = [v]"
| "reply_of _ = []"

definition being_written :: "'h conn \<Rightarrow> wvalue list" where
  "being_written c = reply_of (writer c)"

lemma reply_of_one: "length (reply_of w) \<le> 1"
  by (induction w rule: reply_of.induct) simp_all

lemma reply_of_ended:
  "reply_of (Writer_gone x) = reply_of (Writer_tells x)"
  by (cases "Writer_tells x" rule: reply_of.cases) simp_all

text \<open>
  What goes in comes out: everything queued is handled in order, everything handled has its
  answer on the way or written, and no channel holds more than it can.
\<close>

definition pipeline_ok :: "'h callback \<Rightarrow> 'h conn \<Rightarrow> bool" where
  "pipeline_ok cb c \<longleftrightarrow> got c = handled c @ commands c
     \<and> list_all2 (answer_to cb) (handled c) (answers (wire_out c) @ being_written c @ cmdOut c @ in_worker c)
     \<and> length (commands c) \<le> chan_slots \<and> length (cmdOut c) \<le> chan_slots"

lemma pipeline_start: "pipeline_ok cb (Handle bs s h)"
  by (simp add: pipeline_ok_def Handle_def in_worker_def being_written_def)

lemma answered_snoc:
  "list_all2 P xs (as @ ws @ bs) \<Longrightarrow> P x v \<Longrightarrow> list_all2 P (xs @ [x]) (as @ ws @ bs @ [v])"
  using list_all2_appendI [of P xs "as @ ws @ bs" "[x]" "[v]"] by simp

lemma pipeline_step: "conn_step cb c c' \<Longrightarrow> pipeline_ok cb c \<Longrightarrow> pipeline_ok cb c'"
proof (induction rule: conn_step_induct)
  case (worker c c')
  from worker(1) show ?case
  proof cases
    case (call vs qs v s h)
    then have "answer_to cb (Cmd vs) v" by auto
    with call worker(2) show ?thesis
      by (simp add: pipeline_ok_def in_worker_def being_written_def answered_snoc)
  qed (use worker(2) in \<open>auto simp: pipeline_ok_def in_worker_def being_written_def chan_slots_def answered_snoc\<close>)
next
  case (writer c c')
  from writer(1) show ?case
    by cases (use writer(2) in \<open>simp_all add: pipeline_ok_def in_worker_def being_written_def reply_of_ended\<close>)
qed (auto elim!: conn_step_elims simp: pipeline_ok_def in_worker_def being_written_def chan_slots_def)

lemma pipeline_steps:
  "(conn_step cb)\<^sup>*\<^sup>* (Handle bs s h) c \<Longrightarrow> pipeline_ok cb c"
  by (induction rule: rtranclp_induct) (auto intro: pipeline_start pipeline_step)

section \<open>A client that pipelines commands\<close>

definition requests :: "wvalue list list \<Rightarrow> bytes" where
  "requests cmds = concat (map (\<lambda>vs. WriteTo (Array vs)) cmds)"

text \<open>Commands that a client can send and the reader takes for commands.\<close>

definition sendable :: "wvalue list \<Rightarrow> bool" where
  "sendable vs \<longleftrightarrow> wire_ok (MaxBlobSize conn_reader) True (Array vs) \<and> (\<exists>n rest. vs = String n # rest)"

lemma read_request:
  "sendable vs \<Longrightarrow> Read conn_reader (requests (vs # cmds)) = (Inr (Array vs), requests cmds)"
  using readsD [OF Read_WriteTo [of conn_reader "Array vs"]]
  by (simp add: sendable_def requests_def del: WriteTo.simps)

lemma on_request: "sendable vs \<Longrightarrow> to_reader (on_value s (Array vs)) = Queueing (Cmd vs)"
  by (auto simp: sendable_def on_value_def handleCommand_def to_reader_def)

lemma read_nothing: "\<exists>m r. Read conn_reader (requests []) = (Inl (ErrIO m), r)"
  by (simp add: requests_def Read_def readValue.simps wrapIO_def)

text \<open>
  The commands the reader has got so far are the first ones of those sent; it may hold the
  next one.
\<close>

definition asks :: "wvalue list list \<Rightarrow> 'h conn \<Rightarrow> bool" where
  "asks cmds c \<longleftrightarrow> (\<exists>k. got c = map Cmd (take k cmds) \<and> (case reader c of
       Reading \<Rightarrow> input c = requests (drop k cmds)
     | Queueing q \<Rightarrow> k < length cmds \<and> q = Cmd (cmds ! k) \<and> input c = requests (drop (Suc k) cmds)
     | Feeding i file f \<Rightarrow> False
     | _ \<Rightarrow> True))"

lemma asks_start: "asks cmds (Handle (requests cmds) s h)"
  unfolding asks_def by (intro exI [of _ 0]) (simp add: Handle_def)

lemma asks_same:
  "asks cmds c \<Longrightarrow> reader c' = reader c \<Longrightarrow> input c' = input c \<Longrightarrow> got c' = got c \<Longrightarrow> asks cmds c'"
  by (simp only: asks_def)

lemma asks_read:
  assumes "\<forall>vs \<in> set cmds. sendable vs"
  shows "k < length cmds \<Longrightarrow> Read conn_reader (requests (drop k cmds))
      = (Inr (Array (cmds ! k)), requests (drop (Suc k) cmds))"
    and "\<not> k < length cmds \<Longrightarrow> \<exists>m r. Read conn_reader (requests (drop k cmds)) = (Inl (ErrIO m), r)"
  using read_request [of "cmds ! k" "drop (Suc k) cmds"] assms read_nothing
  by (simp_all add: Cons_nth_drop_Suc)

lemma asks_step:
  assumes "conn_step cb c c'" and ok: "\<forall>vs \<in> set cmds. sendable vs" and "asks cmds c"
  shows "asks cmds c'"
  using assms(1,3)
proof (induction rule: conn_step_induct)
  case (reader c c')
  then obtain k where k: "got c = map Cmd (take k cmds)" by (auto simp: asks_def)
  from reader(1) show ?case
  proof cases
    case (read_value v rest)
    then obtain k where k: "input c = requests (drop k cmds)" "got c = map Cmd (take k cmds)"
      using reader(2) by (auto simp: asks_def)
    with read_value(3) asks_read(2) [OF ok, of k] have "k < length cmds"
      by (cases "k < length cmds") auto
    moreover from this k read_value(3) asks_read(1) [OF ok]
    have "v = Array (cmds ! k)" "rest = requests (drop (Suc k) cmds)" by auto
    moreover from \<open>k < length cmds\<close> ok have "sendable (cmds ! k)" by simp
    ultimately show ?thesis
      using k read_value(1) on_request [of "cmds ! k" "sess c"] unfolding asks_def
      by (intro exI [of _ k]) simp
  next
    case (read_format m rest)
    then obtain k where "input c = requests (drop k cmds)" using reader(2) by (auto simp: asks_def)
    then show ?thesis
      using read_format(3) asks_read [OF ok, of k] by (cases "k < length cmds") auto
  next
    case (enqueue q)
    then obtain k where "k < length cmds" "q = Cmd (cmds ! k)" "input c = requests (drop (Suc k) cmds)"
      "got c = map Cmd (take k cmds)" using reader(2) by (auto simp: asks_def)
    then show ?thesis
      using enqueue(1) unfolding asks_def
      by (intro exI [of _ "Suc k"]) (simp add: take_Suc_conv_app_nth)
  qed (use reader(2) in \<open>auto simp: asks_def\<close>)
qed (erule asks_same; auto elim!: conn_step_elims)+

lemma asks_steps:
  "(conn_step cb)\<^sup>*\<^sup>* (Handle (requests cmds) s h) c \<Longrightarrow> \<forall>vs \<in> set cmds. sendable vs \<Longrightarrow> asks cmds c"
  by (induction rule: rtranclp_induct) (auto intro: asks_start asks_step)

text \<open>The commands that the reader has read: those it has passed on, and the one it holds.\<close>

definition commands_read :: "'h conn \<Rightarrow> nat" where
  "commands_read c = length (got c) + (case reader c of Queueing q \<Rightarrow> 1 | _ \<Rightarrow> 0)"


section \<open>Runs of the reader\<close>

lemma reader_steps:
  assumes "sendable vs" and "reader c = Reading" and "input c = requests (vs # cmds)"
    and "length (commands c) < chan_slots"
  shows "(conn_step cb)\<^sup>*\<^sup>* c
    (c\<lparr>input := requests cmds, reader := Reading, commands := commands c @ [Cmd vs],
       got := got c @ [Cmd vs]\<rparr>)"
proof -
  let ?c1 = "c\<lparr>input := requests cmds, reader := Queueing (Cmd vs)\<rparr>"
  have "conn_step cb c ?c1"
    using conn_reads [OF reader_step.read_value [of c "Array vs" "requests cmds"]] read_request [OF assms(1), of cmds]
      on_request [OF assms(1), of "sess c"] assms(2,3) by simp
  moreover have "conn_step cb ?c1 (?c1\<lparr>reader := Reading, commands := commands ?c1 @ [Cmd vs], got := got ?c1 @ [Cmd vs]\<rparr>)"
    by (rule conn_reads [OF reader_step.enqueue]) (use assms(4) in simp_all)
  ultimately show ?thesis
    by (simp add: converse_rtranclp_into_rtranclp [of "conn_step cb" c] r_into_rtranclp)
qed

lemma reader_fill:
  assumes "\<forall>vs \<in> set xs. sendable vs" and "reader c = Reading" and "input c = requests (xs @ ys)"
    and "length (commands c) + length xs \<le> chan_slots"
  shows "(conn_step cb)\<^sup>*\<^sup>* c
    (c\<lparr>input := requests ys, reader := Reading, commands := commands c @ map Cmd xs,
       got := got c @ map Cmd xs\<rparr>)"
  using assms
proof (induction xs arbitrary: c)
  case Nil
  then have "c\<lparr>input := requests ys, reader := Reading, commands := commands c, got := got c\<rparr> = c"
    by (cases c) simp
  then show ?case by simp
next
  case (Cons vs xs)
  let ?c1 = "c\<lparr>input := requests (xs @ ys), reader := Reading, commands := commands c @ [Cmd vs],
      got := got c @ [Cmd vs]\<rparr>"
  have "(conn_step cb)\<^sup>*\<^sup>* c ?c1" by (rule reader_steps) (use Cons.prems in simp_all)
  moreover have "(conn_step cb)\<^sup>*\<^sup>* ?c1 (?c1\<lparr>input := requests ys, reader := Reading,
      commands := commands ?c1 @ map Cmd xs, got := got ?c1 @ map Cmd xs\<rparr>)"
    by (rule Cons.IH) (use Cons.prems in simp_all)
  ultimately show ?case by simp
qed

text \<open>The run that reads one command and answers it.\<close>

lemma one_answer:
  assumes "sendable vs" and "\<not> commandIsQuit vs" and "cb vs s h = Some (v, s', h')"
    and "terminated s' \<le> terminated s"
  shows "\<exists>c. (conn_step cb)\<^sup>*\<^sup>* (Handle (requests (vs # cmds)) s h) c
    \<and> wire_out c = [From_cmd v] \<and> sess c = s' \<and> host c = h'"
proof -
  let ?c0 = "Handle (requests (vs # cmds)) s h"
  let ?c1 = "?c0\<lparr>input := requests cmds, reader := Reading, commands := [Cmd vs], got := [Cmd vs]\<rparr>"
  let ?c2 = "?c1\<lparr>worker := Replying v, commands := [], sess := s', host := h', handled := [Cmd vs]\<rparr>"
  let ?c3 = "?c2\<lparr>worker := Waiting, cmdOut := [v]\<rparr>"
  let ?c4 = "?c3\<lparr>writer := Writing_reply v, cmdOut := []\<rparr>"
  let ?c5 = "?c4\<lparr>writer := Writer_waits, wire_out := [From_cmd v]\<rparr>"
  have 1: "(conn_step cb)\<^sup>*\<^sup>* ?c0 ?c1"
    using reader_steps [OF assms(1), of ?c0 cmds cb] by (simp add: Handle_def chan_slots_def)
  have 2: "conn_step cb ?c1 ?c2"
    using conn_works [OF worker_step.call [of ?c1 vs "[]" cb v s' h']] assms(2-4) by (simp add: Handle_def)
  have 3: "conn_step cb ?c2 ?c3"
    using conn_works [OF worker_step.reply [of ?c2 v cb]] by (simp add: Handle_def chan_slots_def)
  have 4: "conn_step cb ?c3 ?c4"
    using conn_writes [OF writer_step.take_reply [of ?c3 v "[]"]] by (simp add: Handle_def)
  have 5: "conn_step cb ?c4 ?c5"
    using conn_writes [OF writer_step.reply_written [of ?c4 v]] by (simp add: Handle_def)
  from 1 2 3 4 5 have "(conn_step cb)\<^sup>*\<^sup>* ?c0 ?c5" by (meson rtranclp.rtrancl_into_rtrancl)
  then show ?thesis by (intro exI [of _ ?c5]) simp
qed

text \<open>Commands for the witnesses, and a callback that answers everything.\<close>

abbreviation QUIT :: "wvalue list" where "QUIT \<equiv> [String ''quit'']"
abbreviation PING :: "wvalue list" where "PING \<equiv> [String ''PING'']"

definition ponger :: "unit callback" where
  "ponger vs s h = Some (NewString ''PONG'', s, h)"

lemma sample_commands [simp]: "sendable QUIT" "commandIsQuit QUIT" "sendable PING" "\<not> commandIsQuit PING"
  by (simp_all add: sendable_def commandIsQuit_def conn_reader_def value_size_def go_defs)


section \<open>The end of a connection\<close>

text \<open>Once \<open>cmdOut\<close> is closed the worker has gone, and QUIT was the last it handled.\<close>

fun is_quit :: "queued \<Rightarrow> bool" where
  "is_quit (Cmd vs) = commandIsQuit vs"
| "is_quit (Pass v) = False"

definition quit_ok :: "'h conn \<Rightarrow> bool" where
  "quit_ok c \<longleftrightarrow> (cmdOut_closed c \<longrightarrow> worker c = Worker_gone)
     \<and> (cmdOut_closed c \<or> worker c = Quitting \<longrightarrow> handled c \<noteq> [] \<and> is_quit (last (handled c)))"

lemma quit_step: "conn_step cb c c' \<Longrightarrow> quit_ok c \<Longrightarrow> quit_ok c'"
proof (induction rule: conn_step_induct)
  case (worker c c')
  from worker(1) show ?case by cases (use worker(2) in \<open>simp_all add: quit_ok_def\<close>)
next
  case (reader c c')
  from reader(1) show ?case by cases (use reader(2) in \<open>simp_all add: quit_ok_def\<close>)
next
  case (writer c c')
  from writer(1) show ?case by cases (use writer(2) in \<open>simp_all add: quit_ok_def\<close>)
next
  case (handle c c')
  from handle(1) show ?case by cases (use handle(2) in \<open>simp_all add: quit_ok_def\<close>)
qed (simp add: quit_ok_def)

lemma quit_steps: "(conn_step cb)\<^sup>*\<^sup>* (Handle bs s h) c \<Longrightarrow> quit_ok c"
proof (induction rule: rtranclp_induct)
  case base
  then show ?case by (simp add: quit_ok_def Handle_def)
qed (auto intro: quit_step)

text \<open>
  From then on nothing more is handled. A writer that ends by draining has left nothing in
  \<open>cmdOut\<close>, and one that ends because \<open>done\<close> is closed finds it closed.
\<close>

definition writer_ok :: "'h conn \<Rightarrow> bool" where
  "writer_ok c \<longleftrightarrow> (writer c = Writer_tells Drained \<or> writer c = Writer_gone Drained \<longrightarrow> cmdOut_closed c \<and> cmdOut c = [])
     \<and> (writer c = Writer_tells Stopped \<or> writer c = Writer_gone Stopped \<longrightarrow> stop c)"

lemma writer_ok_step: "conn_step cb c c' \<Longrightarrow> quit_ok c \<Longrightarrow> writer_ok c \<Longrightarrow> writer_ok c'"
proof (induction rule: conn_step_induct)
  case (worker c c')
  from worker(1) show ?case by cases (use worker(2,3) in \<open>simp_all add: writer_ok_def quit_ok_def\<close>)
next
  case (reader c c')
  from reader(1) show ?case by cases (use reader(3) in \<open>simp_all add: writer_ok_def\<close>)
next
  case (writer c c')
  from writer(1) show ?case by cases (use writer(3) in \<open>simp_all add: writer_ok_def\<close>)
next
  case (handle c c')
  from handle(1) show ?case by cases (use handle(3) in \<open>simp_all add: writer_ok_def\<close>)
qed (simp add: writer_ok_def)

lemma writer_ok_steps: "(conn_step cb)\<^sup>*\<^sup>* (Handle bs s h) c \<Longrightarrow> quit_ok c \<and> writer_ok c"
proof (induction rule: rtranclp_induct)
  case base
  then show ?case by (simp add: quit_ok_def writer_ok_def Handle_def)
qed (auto intro: quit_step writer_ok_step)

lemma quit_is_last:
  "conn_step cb c c' \<Longrightarrow> cmdOut_closed c \<Longrightarrow> worker c = Worker_gone \<Longrightarrow>
   cmdOut_closed c' \<and> worker c' = Worker_gone \<and> handled c' = handled c"
  by (induction rule: conn_step_induct) (auto elim!: conn_step_elims)

lemma quit_stays:
  "(conn_step cb)\<^sup>*\<^sup>* c c' \<Longrightarrow> cmdOut_closed c \<Longrightarrow> worker c = Worker_gone \<Longrightarrow>
   cmdOut_closed c' \<and> worker c' = Worker_gone \<and> handled c' = handled c"
proof (induction rule: rtranclp_induct)
  case (step c1 c2)
  with quit_is_last [OF step(2)] show ?case by simp
qed simp

text \<open>How far the writer is from its end, if it takes no further frame.\<close>

definition writes_left :: "'h conn \<Rightarrow> nat" where
  "writes_left c =
     (case writer c of
        Writer_waits \<Rightarrow> 2 * length (cmdOut c) + 2
      | Writing_reply v \<Rightarrow> 2 * length (cmdOut c) + 3
      | Writing_frame \<Rightarrow> 2 * length (cmdOut c) + 3
      | Writer_tells x \<Rightarrow> 1
      | Writer_gone x \<Rightarrow> 0)"

lemma writer_advances:
  assumes "cmdOut_closed c" and "\<not> writer_gone c" and "token_fits c"
  shows "\<exists>d. writer_step c d \<and> writes_left d < writes_left c"
proof (cases "writer c")
  case Writer_waits
  then show ?thesis
    using assms(1) writer_step.drained [of c] writer_step.take_reply [of c]
    by (cases "cmdOut c") (auto simp: writes_left_def intro!: exI)
next
  case (Writing_reply v)
  then show ?thesis using writer_step.reply_written [of c v] by (auto simp: writes_left_def intro!: exI)
next
  case Writing_frame
  then show ?thesis using writer_step.frame_written [of c] by (auto simp: writes_left_def intro!: exI)
next
  case (Writer_tells x)
  then show ?thesis using assms(3) writer_step.writer_told [of c x] by (auto simp: writes_left_def intro!: exI)
qed (use assms(2) in \<open>simp add: writer_gone_def\<close>)

text \<open>The run in which the worker takes QUIT and closes \<open>cmdOut\<close>.\<close>

lemma quit_run:
  assumes "sendable quit" and "commandIsQuit quit"
  shows "(conn_step cb)\<^sup>*\<^sup>* (Handle (requests (quit # cmds)) s h)
    ((Handle (requests cmds) s h)\<lparr>worker := Worker_gone, cmdOut := [OK], cmdOut_closed := True,
       got := [Cmd quit], handled := [Cmd quit]\<rparr>)"
proof -
  let ?c0 = "Handle (requests (quit # cmds)) s h"
  let ?c1 = "?c0\<lparr>input := requests cmds, reader := Reading, commands := [Cmd quit], got := [Cmd quit]\<rparr>"
  let ?c2 = "?c1\<lparr>worker := Quitting, commands := [], handled := [Cmd quit]\<rparr>"
  have 1: "(conn_step cb)\<^sup>*\<^sup>* ?c0 ?c1"
    using reader_steps [OF assms(1), of ?c0 cmds cb] by (simp add: Handle_def chan_slots_def)
  have 2: "conn_step cb ?c1 ?c2"
    using conn_works [OF worker_step.quit [of ?c1 quit "[]" cb]] assms(2) by (simp add: Handle_def)
  have 3: "conn_step cb ?c2 (?c2\<lparr>worker := Worker_gone, cmdOut := [OK], cmdOut_closed := True\<rparr>)"
    using conn_works [OF worker_step.close_out [of ?c2 cb]] by (simp add: Handle_def chan_slots_def)
  from 1 2 3 have "(conn_step cb)\<^sup>*\<^sup>* ?c0 (?c2\<lparr>worker := Worker_gone, cmdOut := [OK], cmdOut_closed := True\<rparr>)"
    by (meson rtranclp.rtrancl_into_rtrancl)
  then show ?thesis by (simp add: Handle_def)
qed



text \<open>A reader that holds a value nobody will take.\<close>

definition stuck_reader :: "'h conn \<Rightarrow> bool" where
  "stuck_reader c \<longleftrightarrow> worker c = Worker_gone \<and> (\<exists>q. reader c = Queueing q)
     \<and> length (commands c) = chan_slots \<and> \<not> ended c"

lemma stuck_reader_step: "conn_step cb c c' \<Longrightarrow> stuck_reader c \<Longrightarrow> stuck_reader c'"
  by (induction rule: conn_step_induct) (auto elim!: conn_step_elims simp: stuck_reader_def)

text \<open>A worker that holds a response nobody will take.\<close>

definition stuck_worker :: "'h conn \<Rightarrow> bool" where
  "stuck_worker c \<longleftrightarrow> writer_gone c \<and> (\<exists>v. worker c = Replying v)
     \<and> length (cmdOut c) = chan_slots \<and> \<not> ended c"

lemma stuck_worker_step: "conn_step cb c c' \<Longrightarrow> stuck_worker c \<Longrightarrow> stuck_worker c'"
  by (induction rule: conn_step_induct) (auto elim!: conn_step_elims simp: stuck_worker_def writer_gone_def)

lemma stuck_for_ever:
  "(conn_step cb)\<^sup>*\<^sup>* c c' \<Longrightarrow> stuck_reader c \<or> stuck_worker c \<Longrightarrow> \<not> ended c'"
proof -
  assume "(conn_step cb)\<^sup>*\<^sup>* c c'" and "stuck_reader c \<or> stuck_worker c"
  then have "stuck_reader c' \<or> stuck_worker c'"
    by (induction rule: rtranclp_induct) (auto dest: stuck_reader_step stuck_worker_step)
  then show ?thesis by (auto simp: stuck_reader_def stuck_worker_def)
qed

text \<open>
  A connection can be left open for ever: a client that sends QUIT and six more commands
  after it can leave the reader blocked on a channel that the worker, gone after QUIT, never
  empties again; whatever happens from then on, the connection is not closed.
\<close>

theorem connection_can_hang:
  assumes "sendable quit" and "commandIsQuit quit" and "\<forall>vs \<in> set cmds. sendable vs"
    and "chan_slots < length cmds"
  shows "\<exists>c. (conn_step cb)\<^sup>*\<^sup>* (Handle (requests (quit # cmds)) s h) c
    \<and> (\<forall>c'. (conn_step cb)\<^sup>*\<^sup>* c c' \<longrightarrow> \<not> ended c')"
proof -
  let ?c3 = "(Handle (requests cmds) s h)\<lparr>worker := Worker_gone, cmdOut := [OK], cmdOut_closed := True,
      got := [Cmd quit], handled := [Cmd quit]\<rparr>"
  obtain xs vs ys where cmds: "cmds = xs @ vs # ys" "length xs = chan_slots"
    using id_take_nth_drop [OF assms(4)] assms(4) by (metis length_take min.absorb4)
  let ?c4 = "?c3\<lparr>input := requests (vs # ys), reader := Reading,
      commands := commands ?c3 @ map Cmd xs, got := got ?c3 @ map Cmd xs\<rparr>"
  let ?c5 = "?c4\<lparr>input := requests ys, reader := Queueing (Cmd vs)\<rparr>"
  have 4: "(conn_step cb)\<^sup>*\<^sup>* ?c3 ?c4"
    by (rule reader_fill) (use assms(3) cmds in \<open>simp_all add: Handle_def\<close>)
  have "sendable vs" using assms(3) cmds by simp
  then have 5: "conn_step cb ?c4 ?c5"
    using conn_reads [OF reader_step.read_value [of ?c4 "Array vs" "requests ys"]] read_request [of vs ys]
      on_request [of vs "sess ?c4"] by simp
  from quit_run [OF assms(1,2), of cb cmds s h] 4 5
  have "(conn_step cb)\<^sup>*\<^sup>* (Handle (requests (quit # cmds)) s h) ?c5"
    by (meson rtranclp.rtrancl_into_rtrancl rtranclp_trans)
  moreover have "stuck_reader ?c5" using cmds(2) by (simp add: stuck_reader_def Handle_def)
  ultimately show ?thesis using stuck_for_ever by blast
qed

theorem connection_can_hang_witness:
  "\<exists>c. (conn_step ponger)\<^sup>*\<^sup>* (Handle (requests (QUIT # replicate 6 PING)) new_session ()) c
    \<and> (\<forall>c'. (conn_step ponger)\<^sup>*\<^sup>* c c' \<longrightarrow> \<not> ended c')"
  by (rule connection_can_hang) (simp_all add: chan_slots_def)

end
