(* ===== verification/Session_Downloads.thy ===== *)
theory Session_Downloads
  imports Session_Props Stream_Props
begin

text \<open>
  A connection and its downloads: the goroutines of theory \<open>Session_Loop\<close> and any number of
  read workers of theory \<open>Stream_Workers\<close>, which share the writer through the unbuffered channel
  \<open>dataOut\<close> and the wait group with \<open>Handle\<close>. The composition has read streams only: frames of
  uploads and copies are not written in it. The frames of a stream are those that come through
  \<open>dataOut\<close>: when a client sends a frame to the number of a read stream, the reader answers
  with an error that has this tag as well, but comes through \<open>cmdOut\<close> among the responses.
\<close>

section \<open>The composition\<close>

text \<open>A read stream that has been opened: its number, the file, its goroutine.\<close>

record opened =
  number :: nat
  of_file :: bytes
  goroutine :: read_worker

text \<open>The connection, and the read streams in the order in which they were opened.\<close>

record 'h serving =
  link :: "'h conn"
  downloads :: "opened list"

definition serving_start :: "bytes \<Rightarrow> session \<Rightarrow> 'h \<Rightarrow> 'h serving" where
  "serving_start bs s h = \<lparr>link = Handle bs s h, downloads = []\<rparr>"

fun from_streams :: "sent list \<Rightarrow> wvalue list" where
  "from_streams [] = []"
| "from_streams (From_stream v # xs) = v # from_streams xs"
| "from_streams (From_cmd v # xs) = from_streams xs"

lemma from_streams_append [simp]: "from_streams (xs @ ys) = from_streams xs @ from_streams ys"
  by (induction xs rule: from_streams.induct) simp_all

text \<open>The writer is writing out a value of a stream; how many workers the wait group counts.\<close>

definition writer_busy :: "'h serving \<Rightarrow> bool" where
  "writer_busy x \<longleftrightarrow> (\<exists>d \<in> set (downloads x). in_writer (goroutine d) \<noteq> None)"

definition live :: "opened list \<Rightarrow> nat" where
  "live ds = length (filter (\<lambda>d. \<not> returned (goroutine d)) ds)"

text \<open>A worker moves on; at its end it leaves the wait group.\<close>

definition move_worker :: "nat \<Rightarrow> read_worker \<Rightarrow> 'h serving \<Rightarrow> 'h serving" where
  "move_worker k w x =
     (let d = downloads x ! k in
      x\<lparr>downloads := (downloads x)[k := d\<lparr>goroutine := w\<rparr>],
        link := (link x)\<lparr>stream_workers :=
          (if returned w \<and> \<not> returned (goroutine d) then stream_workers (link x) - 1
           else stream_workers (link x))\<rparr>\<rparr>)"

definition worker_moves :: "nat \<Rightarrow> read_worker \<Rightarrow> 'h serving \<Rightarrow> bool" where
  "worker_moves k w x \<longleftrightarrow> k < length (downloads x)
     \<and> read_step (Itoa (int (number (downloads x ! k)))) (goroutine (downloads x ! k)) w"

text \<open>
  The steps: one of the connection itself, which takes and writes no frame; a command opens a
  read stream under a number that is free; a worker moves by itself; the writer, when it waits,
  takes what a worker offers; the writer has written it out.
\<close>

inductive serving_step :: "'h callback \<Rightarrow> 'h serving \<Rightarrow> 'h serving \<Rightarrow> bool" for cb where
  connection: "conn_step cb (link x) c \<Longrightarrow> from_streams (wire_out c) = from_streams (wire_out (link x)) \<Longrightarrow>
    (writer c = Writing_frame \<longrightarrow> writer (link x) = Writing_frame) \<Longrightarrow> live (downloads x) \<le> stream_workers c \<Longrightarrow>
    serving_step cb x (x\<lparr>link := c\<rparr>)"
| opens: "worker (link x) = Replying v \<Longrightarrow>
    \<forall>d \<in> set (downloads x). number d = i \<longrightarrow> returned (goroutine d) \<Longrightarrow>
    serving_step cb x
      (x\<lparr>link := (link x)\<lparr>stream_workers := Suc (stream_workers (link x))\<rparr>,
         downloads := downloads x @ [\<lparr>number = i, of_file = content, goroutine = handleReadStream content\<rparr>]\<rparr>)"
| works: "worker_moves k w x \<Longrightarrow> in_writer w = in_writer (goroutine (downloads x ! k)) \<Longrightarrow>
    serving_step cb x (move_worker k w x)"
| takes: "worker_moves k w x \<Longrightarrow> in_writer (goroutine (downloads x ! k)) = None \<Longrightarrow> in_writer w \<noteq> None \<Longrightarrow>
    writer (link x) = Writer_waits \<Longrightarrow>
    serving_step cb x
      ((move_worker k w x)\<lparr>link := (link (move_worker k w x))\<lparr>writer := Writing_frame\<rparr>\<rparr>)"
| writes: "worker_moves k w x \<Longrightarrow> in_writer (goroutine (downloads x ! k)) \<noteq> None \<Longrightarrow> in_writer w = None \<Longrightarrow>
    writer (link x) = Writing_frame \<Longrightarrow>
    serving_step cb x
      ((move_worker k w x)\<lparr>link := (link (move_worker k w x))\<lparr>writer := Writer_waits, wire_out :=
         wire_out (link x) @ [From_stream (last (written w))]\<rparr>\<rparr>)"

inductive_cases serving_stepE: "serving_step cb x y"

section \<open>What a worker does in one step\<close>

lemma worker_start [simp]:
  "returned (handleReadStream c) = False" "written (handleReadStream c) = []"
  "offered (handleReadStream c) = None" "in_writer (handleReadStream c) = None"
  by (simp_all add: handleReadStream_def)

text \<open>Only writing out adds to what is written, and it adds one value.\<close>

lemma read_step_written:
  "read_step tag w w' \<Longrightarrow>
   (if in_writer w \<noteq> None \<and> in_writer w' = None then written w' = written w @ [last (written w')]
    else written w' = written w)"
  by (induction rule: read_step.induct) auto

text \<open>A worker that has returned offers nothing: it takes part only in being written out.\<close>

lemma read_step_returned:
  "read_step tag w w' \<Longrightarrow> returned w \<Longrightarrow> offered w = None \<Longrightarrow> in_writer w \<noteq> None \<and> in_writer w' = None
     \<and> returned w' \<and> offered w' = None"
  by (induction rule: read_step.induct) auto

text \<open>A worker that offers a value waits until it is received.\<close>

lemma read_step_offers:
  "read_step tag w w' \<Longrightarrow> offered w = Some y \<Longrightarrow> returned w = False \<Longrightarrow>
   in_writer w \<noteq> None \<and> in_writer w' = None \<or> in_writer w = None \<and> in_writer w' \<noteq> None"
  by (induction rule: read_step.induct) auto

text \<open>A worker that has returned offers nothing.\<close>

lemma returned_offers:
  "(read_step tag)\<^sup>*\<^sup>* (handleReadStream content) w \<Longrightarrow> returned w \<Longrightarrow> offered w = None"
proof (induction rule: rtranclp_induct)
  case (step w w')
  from step(2,3,4) show ?case by (induction rule: read_step.induct) auto
qed (simp add: handleReadStream_def)

text \<open>Everything written out carries the tag of the stream.\<close>

lemma read_step_tagged:
  "read_step tag w w' \<Longrightarrow> \<forall>v \<in> set (written w). \<exists>p. v = TaggedValue tag p \<Longrightarrow>
   \<forall>v \<in> set (written w'). \<exists>p. v = TaggedValue tag p"
proof (induction rule: read_step.induct)
  case (written_out w v)
  then show ?case by (cases v) (auto simp: NewTaggedValue_def)
qed auto

section \<open>The writer is shared and nothing is mixed up\<close>

text \<open>The frames of a number on the wire; what the workers of a number have written out.\<close>

definition frames_for :: "nat \<Rightarrow> wvalue list \<Rightarrow> wvalue list" where
  "frames_for i vs = filter (\<lambda>v. \<exists>p. v = TaggedValue (Itoa (int i)) p) vs"

definition log_of :: "opened list \<Rightarrow> (nat \<times> wvalue list) list" where
  "log_of ds = map (\<lambda>d. (number d, written (goroutine d))) ds"

definition logged :: "nat \<Rightarrow> (nat \<times> wvalue list) list \<Rightarrow> wvalue list" where
  "logged i l = concat (map snd (filter (\<lambda>(n, _). n = i) l))"

lemma logged_append [simp]: "logged i (l @ m) = logged i l @ logged i m"
  by (simp add: logged_def)

lemma logged_Cons [simp]: "logged i ((n, vs) # l) = (if n = i then vs @ logged i l else logged i l)"
  by (simp add: logged_def)

lemma logged_Nil [simp]: "logged i [] = []"
  by (simp add: logged_def)

lemma logged_empty: "\<forall>(n, vs) \<in> set l. n = i \<longrightarrow> vs = [] \<Longrightarrow> logged i l = []"
  by (induction l) auto

text \<open>
  Of two streams with one number, the earlier has returned, and as long as its last value is
  still being written out, the later has written nothing.
\<close>

definition one_after_another :: "opened list \<Rightarrow> bool" where
  "one_after_another ds \<longleftrightarrow> (\<forall>j k. j < k \<and> k < length ds \<and> number (ds ! j) = number (ds ! k) \<longrightarrow>
     returned (goroutine (ds ! j))
     \<and> (in_writer (goroutine (ds ! j)) \<noteq> None \<longrightarrow> written (goroutine (ds ! k)) = []))"

definition one_in_writer :: "opened list \<Rightarrow> bool" where
  "one_in_writer ds \<longleftrightarrow> (\<forall>j k. j < length ds \<and> k < length ds \<and> in_writer (goroutine (ds ! j)) \<noteq> None
     \<and> in_writer (goroutine (ds ! k)) \<noteq> None \<longrightarrow> j = k)"

definition workers_run :: "opened list \<Rightarrow> bool" where
  "workers_run ds \<longleftrightarrow> (\<forall>d \<in> set ds.
     (read_step (Itoa (int (number d))))\<^sup>*\<^sup>* (handleReadStream (of_file d)) (goroutine d))"

text \<open>While a value of a stream is being written out, the writer neither waits nor has a response.\<close>

fun not_framing :: "writer_pc \<Rightarrow> bool" where
  "not_framing Writer_waits = True"
| "not_framing (Writing_reply v) = True"
| "not_framing _ = False"

definition writer_split :: "'h serving \<Rightarrow> bool" where
  "writer_split x \<longleftrightarrow> (not_framing (writer (link x)) \<longrightarrow> \<not> writer_busy x)"

definition shares_ok :: "'h serving \<Rightarrow> bool" where
  "shares_ok x \<longleftrightarrow> workers_run (downloads x) \<and> one_after_another (downloads x) \<and> one_in_writer (downloads x)
     \<and> writer_split x
     \<and> (\<forall>i. frames_for i (from_streams (wire_out (link x))) = logged i (log_of (downloads x)))"

lemma move_worker_downloads [simp]:
  "downloads (move_worker k w x) = (downloads x)[k := (downloads x ! k)\<lparr>goroutine := w\<rparr>]"
  "wire_out (link (move_worker k w x)) = wire_out (link x)"
  by (simp_all add: move_worker_def Let_def)

lemma workers_run_move:
  "worker_moves k w x \<Longrightarrow> workers_run (downloads x) \<Longrightarrow> workers_run (downloads (move_worker k w x))"
proof -
  assume m: "worker_moves k w x" and run: "workers_run (downloads x)"
  let ?d = "downloads x ! k"
  from m have k: "k < length (downloads x)" "read_step (Itoa (int (number ?d))) (goroutine ?d) w"
    by (simp_all add: worker_moves_def)
  from k(1) run have "(read_step (Itoa (int (number ?d))))\<^sup>*\<^sup>* (handleReadStream (of_file ?d)) (goroutine ?d)"
    by (simp add: workers_run_def)
  with k(2) have "(read_step (Itoa (int (number ?d))))\<^sup>*\<^sup>* (handleReadStream (of_file ?d)) w"
    by (rule rtranclp.rtrancl_into_rtrancl [rotated])
  with run show ?thesis
    by (auto simp: workers_run_def dest!: set_update_subset_insert [THEN subsetD])
qed

text \<open>A worker with a later one of the same number can only be written out.\<close>

lemma earlier_worker:
  assumes "worker_moves j w x" and "shares_ok x" and "j < k" and "k < length (downloads x)"
    and "number (downloads x ! j) = number (downloads x ! k)"
  shows "in_writer (goroutine (downloads x ! j)) \<noteq> None \<and> in_writer w = None \<and> returned w"
proof -
  let ?d = "downloads x ! j"
  have r: "returned (goroutine ?d)" using assms(2-) by (auto simp: shares_ok_def one_after_another_def)
  have "?d \<in> set (downloads x)" using assms(3,4) by simp
  with assms(2) have "(read_step (Itoa (int (number ?d))))\<^sup>*\<^sup>* (handleReadStream (of_file ?d)) (goroutine ?d)"
    by (simp add: shares_ok_def workers_run_def)
  from returned_offers [OF this r] read_step_returned [OF _ r, of _ w] assms(1) show ?thesis
    by (auto simp: worker_moves_def)
qed

lemma Itoa_int_inject: "Itoa (int m) = Itoa (int n) \<Longrightarrow> m = n"
proof -
  assume "Itoa (int m) = Itoa (int n)"
  then have "show_nat m = show_nat n" by (simp add: Itoa_def)
  then have "parse_nat 0 (show_nat m) = parse_nat 0 (show_nat n)" by (rule arg_cong)
  then show "m = n" by simp
qed

lemma one_after_another_move:
  assumes "worker_moves k w x" and "shares_ok x"
    and "written w = written (goroutine (downloads x ! k))
      \<or> in_writer (goroutine (downloads x ! k)) \<noteq> None"
  shows "one_after_another (downloads (move_worker k w x))"
  unfolding one_after_another_def move_worker_downloads
proof (intro allI impI)
  let ?ds = "downloads x" and ?ds' = "(downloads x)[k := (downloads x ! k)\<lparr>goroutine := w\<rparr>]"
  fix i j assume a: "i < j \<and> j < length ?ds' \<and> number (?ds' ! i) = number (?ds' ! j)"
  then have ij: "i < j" "j < length ?ds" by simp_all
  have n: "number (?ds' ! l) = number (?ds ! l)" if "l < length ?ds" for l
    using that by (cases "l = k") simp_all
  with a ij have same: "number (?ds ! i) = number (?ds ! j)" by simp
  with ij assms(2) have old: "returned (goroutine (?ds ! i))"
    "in_writer (goroutine (?ds ! i)) \<noteq> None \<longrightarrow> written (goroutine (?ds ! j)) = []"
    by (auto simp: shares_ok_def one_after_another_def)
  show "returned (goroutine (?ds' ! i))
      \<and> (in_writer (goroutine (?ds' ! i)) \<noteq> None \<longrightarrow> written (goroutine (?ds' ! j)) = [])"
  proof (cases "i = k")
    case True
    with earlier_worker [OF _ assms(2) ij same] assms(1) show ?thesis
      using ij by simp
  next
    case False
    have "in_writer (goroutine (?ds ! i)) = None \<or> in_writer (goroutine (?ds ! j)) = None"
      using assms(2) ij unfolding shares_ok_def one_in_writer_def by (metis less_trans less_irrefl)
    with assms(3) old False ij show ?thesis by (cases "j = k") auto
  qed
qed

lemma one_in_writer_move:
  assumes "one_in_writer (downloads x)"
    and "in_writer w = None \<or> \<not> writer_busy x \<or> in_writer w = in_writer (goroutine (downloads x ! k))"
  shows "one_in_writer (downloads (move_worker k w x))"
proof -
  let ?ds = "downloads x" and ?ds' = "(downloads x)[k := (downloads x ! k)\<lparr>goroutine := w\<rparr>]"
  have new: "in_writer (goroutine (?ds ! i)) \<noteq> None \<or> i = k \<and> \<not> writer_busy x"
    if "i < length ?ds" "in_writer (goroutine (?ds' ! i)) \<noteq> None" for i
    using that assms(2) by (cases "i = k") auto
  have idle: "in_writer (goroutine (?ds ! i)) = None" if "\<not> writer_busy x" "i < length ?ds" for i
    using that by (simp add: writer_busy_def)
  have "i = j" if "i < length ?ds" "j < length ?ds" "in_writer (goroutine (?ds' ! i)) \<noteq> None"
    "in_writer (goroutine (?ds' ! j)) \<noteq> None" for i j
    using new [OF that(1,3)] new [OF that(2,4)] idle that(1,2) assms(1)
    unfolding one_in_writer_def by metis
  then show ?thesis by (simp add: one_in_writer_def)
qed

lemma log_of_same:
  "k < length ds \<Longrightarrow> written w = written (goroutine (ds ! k)) \<Longrightarrow>
   log_of (ds[k := (ds ! k)\<lparr>goroutine := w\<rparr>]) = log_of ds"
  by (auto simp: log_of_def map_update intro!: list_update_same_conv [THEN iffD2])

text \<open>Writing out a value adds it to the frames of its number, wherever the worker stands.\<close>

lemma log_of_written:
  assumes "worker_moves k w x" and "shares_ok x" and "in_writer (goroutine (downloads x ! k)) \<noteq> None"
    and "written w = written (goroutine (downloads x ! k)) @ [v]"
  shows "logged i (log_of (downloads (move_worker k w x)))
    = logged i (log_of (downloads x)) @ (if number (downloads x ! k) = i then [v] else [])"
proof -
  let ?ds = "downloads x" and ?d = "downloads x ! k"
  have k: "k < length ?ds" using assms(1) by (simp add: worker_moves_def)
  let ?A = "log_of (take k ?ds)" and ?B = "log_of (drop (Suc k) ?ds)"
  have "log_of ?ds = ?A @ (number ?d, written (goroutine ?d)) # ?B"
    by (subst id_take_nth_drop [OF k]) (simp add: log_of_def)
  moreover have "log_of (downloads (move_worker k w x)) = ?A @ (number ?d, written w) # ?B"
    by (simp add: upd_conv_take_nth_drop [OF k] log_of_def)
  moreover have "logged i ?B = []" if "number ?d = i"
  proof (rule logged_empty)
    have "written (goroutine (?ds ! l)) = []" if "k < l" "l < length ?ds" "number (?ds ! l) = i" for l
      using that \<open>number ?d = i\<close> assms(2,3) k by (auto simp: shares_ok_def one_after_another_def)
    then show "\<forall>(n, vs) \<in> set ?B. n = i \<longrightarrow> vs = []"
      by (auto simp: log_of_def in_set_conv_nth)
  qed
  ultimately show ?thesis by (simp add: assms(4))
qed

lemma shares_ok_opens:
  assumes "shares_ok x" and "\<forall>d \<in> set (downloads x). number d = i \<longrightarrow> returned (goroutine d)"
    and "downloads y = downloads x @ [\<lparr>number = i, of_file = content, goroutine = handleReadStream content\<rparr>]"
    and "wire_out (link y) = wire_out (link x)" and "writer (link y) = writer (link x)"
  shows "shares_ok y"
proof -
  have "writer_split y"
    using assms(1,3,5) by (auto simp: shares_ok_def writer_split_def writer_busy_def handleReadStream_def)
  moreover have "workers_run (downloads y)" using assms(1,3) by (auto simp: shares_ok_def workers_run_def)
  moreover have "one_after_another (downloads y)"
    unfolding one_after_another_def
  proof (intro allI impI)
    fix j k assume "j < k \<and> k < length (downloads y) \<and> number (downloads y ! j) = number (downloads y ! k)"
    then have "j < length (downloads x)" "k < length (downloads x) \<or> k = length (downloads x)"
      "number (downloads y ! j) = number (downloads y ! k)" "j < k"
      using assms(3) by auto
    then show "returned (goroutine (downloads y ! j))
        \<and> (in_writer (goroutine (downloads y ! j)) \<noteq> None \<longrightarrow> written (goroutine (downloads y ! k)) = [])"
      using assms(1,2,3)
      by (auto simp: nth_append shares_ok_def one_after_another_def handleReadStream_def)
  qed
  moreover have "one_in_writer (downloads y)"
    using assms(1) by (auto simp: assms(3) shares_ok_def one_in_writer_def nth_append handleReadStream_def less_Suc_eq)
  moreover have "logged j (log_of (downloads y)) = logged j (log_of (downloads x))" for j
    by (simp add: assms(3) log_of_def handleReadStream_def)
  ultimately show ?thesis using assms(1,4) by (simp add: shares_ok_def)
qed

lemma frames_for_append [simp]: "frames_for i (vs @ ws) = frames_for i vs @ frames_for i ws"
  by (simp add: frames_for_def)

lemma reachable_tagged:
  "(read_step tag)\<^sup>*\<^sup>* (handleReadStream content) w \<Longrightarrow> \<forall>v \<in> set (written w). \<exists>p. v = TaggedValue tag p"
proof (induction rule: rtranclp_induct)
  case (step w w')
  from read_step_tagged [OF step(2,3)] show ?case .
qed (simp add: handleReadStream_def)

lemma shares_ok_writes:
  assumes "worker_moves k w x" and "shares_ok x" and "in_writer (goroutine (downloads x ! k)) \<noteq> None"
    and "in_writer w = None" and "downloads y = downloads (move_worker k w x)"
    and "wire_out (link y) = wire_out (link x) @ [From_stream (last (written w))]"
  shows "shares_ok y"
proof -
  let ?d = "downloads x ! k" and ?v = "last (written w)"
  have step: "read_step (Itoa (int (number ?d))) (goroutine ?d) w" and k: "k < length (downloads x)"
    using assms(1) by (simp_all add: worker_moves_def)
  have w: "written w = written (goroutine ?d) @ [?v]"
    using read_step_written [OF step] assms(3,4) by simp
  have run: "workers_run (downloads y)" unfolding assms(5)
    by (rule workers_run_move) (use assms(1,2) in \<open>simp_all add: shares_ok_def\<close>)
  have "?d\<lparr>goroutine := w\<rparr> \<in> set (downloads y)" using k by (simp add: assms(5) set_update_memI)
  from bspec [OF run [unfolded workers_run_def] this]
  have "(read_step (Itoa (int (number ?d))))\<^sup>*\<^sup>* (handleReadStream (of_file ?d)) w" by simp
  from reachable_tagged [OF this] w obtain p where "?v = TaggedValue (Itoa (int (number ?d))) p"
    by (metis in_set_conv_decomp)
  then have "frames_for i [?v] = (if number ?d = i then [?v] else [])" for i
    by (auto simp: frames_for_def dest: Itoa_int_inject)
  moreover have "logged i (log_of (downloads y)) = logged i (log_of (downloads x))
      @ (if number ?d = i then [?v] else [])" for i
    unfolding assms(5) by (rule log_of_written [OF assms(1-3) w])
  moreover have "one_after_another (downloads y)" "one_in_writer (downloads y)"
    unfolding assms(5)
    using one_after_another_move [OF assms(1,2)] one_in_writer_move [of x w k] assms(2-4)
    by (simp_all add: shares_ok_def)
  moreover have "writer_split y"
  proof -
    have "in_writer (goroutine d) = None" if "d \<in> set (downloads y)" for d
    proof -
      obtain j where "j < length (downloads y)" and d: "d = downloads y ! j"
        using \<open>d \<in> set (downloads y)\<close> by (metis in_set_conv_nth)
      then have j: "j < length (downloads x)" "d = (downloads x)[k := (downloads x ! k)\<lparr>goroutine := w\<rparr>] ! j"
        by (simp_all add: assms(5))
      have one: "one_in_writer (downloads x)" using assms(2) by (simp add: shares_ok_def)
      show ?thesis
      proof (cases "j = k")
        case False
        then have "in_writer (goroutine (downloads x ! j)) = None"
          using one assms(3) j(1) k unfolding one_in_writer_def by metis
        with False show ?thesis by (simp add: j(2))
      qed (use assms(4) j k in simp)
    qed
    then show ?thesis by (simp add: writer_split_def writer_busy_def)
  qed
  ultimately show ?thesis using assms(2,6) run by (simp add: shares_ok_def)
qed

lemma shares_ok_quiet:
  assumes "worker_moves k w x" and "shares_ok x" and "in_writer w = None \<longrightarrow> in_writer (goroutine (downloads x ! k)) = None"
    and "in_writer w = in_writer (goroutine (downloads x ! k)) \<or> \<not> writer_busy x"
    and "downloads y = downloads (move_worker k w x)" and "wire_out (link y) = wire_out (link x)"
    and "writer_split y"
  shows "shares_ok y"
proof -
  have k: "k < length (downloads x)" "written w = written (goroutine (downloads x ! k))"
    using assms(1,3) read_step_written by (auto simp: worker_moves_def split: if_splits)
  then show ?thesis
    using assms one_after_another_move [OF assms(1,2)] one_in_writer_move [of x w k] workers_run_move [OF assms(1)]
    by (auto simp: shares_ok_def log_of_same)
qed

lemma writer_split_works:
  assumes "writer_split x" and "k < length (downloads x)"
    and "in_writer w = in_writer (goroutine (downloads x ! k))"
  shows "writer_split (move_worker k w x)"
proof -
  have "writer_busy x" if busy: "writer_busy (move_worker k w x)"
  proof -
    obtain j where j: "j < length (downloads x)"
      "in_writer (goroutine ((downloads x)[k := (downloads x ! k)\<lparr>goroutine := w\<rparr>] ! j)) \<noteq> None"
      using busy by (auto simp: writer_busy_def in_set_conv_nth)
    then have "in_writer (goroutine (downloads x ! j)) \<noteq> None" using assms(3) by (cases "j = k") auto
    with j(1) show ?thesis unfolding writer_busy_def by (metis nth_mem)
  qed
  with assms(1) show ?thesis by (auto simp: writer_split_def move_worker_def Let_def)
qed

text \<open>A writer that is writing a frame goes on with nothing else before it has written it.\<close>

lemma framing_on:
  "conn_step cb c c' \<Longrightarrow> from_streams (wire_out c') = from_streams (wire_out c) \<Longrightarrow>
   not_framing (writer c') \<Longrightarrow> not_framing (writer c)"
proof (induction rule: conn_step_induct)
  case (writer c c')
  from writer(1) show ?case by cases (use writer(2,3) in simp_all)
next
  case (worker c c')
  from worker(1) have "writer c' = writer c" by cases simp_all
  with worker(3) show ?case by simp
next
  case (reader c c')
  from reader(1) have "writer c' = writer c" by cases simp_all
  with reader(3) show ?case by simp
next
  case (handle c c')
  from handle(1) have "writer c' = writer c" by cases simp_all
  with handle(3) show ?case by simp
qed simp

lemma shares_ok_step: "serving_step cb x y \<Longrightarrow> shares_ok x \<Longrightarrow> shares_ok y"
proof (induction rule: serving_step.induct)
  case (connection x c)
  with framing_on [OF connection(1,2)] show ?case
    by (simp add: shares_ok_def writer_split_def writer_busy_def)
next
  case (opens x v i content)
  show ?case by (rule shares_ok_opens [OF opens(3,2)]) simp_all
next
  case (works k w x)
  have "writer_split (move_worker k w x)"
    by (rule writer_split_works) (use works in \<open>simp_all add: shares_ok_def worker_moves_def\<close>)
  then show ?case by (intro shares_ok_quiet [OF works(1,3)]) (use works(2) in simp_all)
next
  case (takes k w x)
  have "\<not> writer_busy x" using takes(4,5) by (simp add: shares_ok_def writer_split_def)
  show ?case
    by (rule shares_ok_quiet [OF takes(1,5)])
      (use \<open>\<not> writer_busy x\<close> takes(2,3) in \<open>simp_all add: writer_split_def\<close>)
next
  case (writes k w x)
  show ?case by (rule shares_ok_writes [OF writes(1,5,2,3)]) simp_all
qed

lemma shares_ok_start: "shares_ok (serving_start bs s h)"
  by (simp add: shares_ok_def serving_start_def Handle_def workers_run_def one_after_another_def
      one_in_writer_def frames_for_def log_of_def writer_split_def writer_busy_def)

lemma shares_ok_reachable: "(serving_step cb)\<^sup>*\<^sup>* (serving_start bs s h) x \<Longrightarrow> shares_ok x"
  by (induction rule: rtranclp_induct) (auto intro: shares_ok_start shares_ok_step)

text \<open>
  C13. Downloads that share a connection do not disturb each other: at every moment, whatever the
  commands, the other downloads and the scheduler do, the frames on the wire that carry the
  number of a stream are, one stream of that number after the other, those of a beginning of
  its file, byte for byte, followed at the end of the stream by the end frame after all of the
  file, or by the error frame.
\<close>

theorem downloads_share_the_wire:
  assumes "(serving_step cb)\<^sup>*\<^sup>* (serving_start bs s h) x"
  shows "\<exists>parts. frames_for i (from_streams (wire_out (link x))) = concat parts
    \<and> list_all2 (\<lambda>d fs. \<exists>ps. prefix (concat ps) (of_file d)
          \<and> (fs = map (blob_frame (Itoa (int i))) ps
             \<or> fs = map (blob_frame (Itoa (int i))) ps @ [end_frame (Itoa (int i))] \<and> concat ps = of_file d
             \<or> fs = map (blob_frame (Itoa (int i))) ps @ [NewTaggedValue read_error (Itoa (int i))]))
        (filter (\<lambda>d. number d = i) (downloads x)) parts"
proof -
  let ?ds = "filter (\<lambda>d. number d = i) (downloads x)"
  from shares_ok_reachable [OF assms] have ok: "shares_ok x" .
  have "logged i (log_of ds) = concat (map (written \<circ> goroutine) (filter (\<lambda>d. number d = i) ds))" for ds
    by (induction ds) (simp_all add: log_of_def)
  with ok have "frames_for i (from_streams (wire_out (link x))) = concat (map (written \<circ> goroutine) ?ds)"
    by (simp add: shares_ok_def)
  moreover have "(read_step (Itoa (int i)))\<^sup>*\<^sup>* (handleReadStream (of_file d)) (goroutine d)" if "d \<in> set ?ds" for d
    using ok that by (auto simp: shares_ok_def workers_run_def)
  ultimately show ?thesis
    by (intro exI [of _ "map (written \<circ> goroutine) ?ds"])
      (simp add: list_all2_map2 list_all2_same read_frames)
qed

section \<open>A download that nobody takes\<close>

lemma conn_ends_once:
  "conn_step cb c c' \<Longrightarrow> (writer_gone c \<longrightarrow> writer_gone c')
    \<and> (worker c = Worker_gone \<longrightarrow> worker c' = Worker_gone)
    \<and> (ended c' \<longrightarrow> ended c \<or> worker c' = Worker_gone \<and> stream_workers c' = 0)"
  by (induction rule: conn_step_induct) (auto elim!: conn_step_elims simp: writer_gone_def)

lemma live_pos: "d \<in> set ds \<Longrightarrow> \<not> returned (goroutine d) \<Longrightarrow> 0 < live ds"
  by (auto simp: live_def filter_empty_conv)

lemma live_Nil [simp]: "live [] = 0"
  by (simp add: live_def)

lemma live_append [simp]: "live (ds @ es) = live ds + live es"
  by (simp add: live_def)

lemma live_Cons [simp]: "live (d # ds) = (if returned (goroutine d) then 0 else 1) + live ds"
  by (simp add: live_def)

lemma live_move:
  assumes "worker_moves k w x" and "shares_ok x"
  shows "live (downloads (move_worker k w x)) =
    (if returned w \<and> \<not> returned (goroutine (downloads x ! k)) then live (downloads x) - 1
     else live (downloads x))"
proof -
  let ?ds = "downloads x" and ?d = "downloads x ! k"
  have k: "k < length ?ds" and step: "read_step (Itoa (int (number ?d))) (goroutine ?d) w"
    using assms(1) by (simp_all add: worker_moves_def)
  have "(read_step (Itoa (int (number ?d))))\<^sup>*\<^sup>* (handleReadStream (of_file ?d)) (goroutine ?d)"
    using assms(2) k by (simp add: shares_ok_def workers_run_def)
  from returned_offers [OF this] read_step_returned [OF step]
  have "returned (goroutine ?d) \<longrightarrow> returned w" by simp
  moreover have "live ?ds = live (take k ?ds) + live (?d # drop (Suc k) ?ds)"
    by (subst id_take_nth_drop [OF k]) (simp only: live_append)
  ultimately show ?thesis by (simp add: upd_conv_take_nth_drop [OF k])
qed

text \<open>
  The wait group counts every worker that has not returned; a connection that has ended has
  none, and no command runs in it any more.
\<close>

definition counted :: "'h serving \<Rightarrow> bool" where
  "counted x \<longleftrightarrow> shares_ok x \<and> live (downloads x) \<le> stream_workers (link x)
     \<and> (ended (link x) \<longrightarrow> worker (link x) = Worker_gone \<and> live (downloads x) = 0)"

lemma counted_move:
  assumes "worker_moves k w x" and "counted x"
  shows "live (downloads (move_worker k w x)) \<le> stream_workers (link (move_worker k w x))
    \<and> (ended (link x) \<longrightarrow> live (downloads (move_worker k w x)) = 0)"
  using live_move [OF assms(1)] assms(2) by (auto simp: counted_def move_worker_def Let_def)

lemma counted_step: "serving_step cb x y \<Longrightarrow> counted x \<Longrightarrow> counted y"
proof (induction rule: serving_step.induct)
  case (connection x c)
  from conn_ends_once [OF connection(1)] connection(4,5)
    shares_ok_step [OF serving_step.connection [OF connection(1-4)]]
  show ?case by (auto simp: counted_def)
next
  case (opens x v i content)
  from shares_ok_step [OF serving_step.opens [OF opens(1,2), of cb content]] opens
  show ?case by (auto simp: counted_def)
next
  case (works k w x)
  from shares_ok_step [OF serving_step.works [OF works(1,2)]] counted_move [OF works(1,3)] works(3)
  show ?case by (simp add: counted_def) (simp add: move_worker_def Let_def)
next
  case (takes k w x)
  from shares_ok_step [OF serving_step.takes [OF takes(1-4)]] counted_move [OF takes(1,5)] takes(5)
  show ?case by (simp add: counted_def) (simp add: move_worker_def Let_def)
next
  case (writes k w x)
  from shares_ok_step [OF serving_step.writes [OF writes(1-4)]] counted_move [OF writes(1,5)] writes(5)
  show ?case by (simp add: counted_def) (simp add: move_worker_def Let_def)
qed

lemma counted_reachable: "(serving_step cb)\<^sup>*\<^sup>* (serving_start bs s h) x \<Longrightarrow> counted x"
proof (induction rule: rtranclp_induct)
  case base
  then show ?case
    using shares_ok_start [of bs s h] by (simp add: counted_def serving_start_def Handle_def live_def)
qed (rule counted_step)

text \<open>A worker whose offer nobody takes.\<close>

definition starved :: "'h serving \<Rightarrow> bool" where
  "starved x \<longleftrightarrow> counted x \<and> writer_gone (link x)
     \<and> (\<exists>d \<in> set (downloads x). offered (goroutine d) \<noteq> None \<and> \<not> returned (goroutine d))"

lemma starved_open: "starved x \<Longrightarrow> \<not> ended (link x)"
  using live_pos by (fastforce simp: starved_def counted_def)

lemma starved_step: "serving_step cb x y \<Longrightarrow> starved x \<Longrightarrow> starved y"
proof -
  assume step: "serving_step cb x y" and st: "starved x"
  from counted_step [OF step] st have "counted y" by (simp add: starved_def)
  moreover from step st have "writer_gone (link y)
    \<and> (\<exists>d \<in> set (downloads y). offered (goroutine d) \<noteq> None \<and> \<not> returned (goroutine d))"
  proof (induction rule: serving_step.induct)
    case (connection x c)
    with conn_ends_once [OF connection(1)] show ?case by (simp add: starved_def)
  next
    case (works k w x)
    then obtain j where j: "j < length (downloads x)" "offered (goroutine (downloads x ! j)) \<noteq> None"
      "\<not> returned (goroutine (downloads x ! j))"
      by (auto simp: starved_def in_set_conv_nth)
    have "j \<noteq> k" using j works(1,2) read_step_offers by (fastforce simp: worker_moves_def)
    then have "downloads (move_worker k w x) ! j = downloads x ! j" by simp
    then have "downloads x ! j \<in> set (downloads (move_worker k w x))"
      using j(1) by (metis length_list_update move_worker_downloads(1) nth_mem)
    moreover have "writer_gone (link (move_worker k w x))"
      using works(3) by (simp add: starved_def writer_gone_def move_worker_def Let_def)
    ultimately show ?case using j(2,3) by blast
  next
    case (opens x v i content)
    then show ?case by (auto simp: starved_def writer_gone_def)
  qed (auto simp: starved_def writer_gone_def)
  ultimately show ?thesis by (simp add: starved_def)
qed

text \<open>
  C36. A download can keep its connection open for ever: once the writer has ended, because a
  write failed or after QUIT, a worker that still offers a frame is never released, since it
  waits for the writer alone and not for the end of the session; the session waits for the
  worker, and whatever happens from then on, the connection is not closed.
\<close>

theorem download_blocks_the_end:
  assumes "(serving_step cb)\<^sup>*\<^sup>* (serving_start bs s h) x" and "writer_gone (link x)"
    and "d \<in> set (downloads x)" and "offered (goroutine d) \<noteq> None"
  shows "\<forall>y. (serving_step cb)\<^sup>*\<^sup>* x y \<longrightarrow> \<not> ended (link y)"
proof (intro allI impI)
  from counted_reachable [OF assms(1)] have ok: "counted x" .
  then have "(read_step (Itoa (int (number d))))\<^sup>*\<^sup>* (handleReadStream (of_file d)) (goroutine d)"
    using assms(3) by (simp add: counted_def shares_ok_def workers_run_def)
  from returned_offers [OF this] assms(4) have "\<not> returned (goroutine d)" by auto
  with ok assms(2-4) have st: "starved x" by (auto simp: starved_def)
  fix y assume "(serving_step cb)\<^sup>*\<^sup>* x y"
  then have "starved y" by (induction rule: rtranclp_induct) (auto intro: st starved_step)
  then show "\<not> ended (link y)" by (rule starved_open)
qed

section \<open>A concrete run\<close>

text \<open>A step of the connection that writes nothing, among the same downloads.\<close>

lemma lift_conn:
  "conn_step cb c d \<Longrightarrow> wire_out d = wire_out c \<Longrightarrow> writer d \<noteq> Writing_frame \<Longrightarrow> live ds \<le> stream_workers d \<Longrightarrow>
   serving_step cb \<lparr>link = c, downloads = ds\<rparr> \<lparr>link = d, downloads = ds\<rparr>"
  using serving_step.connection [of cb "\<lparr>link = c, downloads = ds\<rparr>" d] by simp

text \<open>A command has been taken, a stream opened in it, and its first chunk is on offer.\<close>

abbreviation asked :: "unit conn" where
  "asked \<equiv> (Handle (requests []) new_session ())\<lparr>worker := Replying (NewString ''PONG''),
     got := [Cmd PING], handled := [Cmd PING]\<rparr>"

abbreviation first_chunk :: read_worker where
  "first_chunk \<equiv> (handleReadStream ''hi'')\<lparr>unread := [], cur := 1,
     bufs := (bufs (handleReadStream ''hi''))[1 := fill ''hi'' (bufs (handleReadStream ''hi'') ! 1)],
     offered := Some (Slice 1 (length ''hi''), False)\<rparr>"

abbreviation offering :: "unit conn \<Rightarrow> unit serving" where
  "offering c \<equiv> \<lparr>link = c, downloads = [\<lparr>number = 0, of_file = ''hi'', goroutine = first_chunk\<rparr>]\<rparr>"

abbreviation opened_one :: "unit conn" where
  "opened_one \<equiv> asked\<lparr>stream_workers := 1\<rparr>"

lemma asked_run:
  "(serving_step ponger)\<^sup>*\<^sup>* (serving_start (requests [PING]) new_session ()) \<lparr>link = asked, downloads = []\<rparr>"
proof -
  let ?c0 = "Handle (requests [PING]) new_session ()"
  let ?c1 = "?c0\<lparr>input := requests [], reader := Queueing (Cmd PING)\<rparr>"
  let ?c2 = "?c1\<lparr>reader := Reading, commands := [Cmd PING], got := [Cmd PING]\<rparr>"
  let ?c3 = "?c2\<lparr>worker := Replying (NewString ''PONG''), commands := [], sess := new_session, host := (),
      handled := [Cmd PING]\<rparr>"
  have "conn_step ponger ?c0 ?c1"
    using conn_reads [OF reader_step.read_value [of ?c0 "Array PING" "requests []"]] read_request [of PING "[]"]
      on_request [of PING new_session] by (simp add: Handle_def)
  then have 1: "serving_step ponger \<lparr>link = ?c0, downloads = []\<rparr> \<lparr>link = ?c1, downloads = []\<rparr>"
    by (rule lift_conn) (simp_all add: Handle_def)
  have "conn_step ponger ?c1 ?c2"
    using conn_reads [OF reader_step.enqueue [of ?c1 "Cmd PING"]] by (simp add: Handle_def chan_slots_def)
  then have 2: "serving_step ponger \<lparr>link = ?c1, downloads = []\<rparr> \<lparr>link = ?c2, downloads = []\<rparr>"
    by (rule lift_conn) (simp_all add: Handle_def)
  have "conn_step ponger ?c2 ?c3"
    using conn_works [OF worker_step.call [of ?c2 PING "[]" ponger]]
    by (simp add: Handle_def ponger_def commandIsQuit_def go_defs)
  then have 3: "serving_step ponger \<lparr>link = ?c2, downloads = []\<rparr> \<lparr>link = ?c3, downloads = []\<rparr>"
    by (rule lift_conn) (simp_all add: Handle_def)
  from 1 2 3 have "(serving_step ponger)\<^sup>*\<^sup>* \<lparr>link = ?c0, downloads = []\<rparr> \<lparr>link = ?c3, downloads = []\<rparr>"
    by (meson r_into_rtranclp rtranclp.rtrancl_into_rtrancl)
  then show ?thesis by (simp add: serving_start_def Handle_def)
qed

lemma offering_run: "(serving_step ponger)\<^sup>*\<^sup>* (serving_start (requests [PING]) new_session ()) (offering opened_one)"
proof -
  let ?x1 = "\<lparr>link = asked, downloads = []\<rparr>"
  let ?x2 = "\<lparr>link = asked\<lparr>stream_workers := 1\<rparr>,
      downloads = [\<lparr>number = 0, of_file = ''hi'', goroutine = handleReadStream ''hi''\<rparr>]\<rparr>"
  have 1: "(serving_step ponger)\<^sup>*\<^sup>* (serving_start (requests [PING]) new_session ()) ?x1"
    by (rule asked_run)
  have 2: "serving_step ponger ?x1 ?x2"
    using serving_step.opens [of ?x1 "NewString ''PONG''" 0 ponger "''hi''"] by (simp add: Handle_def)
  have "read_step (Itoa 0) (handleReadStream ''hi'') first_chunk"
    using read_step.chunk [of "handleReadStream ''hi''" "''hi''" "[]" "Itoa 0"]
    by (simp add: handleReadStream_def next_buf_def buf_size_def)
  then have "serving_step ponger ?x2 (move_worker 0 first_chunk ?x2)"
    by (intro serving_step.works) (simp_all add: worker_moves_def)
  then have 3: "serving_step ponger ?x2 (offering opened_one)"
    by (simp add: move_worker_def Handle_def)
  from 1 2 3 show ?thesis by (meson rtranclp.rtrancl_into_rtrancl)
qed

text \<open>The response is written, which fails, and the writer ends.\<close>

abbreviation broken :: "unit conn" where
  "broken \<equiv> opened_one\<lparr>worker := Waiting, sess := Terminate new_session,
     writer := Writer_gone (Write_failed (Some (NewString ''PONG'')))\<rparr>"

lemma broken_run: "(serving_step ponger)\<^sup>*\<^sup>* (offering opened_one) (offering broken)"
proof -
  let ?v = "NewString ''PONG''"
  let ?c1 = "opened_one\<lparr>worker := Waiting, cmdOut := [?v]\<rparr>"
  let ?c2 = "?c1\<lparr>writer := Writing_reply ?v, cmdOut := []\<rparr>"
  let ?c3 = "?c2\<lparr>writer := Writer_tells (Write_failed (Some ?v)), sess := Terminate (sess ?c2)\<rparr>"
  have "conn_step ponger opened_one ?c1"
    using conn_works [OF worker_step.reply [of opened_one ?v ponger]] by (simp add: Handle_def chan_slots_def)
  then have "serving_step ponger (offering opened_one) (offering ?c1)"
    by (rule lift_conn) (simp_all add: Handle_def)
  moreover have "conn_step ponger ?c1 ?c2"
    using conn_writes [OF writer_step.take_reply [of ?c1 ?v "[]"]] by (simp add: Handle_def)
  then have "serving_step ponger (offering ?c1) (offering ?c2)"
    by (rule lift_conn) (simp_all add: Handle_def)
  moreover have "conn_step ponger ?c2 ?c3"
    using conn_writes [OF writer_step.reply_fails [of ?c2 ?v]] by (simp add: Handle_def)
  then have "serving_step ponger (offering ?c2) (offering ?c3)"
    by (rule lift_conn) (simp_all add: Handle_def)
  moreover have "conn_step ponger ?c3 (?c3\<lparr>writer := Writer_gone (Write_failed (Some ?v))\<rparr>)"
    using conn_writes [OF writer_step.writer_told [of ?c3 "Write_failed (Some ?v)"]]
    by (simp add: Handle_def token_fits_def tokens_sent_def tokens_waiting_def term_slots_def Terminate_def new_session_def)
  then have "serving_step ponger (offering ?c3) (offering (?c3\<lparr>writer := Writer_gone (Write_failed (Some ?v))\<rparr>))"
    by (rule lift_conn) (simp_all add: Handle_def)
  ultimately have "(serving_step ponger)\<^sup>*\<^sup>* (offering opened_one) (offering (?c3\<lparr>writer := Writer_gone (Write_failed (Some ?v))\<rparr>))"
    by (meson r_into_rtranclp rtranclp.rtrancl_into_rtrancl)
  then show ?thesis by (simp add: Handle_def)
qed

theorem download_blocks_the_end_witness:
  "\<exists>x. (serving_step ponger)\<^sup>*\<^sup>* (serving_start (requests [PING]) new_session ()) x
    \<and> (\<forall>y. (serving_step ponger)\<^sup>*\<^sup>* x y \<longrightarrow> \<not> ended (link y))"
proof -
  from offering_run broken_run
  have run: "(serving_step ponger)\<^sup>*\<^sup>* (serving_start (requests [PING]) new_session ()) (offering broken)"
    by (rule rtranclp_trans)
  from download_blocks_the_end [OF this] run show ?thesis
    by (intro exI [of _ "offering broken"]) (simp add: writer_gone_def)
qed

text \<open>The writer takes the chunk and writes it out.\<close>

lemma chunk_on_the_wire:
  "\<exists>x. (serving_step ponger)\<^sup>*\<^sup>* (serving_start (requests [PING]) new_session ()) x
    \<and> wire_out (link x) = [From_stream (blob_frame (Itoa 0) ''hi'')]"
proof -
  let ?w1 = "first_chunk\<lparr>offered := None, in_writer := Some (Slice 1 (length ''hi'')), returned := False\<rparr>"
  let ?w2 = "?w1\<lparr>in_writer := None, written := written ?w1 @ [deref (Itoa 0) (bufs ?w1) (Slice 1 (length ''hi''))]\<rparr>"
  let ?x0 = "move_worker 0 ?w1 (offering opened_one)"
  let ?x1 = "?x0\<lparr>link := (link ?x0)\<lparr>writer := Writing_frame\<rparr>\<rparr>"
  let ?x2 = "(move_worker 0 ?w2 ?x1)\<lparr>link := (link (move_worker 0 ?w2 ?x1))\<lparr>writer := Writer_waits, wire_out :=
         wire_out (link ?x1) @ [From_stream (last (written ?w2))]\<rparr>\<rparr>"
  have "read_step (Itoa 0) first_chunk ?w1" by (rule read_step.received) simp_all
  then have 1: "serving_step ponger (offering opened_one) ?x1"
    by (intro serving_step.takes) (simp_all add: worker_moves_def writer_busy_def Handle_def)
  have "read_step (Itoa 0) ?w1 ?w2" by (rule read_step.written_out) simp
  then have 2: "serving_step ponger ?x1 ?x2"
    by (intro serving_step.writes) (simp_all add: worker_moves_def move_worker_def Let_def Handle_def)
  from offering_run 1 2 have "(serving_step ponger)\<^sup>*\<^sup>* (serving_start (requests [PING]) new_session ()) ?x2"
    by (meson rtranclp.rtrancl_into_rtrancl)
  moreover have "wire_out (link ?x2) = [From_stream (blob_frame (Itoa 0) ''hi'')]"
    by (simp add: Handle_def handleReadStream_def fill_def)
  ultimately show ?thesis by blast
qed

theorem downloads_share_the_wire_witness:
  "\<exists>x parts. (serving_step ponger)\<^sup>*\<^sup>* (serving_start (requests [PING]) new_session ()) x
    \<and> [blob_frame ''0'' ''hi''] = concat parts
    \<and> length parts = length (filter (\<lambda>d. number d = 0) (downloads x))"
proof -
  obtain x where x: "(serving_step ponger)\<^sup>*\<^sup>* (serving_start (requests [PING]) new_session ()) x"
    "wire_out (link x) = [From_stream (blob_frame (Itoa 0) ''hi'')]"
    using chunk_on_the_wire by blast
  from downloads_share_the_wire [OF x(1), of 0] obtain parts where
    "frames_for 0 (from_streams (wire_out (link x))) = concat parts"
    "length (filter (\<lambda>d. number d = 0) (downloads x)) = length parts"
    by (blast dest: list_all2_lengthD)
  moreover have "frames_for 0 (from_streams (wire_out (link x))) = [blob_frame ''0'' ''hi'']"
    by (simp add: x(2) frames_for_def NewTaggedValue_def go_defs)
  ultimately show ?thesis using x(1) by (intro exI [of _ x] exI [of _ parts]) simp
qed

end
