(* ===== verification/Server_Conn.thy ===== *)
theory Server_Conn
  imports Session_Loop Server_Props
begin

text \<open>
  The connections and the server together: the callback that \<open>main\<close> of
  \<^verbatim>\<open>src/cmd/fly-server/main.go\<close> hands to \<open>session.Handle\<close>, the server with the goroutines of all
  its connections, and the two ways in which that is an instance of the theories before: of the
  server of theory \<open>Server_Run\<close>, and of the single connection of theory \<open>Session_Loop\<close>.
\<close>

text \<open>
  The callback works on the \<open>sessionInfo\<close> of the connection, which shares the session with the
  goroutines, and on the server. A command that ends the process has no result.
\<close>

definition server_callback :: "'k env \<Rightarrow> (sessionInfo \<times> 'k server) callback" where
  "server_callback e cmd s h =
     (case dispatchCommand e cmd ((fst h)\<lparr>session := s\<rparr>) (snd h) of
        (Reply v, si, g) \<Rightarrow> Some (v, session si, (si, g))
      | _ \<Rightarrow> None)"

text \<open>The server as it is for the \<open>j\<close>-th client, whose connection is \<open>c\<close>, among others.\<close>

definition view :: "nat \<Rightarrow> sessionInfo list \<Rightarrow> (sessionInfo \<times> 'k server) conn \<Rightarrow> 'k system" where
  "view j others c =
     \<lparr>srv = snd (host c), clients = others[j := (fst (host c))\<lparr>session := sess c\<rparr>]\<rparr>"

lemma view_same:
  "host c' = host c \<Longrightarrow> sess c' = sess c \<Longrightarrow> view j others c' = view j others c"
  by (simp add: view_def)

lemma view_moves:
  assumes "host c' = host c" and "moves (sess c) (sess c')" and "j < length others"
  shows "serves ok (view j others c) (view j others c')"
proof -
  have "view j others c' = (view j others c)\<lparr>clients := (clients (view j others c))
      [j := (clients (view j others c) ! j)\<lparr>session := sess c'\<rparr>]\<rparr>"
    using assms(1,3) by (simp add: view_def)
  also have "serves ok (view j others c) \<dots>"
    using serves.background [of j "view j others c" "sess c'" ok] assms by (simp add: view_def)
  finally show ?thesis .
qed

lemma put_frame_moves: "holds s i x fs \<Longrightarrow> moves s (put_frame i f s)"
  using moves.frames_move [of i s] by (auto simp: holds_def put_frame_def)

lemma view_call:
  assumes "server_callback e vs (sess c) (host c) = Some (v, s, h)" and "j < length others"
    and "host c' = h" and "sess c' = s" and "\<And>cmd. ok e cmd"
  shows "serves ok (view j others c) (view j others c')"
proof -
  obtain si g where d: "dispatchCommand e vs ((fst (host c))\<lparr>session := sess c\<rparr>) (snd (host c)) = (Reply v, si, g)"
    and "s = session si" "h = (si, g)"
    using assms(1) by (auto simp: server_callback_def split: prod.splits outcome.splits)
  with serves.command [of j "view j others c" ok e vs v si g] assms(2-) show ?thesis
    by (simp add: view_def)
qed

text \<open>A step of a goroutine, seen from the server.\<close>

lemma goroutine_serves:
  assumes "goroutine_step (server_callback e) c c'" and "j < length others" and "\<And>cmd. ok e cmd"
  shows "view j others c' = view j others c \<or> serves ok (view j others c) (view j others c')"
  using assms(1)
proof cases
  case reader_runs
  then show ?thesis
  proof cases
    case (feed i x f fs)
    then show ?thesis using view_moves [OF _ _ assms(2), of c' c ok] put_frame_moves [OF feed(3)] by simp
  qed (use view_moves [OF _ _ assms(2), of c' c ok] moves.told_to_end view_same [of c' c j others] in simp_all)
next
  case worker_runs
  then show ?thesis
  proof cases
    case (call vs qs v s h)
    then show ?thesis using view_call [OF call(5) assms(2), of c' ok] assms(3) by simp
  qed (use view_same [of c' c j others] in simp_all)
next
  case writer_runs
  then show ?thesis
    by cases (use view_moves [OF _ _ assms(2), of c' c ok] moves.told_to_end view_same [of c' c j others] in simp_all)
next
  case handle_runs
  then show ?thesis by cases (use view_same [of c' c j others] in simp_all)
qed

section \<open>The server with its connections\<close>

text \<open>
  The server and its sessions, and the connection of each. What a connection keeps of the
  session and of the server is brought up to date whenever one of its goroutines runs, for in the
  source they share them.
\<close>

record 'k network =
  core :: "'k system"
  conns :: "(sessionInfo \<times> 'k server) conn list"

definition listening :: "'k system \<Rightarrow> 'k network" where
  "listening S = \<lparr>core = S, conns = []\<rparr>"

definition conn_of :: "'k network \<Rightarrow> nat \<Rightarrow> (sessionInfo \<times> 'k server) conn" where
  "conn_of N j = (conns N ! j)\<lparr>sess := session (clients (core N) ! j), host := (clients (core N) ! j, srv (core N))\<rparr>"

definition put_conn :: "nat \<Rightarrow> (sessionInfo \<times> 'k server) conn \<Rightarrow> 'k network \<Rightarrow> 'k network" where
  "put_conn j c N = \<lparr>core = view j (clients (core N)) c, conns = (conns N)[j := c]\<rparr>"

text \<open>
  A connection is accepted; a goroutine of a connection runs, a command that it calls having an
  environment in \<open>E\<close>; a stream of a connection moves or ends, or its goroutine is counted; the
  certificate is renewed; the operating system changes; time passes.
\<close>

inductive network_step :: "('k env \<Rightarrow> bool) \<Rightarrow> 'k network \<Rightarrow> 'k network \<Rightarrow> bool" for E where
  accept: "network_step E N
    (N\<lparr>core := (core N)\<lparr>clients := clients (core N) @ [new_sessionInfo]\<rparr>,
       conns := conns N @ [Handle bs new_session (new_sessionInfo, srv (core N))]\<rparr>)"
| goroutine: "j < length (conns N) \<Longrightarrow> E e \<Longrightarrow> goroutine_step (server_callback e) (conn_of N j) c \<Longrightarrow>
    network_step E N (put_conn j c N)"
| stream: "j < length (conns N) \<Longrightarrow> moves (session (clients (core N) ! j)) t \<Longrightarrow>
    network_step E N
      (N\<lparr>core := (core N)\<lparr>clients := (clients (core N))[j := (clients (core N) ! j)\<lparr>session := t\<rparr>]\<rparr>\<rparr>)"
| counts: "j < length (conns N) \<Longrightarrow>
    network_step E N (N\<lparr>conns := (conns N)[j := (conns N ! j)\<lparr>stream_workers := n\<rparr>]\<rparr>)"
| renewal: "tdb st = flydb (srv (core N)) \<Longrightarrow>
    network_step E N (N\<lparr>core := (core N)\<lparr>srv := put_db (tdb (renew L f seed t st)) (srv (core N))\<rparr>\<rparr>)"
| world: "network_step E N (N\<lparr>core := (core N)\<lparr>srv := srv (core N)\<lparr>sys := k\<rparr>\<rparr>\<rparr>)"
| tick: "now (srv (core N)) \<le> t \<Longrightarrow>
    network_step E N (N\<lparr>core := (core N)\<lparr>srv := srv (core N)\<lparr>now := t\<rparr>\<rparr>\<rparr>)"

inductive_cases network_stepE: "network_step E N M"

lemma view_conn_of: "view j (clients (core N)) (conn_of N j) = core N"
  by (cases "core N") (simp add: view_def conn_of_def)

lemma network_serves:
  assumes "network_step E N M" and "length (conns N) = length (clients (core N))"
  shows "(core M = core N \<or> serves (\<lambda>e cmd. E e) (core N) (core M)) \<and> length (conns M) = length (clients (core M))"
  using assms(1)
proof cases
  case accept
  then show ?thesis using assms(2) serves.connect [of "\<lambda>e cmd. E e" "core N"] by simp
next
  case (goroutine j e c)
  from goroutine_serves [OF goroutine(4), of j "clients (core N)" "\<lambda>e cmd. E e"] goroutine(2,3) assms(2)
  show ?thesis by (simp add: goroutine(1) put_conn_def view_conn_of) (simp add: view_def)
next
  case (stream j t)
  then show ?thesis using assms(2) serves.background [of j "core N" t "\<lambda>e cmd. E e"] by simp
next
  case (renewal st L f seed t)
  then show ?thesis using assms(2) serves.renewal [OF renewal(2), of "\<lambda>e cmd. E e" L f seed t] by simp
next
  case (world k)
  then show ?thesis using assms(2) serves.world [of "\<lambda>e cmd. E e" "core N" k] by simp
next
  case (tick t)
  then show ?thesis using assms(2) serves.tick [of "core N" t "\<lambda>e cmd. E e"] by simp
qed (use assms(2) in simp_all)

text \<open>And seen from one connection: its own step, or a step of its world, or both.\<close>

lemma conn_world:
  "terminated (sess c) \<le> terminated (sess c') \<Longrightarrow>
   c' = c\<lparr>sess := sess c', host := host c', stream_workers := stream_workers c'\<rparr> \<Longrightarrow> conn_step cb c c'"
  using conn_step.world [where c = c and s = "sess c'" and h = "host c'" and n = "stream_workers c'"] by metis

lemma network_conn:
  assumes "network_step (\<lambda>x. x = e) N M" and "length (conns N) = length (clients (core N))"
    and "i < length (conns N)" and "\<forall>s \<in> set (clients (core N)). client_wf s"
  shows "(conn_step (server_callback e))\<^sup>*\<^sup>* (conn_of N i) (conn_of M i)"
  using assms(1)
proof cases
  case accept
  then have "conn_of M i = conn_of N i" using assms(2,3) by (simp add: conn_of_def nth_append)
  then show ?thesis by simp
next
  case (goroutine j e' c)
  show ?thesis
  proof (cases "i = j")
    case True
    have "conn_step (server_callback e) c (conn_of M i)"
      by (rule conn_world) (use goroutine True assms(2) in \<open>simp_all add: put_conn_def conn_of_def view_def\<close>)
    moreover have "conn_step (server_callback e) (conn_of N i) c"
      using goroutine(3,4) True conn_step.own by blast
    ultimately show ?thesis by (meson converse_rtranclp_into_rtranclp r_into_rtranclp)
  next
    case False
    have "conn_step (server_callback e) (conn_of N i) (conn_of M i)"
      by (rule conn_world) (use goroutine False assms(2,3) in \<open>simp_all add: put_conn_def conn_of_def view_def\<close>)
    then show ?thesis by blast
  qed
next
  case (stream j t)
  have wf: "session_wf (session (clients (core N) ! j))" if "j = i"
    using assms(2-4) that by (simp add: client_wf_def)
  have "conn_step (server_callback e) (conn_of N i) (conn_of M i)"
    by (rule conn_world)
      (use stream assms(2,3) wf moves_wf [OF stream(3)] in \<open>auto simp: conn_of_def nth_list_update\<close>)
  then show ?thesis by blast
next
  case (counts j n)
  have "conn_step (server_callback e) (conn_of N i) (conn_of M i)"
    by (rule conn_world) (use counts assms(3) in \<open>auto simp: conn_of_def nth_list_update\<close>)
  then show ?thesis by blast
qed (auto simp: conn_of_def intro!: r_into_rtranclp conn_world)

text \<open>
  C14. The server with all its connections is what the other theories take it for. Whatever
  interleaving of the goroutines of all connections, of streams, of renewals of the certificate
  and of the operating system: seen from the server, every step is a connection that is
  accepted, an answered command of one client, a movement in one session, one of the steps of its
  environment that its step relation has, or nothing; so every state it reaches is one that
  \<open>runs\<close> reaches, and what holds in all of those holds here. And seen from any one connection,
  while the environment of commands stays the same, everything that happens is a step of that
  connection as theory \<open>Session_Loop\<close> has it, whose callback is the dispatcher of the server; so
  what holds of a connection whatever the world does holds of each of them.
\<close>

theorem connection_refines_server:
  assumes "boot K hasher env d files rnd t k = Some S" and "(network_step E)\<^sup>*\<^sup>* (listening S) N"
  shows "runs (\<lambda>e cmd. E e) S (core N) \<and> length (conns N) = length (clients (core N))
    \<and> (\<forall>M. network_step E N M \<longrightarrow> core M = core N \<or> serves (\<lambda>e cmd. E e) (core N) (core M))
    \<and> (\<forall>e i. E = (\<lambda>x. x = e) \<and> i < length (conns N) \<longrightarrow>
         (\<exists>bs h. (conn_step (server_callback e))\<^sup>*\<^sup>* (Handle bs new_session h) (conn_of N i)))"
proof -
  have "runs (\<lambda>e cmd. E e) S (core N) \<and> length (conns N) = length (clients (core N))
    \<and> (\<forall>e i. E = (\<lambda>x. x = e) \<and> i < length (conns N) \<longrightarrow>
         (\<exists>bs h. (conn_step (server_callback e))\<^sup>*\<^sup>* (Handle bs new_session h) (conn_of N i)))"
    using assms(2)
  proof (induction rule: rtranclp_induct)
    case base
    from boot_started [OF assms(1)] show ?case by (auto simp: listening_def)
  next
    case (step N M)
    then have ok: "runs (\<lambda>e cmd. E e) S (core N)" "length (conns N) = length (clients (core N))" by simp_all
    from network_serves [OF step(2) ok(2)] have "runs (\<lambda>e cmd. E e) S (core M)" "length (conns M) = length (clients (core M))"
      using ok(1) runs_step by fastforce+
    moreover have "\<exists>bs h. (conn_step (server_callback e))\<^sup>*\<^sup>* (Handle bs new_session h) (conn_of M i)"
      if "E = (\<lambda>x. x = e)" "i < length (conns M)" for e i
    proof (cases "i < length (conns N)")
      case True
      with step(3) that(1) obtain bs h where
        "(conn_step (server_callback e))\<^sup>*\<^sup>* (Handle bs new_session h) (conn_of N i)" by blast
      moreover have "\<forall>s \<in> set (clients (core N)). client_wf s"
        using runs_wf [OF ok(1) boot_wf [OF assms(1)]] by (simp add: system_wf_def)
      ultimately show ?thesis
        using network_conn [OF step(2) [unfolded that(1)] ok(2) True] rtranclp_trans by fast
    next
      case False
      from step(2) show ?thesis
      proof cases
        case (accept bs)
        then have "conn_of M i = Handle bs new_session (new_sessionInfo, srv (core N))"
          using False that(2) ok(2) by (simp add: conn_of_def nth_append less_Suc_eq Handle_def new_sessionInfo_def)
        then show ?thesis by (metis rtranclp.rtrancl_refl)
      qed (use False that(2) in \<open>simp_all add: put_conn_def\<close>)
    qed
    ultimately show ?case by blast
  qed
  then show ?thesis using network_serves by blast
qed

text \<open>One connection is accepted, and its reader finds that the client has gone.\<close>

theorem connection_refines_server_witness:
  "\<exists>N. (network_step (\<lambda>x. x = plain_env))\<^sup>*\<^sup>* (listening fresh_system) N \<and> reader (conn_of N 0) = Reader_tells
    \<and> runs (\<lambda>e cmd. e = plain_env) fresh_system (core N) \<and> length (clients (core N)) = 1"
proof -
  let ?E = "\<lambda>x. x = plain_env"
  let ?N = "(listening fresh_system)\<lparr>core := fresh_system\<lparr>clients := [new_sessionInfo]\<rparr>,
      conns := [Handle [] new_session (new_sessionInfo, srv fresh_system)]\<rparr>"
  have 1: "network_step ?E (listening fresh_system) ?N"
    using network_step.accept [of ?E "listening fresh_system" "[]"] by (simp add: listening_def fresh_system_def)
  obtain m rest where r: "Read conn_reader [] = (Inl (ErrIO m), rest)"
    by (simp add: Read_def readValue.simps wrapIO_def)
  let ?c = "(conn_of ?N 0)\<lparr>input := rest, reader := Reader_tells, sess := Terminate (sess (conn_of ?N 0))\<rparr>"
  have "reader_step (conn_of ?N 0) ?c"
    by (rule reader_step.read_io [of _ m]) (use r in \<open>simp_all add: conn_of_def Handle_def\<close>)
  then have 2: "network_step ?E ?N (put_conn 0 ?c ?N)"
    by (intro network_step.goroutine goroutine_step.reader_runs) simp_all
  from 1 2 have run: "(network_step ?E)\<^sup>*\<^sup>* (listening fresh_system) (put_conn 0 ?c ?N)"
    by (meson r_into_rtranclp rtranclp.rtrancl_into_rtrancl)
  from connection_refines_server [OF boot_fresh this] run show ?thesis
    by (intro exI [of _ "put_conn 0 ?c ?N"]) (simp add: put_conn_def conn_of_def view_def)
qed

end
