(* ===== verification/Server_Overlap.thy ===== *)
theory Server_Overlap
  imports Server_Props
begin

text \<open>
  Commands that overlap. A command first reads from the database, in a transaction of its own,
  whether there are users and whether its own still exists (\<open>update\<close> in
  \<open>dispatchCommand\<close>, \<^verbatim>\<open>src/cmd/fly-server/main.go\<close>); then its handler runs, which decides
  by what was read then. Between the two the commands of other connections may run. In theory
  \<open>Server_Run\<close> a command is one step; here it is two, and what still holds, and what does not,
  is proved again. The goroutine that renews the certificate comes in between as it does there.
\<close>

section \<open>The code\<close>

text \<open>The system, and for every client the command that has been read but not yet handled.\<close>

record 'k overlap =
  at :: "'k system"
  inflight :: "wvalue list option list"

inductive overlaps :: "'k overlap \<Rightarrow> 'k overlap \<Rightarrow> bool" where
  joins: "overlaps S (S\<lparr>at := (at S)\<lparr>clients := clients (at S) @ [new_sessionInfo]\<rparr>,
      inflight := inflight S @ [None]\<rparr>)"
| updates: "i < length (clients (at S)) \<Longrightarrow> inflight S ! i = None \<Longrightarrow> cmd = String n # args \<Longrightarrow>
    (getCommandHandler e n :: 'k handler option) \<noteq> None \<Longrightarrow>
    overlaps S (S\<lparr>at := (at S)\<lparr>clients := (clients (at S))[i := update (flydb (srv (at S))) (clients (at S) ! i)]\<rparr>,
      inflight := (inflight S)[i := Some cmd]\<rparr>)"
| handles: "i < length (clients (at S)) \<Longrightarrow> inflight S ! i = Some (String n # args) \<Longrightarrow>
    getCommandHandler e n = Some h \<Longrightarrow> h args (clients (at S) ! i) (srv (at S)) = (Reply w, s', g') \<Longrightarrow>
    overlaps S (S\<lparr>at := (at S)\<lparr>srv := g', clients := (clients (at S))[i := s']\<rparr>,
      inflight := (inflight S)[i := None]\<rparr>)"
| background: "i < length (clients (at S)) \<Longrightarrow> moves (session (clients (at S) ! i)) t \<Longrightarrow>
    overlaps S (S\<lparr>at := (at S)\<lparr>clients := (clients (at S))[i := (clients (at S) ! i)\<lparr>session := t\<rparr>]\<rparr>\<rparr>)"
| renewal: "tdb st = flydb (srv (at S)) \<Longrightarrow>
    overlaps S (S\<lparr>at := (at S)\<lparr>srv := put_db (tdb (renew L f seed t st)) (srv (at S))\<rparr>\<rparr>)"
| world: "overlaps S (S\<lparr>at := (at S)\<lparr>srv := srv (at S)\<lparr>sys := k\<rparr>\<rparr>\<rparr>)"
| tick: "now (srv (at S)) \<le> t \<Longrightarrow> overlaps S (S\<lparr>at := (at S)\<lparr>srv := srv (at S)\<lparr>now := t\<rparr>\<rparr>\<rparr>)"

definition alone :: "'k system \<Rightarrow> 'k overlap" where
  "alone S = \<lparr>at = S, inflight = replicate (length (clients S)) None\<rparr>"

section \<open>What overlapping commands keep\<close>

lemma overlap_wf_step: "overlaps S T \<Longrightarrow> system_wf (at S) \<Longrightarrow> system_wf (at T)"
proof (induction rule: overlaps.induct)
  case (updates i S cmd n args e)
  then have "client_wf (update (flydb (srv (at S))) (clients (at S) ! i))"
    using update_client_wf by (simp add: system_wf_def)
  with updates(5) show ?case by (auto simp: system_wf_def dest!: set_mp [OF set_update_subset_insert])
next
  case (handles i S n args e h w s' g')
  from handles(5) handles(1) have wf: "db_wf (flydb (srv (at S)))" "client_wf (clients (at S) ! i)"
    "only_tls_error (flydb (srv (at S)))" by (simp_all add: system_wf_def)
  from handles(3,4) obtain op where "accounts_for (fault e) op (Reply w) (flydb (srv (at S))) (flydb g')"
    by (rule handler_op)
  from accounts_ok [OF this wf(3)] handler_keeps [OF handles(3,4) wf(1,2)] handles(5) show ?case
    by (auto simp: system_wf_def dest!: set_mp [OF set_update_subset_insert])
next
  case (background i S t)
  then have "client_wf ((clients (at S) ! i)\<lparr>session := t\<rparr>)"
    using moves_client_wf by (simp add: system_wf_def)
  with background(3) show ?case by (auto simp: system_wf_def dest!: set_mp [OF set_update_subset_insert])
next
  case (renewal st S L f seed t)
  with renewal_keeps [of st "srv (at S)"] show ?case by (simp add: system_wf_def)
qed (auto simp: system_wf_def)

text \<open>
  C8. Overlapping commands keep the server in order: whatever interleaving of reading and
  handling the commands of all clients and of renewals of the certificate, in every state from
  the start on the database is well formed, an error is pending in it only if a renewal has
  failed, and every session is in order, as when commands run one after the other.
\<close>

theorem overlap_invariant:
  assumes "boot K hasher env d files got t k = Some S" and "overlaps\<^sup>*\<^sup>* (alone S) T"
  shows "db_wf (flydb (srv (at T))) \<and> (\<forall>x. err (flydb (srv (at T))) = Some x \<longrightarrow> tls_error_text x)
    \<and> (\<forall>s \<in> set (clients (at T)). session_wf (session s) \<and> (terminated (session s) = 0 \<longrightarrow> identity s))"
proof -
  have "system_wf (at T)"
    using assms(2)
    by (induction rule: rtranclp_induct) (use boot_wf [OF assms(1)] overlap_wf_step in \<open>auto simp: alone_def\<close>)
  then show ?thesis by (auto simp: system_wf_def client_wf_def only_tls_error_def)
qed

theorem overlap_invariant_witness:
  "db_wf (flydb (srv (at (alone fresh_system))))"
  using overlap_invariant [OF boot_fresh rtranclp.rtrancl_refl] by simp

section \<open>A race for the first user\<close>

lemma AddUser_new:
  assumes "err db = None" and "FindUser db (Username u) = None"
  shows "\<exists>db'. AddUser No_fault u db = (None, db') \<and> err db' = None
    \<and> (\<forall>n. FindUser db' n = (if n = Username u then Some u else FindUser db n))"
  using assms
  by (simp add: AddUser_def FindUser_def put_user_def writeUsers_def db_result_def Let_def update_conv')

text \<open>A handler that was told that there are no users makes its user an administrator.\<close>

definition can_register :: "'k env \<Rightarrow> string \<Rightarrow> string \<Rightarrow> bool" where
  "can_register e n pw \<longleftrightarrow> ValidateUsername n \<and> 1 \<le> length n \<and> length n \<le> 32 \<and> pw \<noteq> [] \<and> fault e = No_fault
     \<and> (\<forall>seed. \<exists>hash. GenerateFromPassword (bc e) seed pw = Inr hash)"

lemma stale_adduser:
  assumes "can_register e n pw" and "singleUser s"
    and "err (flydb g) = None" and "FindUser (flydb g) n = None"
  shows "\<exists>u s' g'. handleAddUser e [String n, String pw] s g = (Reply OK, s', g')
    \<and> Admin u \<and> username s' = n \<and> suser s' = Some u \<and> err (flydb g') = None
    \<and> (\<forall>m. FindUser (flydb g') m = (if m = n then Some u else FindUser (flydb g) m))"
proof -
  from assms(1) obtain hash where h: "GenerateFromPassword (bc e) (rand g) pw = Inr hash"
    unfolding can_register_def by blast
  let ?u = "\<lparr>Username = n, Password = hash, Chroot = [], Admin = True\<rparr>"
  from AddUser_new [OF assms(3), of ?u] assms(4) obtain db where db: "AddUser No_fault ?u (flydb g) = (None, db)"
    "err db = None" "\<forall>m. FindUser db m = (if m = n then Some ?u else FindUser (flydb g) m)" by auto
  with h assms(1,2) have "handleAddUser e [String n, String pw] s g
      = (Reply OK, changeUser db n s, put_db db (g\<lparr>rand := Suc (rand g)\<rparr>))"
    by (auto simp: handleAddUser_def can_register_def hash_password_def register_user_def put_db_def)
  with db show ?thesis
    by (intro exI [of _ ?u] exI [of _ "changeUser db n s"] exI [of _ "put_db db (g\<lparr>rand := Suc (rand g)\<rparr>)"])
      (simp add: changeUser_def put_db_def)
qed

lemma adduser_handler [simp]: "getCommandHandler e ''ADDUSER'' = Some (handleAddUser e)"
  by (simp add: getCommandHandler_def commandHandlers_def go_defs)

text \<open>Two clients on a server without users, who have both been told so.\<close>

abbreviation ADDUSER :: "string \<Rightarrow> string \<Rightarrow> wvalue list" where
  "ADDUSER n pw \<equiv> [String ''ADDUSER'', String n, String pw]"

lemma both_told:
  assumes "clients S = [new_sessionInfo, new_sessionInfo]" and "NumUsers (flydb (srv S)) = 0"
  shows "overlaps\<^sup>*\<^sup>* (alone S) \<lparr>at = S\<lparr>clients := [new_sessionInfo\<lparr>singleUser := True\<rparr>,
    new_sessionInfo\<lparr>singleUser := True\<rparr>]\<rparr>, inflight = [Some (ADDUSER a p), Some (ADDUSER b q)]\<rparr>"
proof -
  let ?told = "new_sessionInfo\<lparr>singleUser := True\<rparr>"
  have told: "update (flydb (srv S)) new_sessionInfo = ?told"
    using assms(2) by (simp add: update_def new_sessionInfo_def)
  let ?T = "\<lparr>at = S\<lparr>clients := [?told, new_sessionInfo]\<rparr>, inflight = [Some (ADDUSER a p), None]\<rparr>"
  have "overlaps (alone S) ?T"
    using overlaps.updates [of 0 "alone S" "ADDUSER a p" "''ADDUSER''" "[String a, String p]"] assms(1) told
    by (simp add: alone_def)
  moreover have "overlaps ?T \<lparr>at = S\<lparr>clients := [?told, ?told]\<rparr>, inflight = [Some (ADDUSER a p), Some (ADDUSER b q)]\<rparr>"
    using overlaps.updates [of 1 ?T "ADDUSER b q" "''ADDUSER''" "[String b, String q]"] told by simp
  ultimately show ?thesis by (meson converse_rtranclp_into_rtranclp rtranclp.rtrancl_refl)
qed

text \<open>
  C38. Two clients can both become the first user: when both send ADDUSER to a server without
  users, and both commands have looked for users before either has added one, both succeed,
  both users are administrators and both sessions are logged in, although neither client has
  authenticated. Hashing a password, which takes its time, lies between the two transactions.
\<close>

theorem first_user_race:
  fixes S :: "'k system" and e :: "'k env"
  assumes "clients S = [new_sessionInfo, new_sessionInfo]" and "NumUsers (flydb (srv S)) = 0"
    and "err (flydb (srv S)) = None" and "can_register e a p" and "can_register e b q" and "a \<noteq> b"
  shows "\<exists>T u v. overlaps\<^sup>*\<^sup>* (alone S) T
    \<and> FindUser (flydb (srv (at T))) a = Some u \<and> Admin u \<and> FindUser (flydb (srv (at T))) b = Some v \<and> Admin v
    \<and> map suser (clients (at T)) = [Some u, Some v]"
proof -
  let ?told = "new_sessionInfo\<lparr>singleUser := True\<rparr>"
  let ?T1 = "\<lparr>at = S\<lparr>clients := [?told, ?told]\<rparr>, inflight = [Some (ADDUSER a p), Some (ADDUSER b q)]\<rparr>"
  have none: "FindUser (flydb (srv S)) n = None" for n
    using assms(2) by (simp add: NumUsers_def FindUser_def)
  from stale_adduser [OF assms(4), of ?told "srv S"] assms(3) none obtain u s1 g1 where
    1: "handleAddUser e [String a, String p] ?told (srv S) = (Reply OK, s1, g1)" "Admin u" "suser s1 = Some u"
      "err (flydb g1) = None" "\<forall>m. FindUser (flydb g1) m = (if m = a then Some u else None)"
    by auto
  let ?T2 = "\<lparr>at = S\<lparr>srv := g1, clients := [s1, ?told]\<rparr>, inflight = [None, Some (ADDUSER b q)]\<rparr>"
  have 2: "overlaps ?T1 ?T2"
    using overlaps.handles [of 0 ?T1 "''ADDUSER''" "[String a, String p]" e _ OK s1 g1] 1(1) by simp
  from stale_adduser [OF assms(5), of ?told g1] 1(4,5) assms(6) obtain v s2 g2 where
    3: "handleAddUser e [String b, String q] ?told g1 = (Reply OK, s2, g2)" "Admin v" "suser s2 = Some v"
      "\<forall>m. FindUser (flydb g2) m = (if m = b then Some v else FindUser (flydb g1) m)"
    by auto
  let ?T3 = "\<lparr>at = S\<lparr>srv := g2, clients := [s1, s2]\<rparr>, inflight = [None, None]\<rparr>"
  have 4: "overlaps ?T2 ?T3"
    using overlaps.handles [of 1 ?T2 "''ADDUSER''" "[String b, String q]" e _ OK s2 g2] 3(1) by simp
  from both_told [OF assms(1,2), of a p b q] 2 4 have "overlaps\<^sup>*\<^sup>* (alone S) ?T3"
    by (meson rtranclp.rtrancl_into_rtrancl)
  with 1 3 assms(6) show ?thesis
    by (intro exI [of _ ?T3] exI [of _ u] exI [of _ v]) simp
qed

theorem first_user_race_witness:
  "\<exists>T u v. overlaps\<^sup>*\<^sup>* (alone (fresh_system\<lparr>clients := [new_sessionInfo, new_sessionInfo]\<rparr>)) T
    \<and> FindUser (flydb (srv (at T))) ''eve'' = Some u \<and> Admin u
    \<and> FindUser (flydb (srv (at T))) ''root'' = Some v \<and> Admin v"
proof -
  have r: "can_register plain_env ''eve'' ''x''" "can_register plain_env ''root'' ''y''"
    by (simp_all add: can_register_def any_hash_def go_defs)
  have "NumUsers (flydb (srv fresh_system)) = 0" "err (flydb (srv fresh_system)) = None"
    by (simp_all add: fresh_system_def NumUsers_fresh NumUsers_def)
  with first_user_race [OF _ _ _ r, of "fresh_system\<lparr>clients := [new_sessionInfo, new_sessionInfo]\<rparr>"]
  show ?thesis by auto
qed

end
