(* ===== verification/Client.thy ===== *)
theory Client
  imports Wire_Codec Go_Path
begin

text \<open>
  The command line client, first part: commands over a connection and the two transfers,
  \<^verbatim>\<open>src/cmd/fly/utils.go\<close> (\<open>sendCommand\<close>) and
  \<^verbatim>\<open>src/cmd/fly/fly-cp.go\<close> (\<open>statRemoteFile\<close>, \<open>download\<close>, \<open>upload\<close>).
\<close>

section \<open>The client's world\<close>

datatype node = Regular_file bytes | Folder | Special

text \<open>
  What the server will send from now on, until the connection breaks; the values the client has
  written to the connection; its local files.
\<close>

record client =
  incoming :: bytes
  sent_values :: "wvalue list"
  lfiles :: "string \<rightharpoonup> node"

text \<open>
  Which calls fail, and with what error: the error of a broken connection, the \<open>n\<close>-th write to
  the connection, calls for a path, the \<open>n\<close>-th write to a file (with the number of bytes that
  are written before it fails). \<open>chunks\<close> is what the reads of an opened file deliver, up to its
  end or an error. The last four fields are for connecting: the home directory, dialling a
  host, the certificate presented on the \<open>n\<close>-th connection and SHA-256.
\<close>

record client_env =
  conn_error :: string
  send_fault :: "nat \<Rightarrow> string option"
  stat_fault :: "string \<Rightarrow> string option"
  open_fault :: "string \<Rightarrow> string option"
  create_fault :: "string \<Rightarrow> string option"
  write_fault :: "nat \<Rightarrow> (nat \<times> string) option"
  rename_fault :: "string \<Rightarrow> string \<Rightarrow> string option"
  chunks :: "string \<Rightarrow> bytes list \<times> string option"
  home :: "string + string"
  dial_fault :: "string \<Rightarrow> string option"
  peer_cert :: "nat \<Rightarrow> bytes"
  sha256 :: "bytes \<Rightarrow> bytes"

text \<open>
  How the client ends: by itself, after a message, through \<open>log.Fatalf\<close>, or by a panic.
\<close>

datatype exit = Finished | Returned string | Fatal_exit string | Crash string

section \<open>Commands\<close>

definition read_failure :: "rerror \<Rightarrow> exit" where
  "read_failure x =
     (case x of
        Panic m \<Rightarrow> Crash m
      | ErrIO m \<Rightarrow> Fatal_exit (''Failed to read from socket: '' @ m)
      | ErrFormat m \<Rightarrow> Fatal_exit (''Failed to read from socket: '' @ m)
      | NoFuel \<Rightarrow> Crash [])"

text \<open>One value written to the connection.\<close>

definition send :: "client_env \<Rightarrow> wvalue \<Rightarrow> client \<Rightarrow> string option \<times> client" where
  "send e v c =
     (case send_fault e (length (sent_values c)) of
        Some x \<Rightarrow> (Some x, c)
      | None \<Rightarrow> (None, c\<lparr>sent_values := sent_values c @ [v]\<rparr>))"

definition receive_value :: "client_env \<Rightarrow> client \<Rightarrow> (exit + wvalue) \<times> client" where
  "receive_value e c =
     (case Read (NewReader (conn_error e)) (incoming c) of
        (Inl x, rest) \<Rightarrow> (Inl (read_failure x), c\<lparr>incoming := rest\<rparr>)
      | (Inr v, rest) \<Rightarrow> (Inr v, c\<lparr>incoming := rest\<rparr>))"

definition sendCommand ::
  "client_env \<Rightarrow> string \<Rightarrow> string list \<Rightarrow> client \<Rightarrow> (exit + wvalue) \<times> client" where
  "sendCommand e name args c =
     (case send e (NewArray (map NewString (name # args))) c of
        (Some x, c1) \<Rightarrow> (Inl (Fatal_exit (''Failed to write to socket: '' @ x)), c1)
      | (None, c1) \<Rightarrow> receive_value e c1)"

section \<open>What a remote path is\<close>

text \<open>\<open>path.Base\<close>.\<close>

definition Base :: "string \<Rightarrow> string" where
  "Base p =
     (if p = [] then ''.''
      else let b = rev (takeWhile (\<lambda>c. c \<noteq> SLASH) (rev (TrimRight p [SLASH])))
        in if b = [] then ''/'' else b)"

text \<open>
  The test on the listing of a path, with its conditions from left to right; \<open>None\<close> where a
  column is missing or no string.
\<close>

definition listed_file :: "string \<Rightarrow> wvalue \<Rightarrow> bool option" where
  "listed_file fileName r =
     (if fileName \<in> {[], ''/'', ''.'', ''..''} then Some False
      else
        case r of
          Table rows cols d \<Rightarrow>
            if rows \<noteq> 1 then Some False
            else
              (case Row (rows, cols, d) 0 of
                 Some (String kind # rest) \<Rightarrow>
                   if kind \<noteq> ''F'' then Some False
                   else (case rest of String name # _ \<Rightarrow> Some (name = fileName) | _ \<Rightarrow> None)
               | _ \<Rightarrow> None)
        | _ \<Rightarrow> Some False)"

text \<open>\<open>None\<close>: nothing found; otherwise whether it is a file.\<close>

definition statRemoteFile ::
  "client_env \<Rightarrow> string \<Rightarrow> client \<Rightarrow> (exit + bool option) \<times> client" where
  "statRemoteFile e remotePath c =
     (case sendCommand e ''LIST'' [remotePath] c of
        (Inl x, c1) \<Rightarrow> (Inl x, c1)
      | (Inr (Error code msg), c1) \<Rightarrow>
          if code = ''NOTFOUND'' then (Inr None, c1)
          else (Inl (Fatal_exit (''Remote: '' @ msg)), c1)
      | (Inr r, c1) \<Rightarrow>
          (case listed_file (Base remotePath) r of
             None \<Rightarrow> (Inl (Crash ''interface conversion or index out of range''), c1)
           | Some isFile \<Rightarrow> (Inr (Some isFile), c1)))"

section \<open>Downloading\<close>

definition append_to :: "string \<Rightarrow> bytes \<Rightarrow> client \<Rightarrow> client" where
  "append_to p data c =
     c\<lparr>lfiles := (lfiles c)(p \<mapsto>
        Regular_file ((case lfiles c p of Some (Regular_file b) \<Rightarrow> b | _ \<Rightarrow> []) @ data))\<rparr>"

definition write_file ::
  "client_env \<Rightarrow> nat \<Rightarrow> string \<Rightarrow> bytes \<Rightarrow> client \<Rightarrow> string option \<times> client" where
  "write_file e n p data c =
     (case write_fault e n of
        None \<Rightarrow> (None, append_to p data c)
      | Some (k, x) \<Rightarrow> (Some x, append_to p (take k data) c))"

lemma receive_value_shorter:
  "receive_value e c = (Inr v, c') \<Longrightarrow> length (incoming c') < length (incoming c)"
  by (auto simp: receive_value_def split: prod.splits sum.splits dest: Read.shorter)

lemma write_file_incoming:
  "write_file e n p data c = (x, c') \<Longrightarrow> incoming c' = incoming c"
  by (auto simp: write_file_def append_to_def split: option.splits prod.splits)

text \<open>The loop that takes the frames of the stream, \<open>n\<close> of them written so far.\<close>

function receive_frames ::
  "client_env \<Rightarrow> string \<Rightarrow> string \<Rightarrow> string \<Rightarrow> nat \<Rightarrow> client \<Rightarrow> exit option \<times> client" where
  "receive_frames e streamId dest tmpPath n c =
     (case receive_value e c of
        (Inl x, c1) \<Rightarrow> (Some x, c1)
      | (Inr val, c1) \<Rightarrow>
          (case val of
             TaggedValue tag v \<Rightarrow>
               if tag \<noteq> streamId then (Some (Fatal_exit (''Unexpected stream ID '' @ tag)), c1)
               else
                 (case v of
                    Null \<Rightarrow> (None, c1)
                  | Blob data \<Rightarrow>
                      (case write_file e n tmpPath data c1 of
                         (Some x, c2) \<Rightarrow>
                           (Some (Fatal_exit (''Failed to write to '' @ dest @ '': '' @ x)), c2)
                       | (None, c2) \<Rightarrow> receive_frames e streamId dest tmpPath (Suc n) c2)
                  | _ \<Rightarrow> (Some (Fatal_exit (''Unexpected '' @ Name v @ '', was expected blob'')), c1))
           | _ \<Rightarrow> (Some (Fatal_exit (''Unexpected '' @ Name val @ '', was expected tag'')), c1)))"
  by pat_completeness auto
termination
  by (relation "measure (\<lambda>(e, s, d, t, n, c). length (incoming c))")
    (auto dest!: receive_value_shorter [OF sym] write_file_incoming [OF sym])

declare receive_frames.simps [simp del]

text \<open>Receiving the file and moving it to its place.\<close>

definition receive_file ::
  "client_env \<Rightarrow> string \<Rightarrow> string \<Rightarrow> string \<Rightarrow> client \<Rightarrow> exit \<times> client" where
  "receive_file e streamId dest tmpPath c =
     (case receive_frames e streamId dest tmpPath 0 c of
        (Some x, c1) \<Rightarrow> (x, c1)
      | (None, c1) \<Rightarrow>
          (case rename_fault e tmpPath dest of
             Some x \<Rightarrow> (Fatal_exit (''Rename failed: '' @ x), c1)
           | None \<Rightarrow>
               (Finished, c1\<lparr>lfiles := (lfiles c1)(dest := lfiles c1 tmpPath, tmpPath := None)\<rparr>)))"

definition download_to ::
  "client_env \<Rightarrow> string \<Rightarrow> string \<Rightarrow> client \<Rightarrow> exit \<times> client" where
  "download_to e source dest c =
     (let tmpPath = dest @ ''.fly-download'' in
      case create_fault e tmpPath of
        Some x \<Rightarrow> (Fatal_exit (dest @ '': '' @ x), c)
      | None \<Rightarrow>
          (case sendCommand e ''STREAM'' [''R'', source]
                  (c\<lparr>lfiles := (lfiles c)(tmpPath \<mapsto> Regular_file [])\<rparr>) of
             (Inl x, c1) \<Rightarrow> (x, c1)
           | (Inr (Error code msg), c1) \<Rightarrow> (Fatal_exit (''Remote: '' @ msg), c1)
           | (Inr (Integer i), c1) \<Rightarrow> receive_file e (Itoa i) dest tmpPath c1
           | (Inr _, c1) \<Rightarrow> (Crash ''interface conversion'', c1)))"

text \<open>A folder as destination gets a file of the name of the source.\<close>

definition into_folder :: "(string \<rightharpoonup> node) \<Rightarrow> string \<Rightarrow> string \<Rightarrow> string" where
  "into_folder fs source dest = (if fs dest = Some Folder then Join [dest, Base source] else dest)"

definition download :: "client_env \<Rightarrow> string \<Rightarrow> string \<Rightarrow> client \<Rightarrow> exit \<times> client" where
  "download e source dest c =
     (case statRemoteFile e source c of
        (Inl x, c1) \<Rightarrow> (x, c1)
      | (Inr None, c1) \<Rightarrow> (Fatal_exit ''Remote: No such file or directory'', c1)
      | (Inr (Some isFile), c1) \<Rightarrow>
          if \<not> isFile then (Fatal_exit ''Only regular file downloads are currently supported.'', c1)
          else
            (case stat_fault e dest of
               Some x \<Rightarrow> (Fatal_exit (dest @ '': '' @ x), c1)
             | None \<Rightarrow> download_to e source (into_folder (lfiles c1) source dest) c1))"

section \<open>Uploading\<close>

text \<open>The loop that sends the chunks of a file, and the frame that ends them.\<close>

fun send_frames ::
  "client_env \<Rightarrow> string \<Rightarrow> string \<Rightarrow> bytes list \<Rightarrow> string option \<Rightarrow> client \<Rightarrow> exit option \<times> client"
where
  "send_frames e source streamId [] (Some x) c =
     (Some (Returned (''Failed to read from '' @ source @ '': '' @ x)), c)"
| "send_frames e source streamId [] None c =
     (case send e (NewTaggedValue Null streamId) c of
        (Some x, c1) \<Rightarrow> (Some (Returned (''Failed to write to socket: '' @ x)), c1)
      | (None, c1) \<Rightarrow> (None, c1))"
| "send_frames e source streamId (p # ps) failure c =
     (case send e (NewTaggedValue (NewBlob p) streamId) c of
        (Some x, c1) \<Rightarrow> (Some (Returned (''Failed to write to socket: '' @ x)), c1)
      | (None, c1) \<Rightarrow> send_frames e source streamId ps failure c1)"

text \<open>The loop that waits for the file to appear.\<close>

fun poll :: "client_env \<Rightarrow> string \<Rightarrow> nat \<Rightarrow> client \<Rightarrow> exit \<times> client" where
  "poll e dest 0 c = (Returned ''Unknown error occurred'', c)"
| "poll e dest (Suc n) c =
     (case sendCommand e ''LIST'' [dest] c of
        (Inl x, c1) \<Rightarrow> (x, c1)
      | (Inr (Error _ _), c1) \<Rightarrow> poll e dest n c1
      | (Inr _, c1) \<Rightarrow> (Finished, c1))"

definition upload_to ::
  "client_env \<Rightarrow> string \<Rightarrow> string \<Rightarrow> client \<Rightarrow> exit \<times> client" where
  "upload_to e source dest c =
     (case sendCommand e ''STREAM'' [''W'', dest] c of
        (Inl x, c1) \<Rightarrow> (x, c1)
      | (Inr (Error code msg), c1) \<Rightarrow> (Fatal_exit (''Remote: '' @ msg), c1)
      | (Inr (Integer i), c1) \<Rightarrow>
          (case send_frames e source (Itoa i) (fst (chunks e source)) (snd (chunks e source)) c1 of
             (Some x, c2) \<Rightarrow> (x, c2)
           | (None, c2) \<Rightarrow> poll e dest 10 c2)
      | (Inr _, c1) \<Rightarrow> (Crash ''interface conversion'', c1))"

definition upload :: "client_env \<Rightarrow> string \<Rightarrow> string \<Rightarrow> client \<Rightarrow> exit \<times> client" where
  "upload e source dest c =
     (case stat_fault e source of
        Some x \<Rightarrow> (Fatal_exit (source @ '': '' @ x), c)
      | None \<Rightarrow>
          (case lfiles c source of
             None \<Rightarrow> (Fatal_exit (source @ '': no such file or directory''), c)
           | Some (Regular_file _) \<Rightarrow>
               (case open_fault e source of
                  Some x \<Rightarrow> (Returned (source @ '': '' @ x), c)
                | None \<Rightarrow>
                    (case statRemoteFile e dest c of
                       (Inl x, c1) \<Rightarrow> (x, c1)
                     | (Inr info, c1) \<Rightarrow>
                         upload_to e source
                           (if info = Some False then Join [dest, Base source] else dest) c1))
           | Some _ \<Rightarrow> (Fatal_exit ''Only regular file uploads are currently supported.'', c)))"

section \<open>A client to which nothing happens\<close>

definition quiet_env :: client_env where
  "quiet_env = \<lparr>conn_error = ''EOF'', send_fault = (\<lambda>_. None), stat_fault = (\<lambda>_. None),
     open_fault = (\<lambda>_. None), create_fault = (\<lambda>_. None), write_fault = (\<lambda>_. None),
     rename_fault = (\<lambda>_ _. None), chunks = (\<lambda>_. ([''hi''], None)), home = Inr ''/home/u'',
     dial_fault = (\<lambda>_. None), peer_cert = (\<lambda>_. []), sha256 = (\<lambda>b. b)\<rparr>"

definition client_with :: "bytes \<Rightarrow> client" where
  "client_with bs = \<lparr>incoming = bs, sent_values = [], lfiles = [''a.txt'' \<mapsto> Regular_file ''hi'', ''docs'' \<mapsto> Folder]\<rparr>"

lemma quiet_simps [simp]:
  "send_fault quiet_env = (\<lambda>_. None)" "stat_fault quiet_env = (\<lambda>_. None)"
  "open_fault quiet_env = (\<lambda>_. None)" "chunks quiet_env = (\<lambda>_. ([''hi''], None))"
  "lfiles (client_with bs) = [''a.txt'' \<mapsto> Regular_file ''hi'', ''docs'' \<mapsto> Folder]"
  "incoming (client_with bs) = bs" "sent_values (client_with bs) = []"
  by (simp_all add: quiet_env_def client_with_def)

end
