(* ===== verification/Client_Props.thy ===== *)
theory Client_Props
  imports Client Stream_Props Session_Loop
begin

text \<open>
  The properties of the client's transfers: what a download may touch, and that it ends with the
  file that the server's stream worker read, or with what was there; that what an upload sends
  is what the server's reader hands to its stream worker; and that an upload can report success
  although the server refused it.
\<close>

named_theorems client_defs \<open>what the elementary actions of the client change\<close>

section \<open>The elementary actions\<close>

lemma send_cases [client_defs]:
  "send e v c = (x, c') \<Longrightarrow>
   (x = None \<and> c' = c\<lparr>sent_values := sent_values c @ [v]\<rparr>) \<or> (x \<noteq> None \<and> c' = c)"
  by (auto simp: send_def split: option.splits)

lemma receive_value_lfiles: "receive_value e c = (r, c') \<Longrightarrow> lfiles c' = lfiles c"
  by (auto simp: receive_value_def split: prod.splits sum.splits)

lemma receive_value_sent: "receive_value e c = (r, c') \<Longrightarrow> sent_values c' = sent_values c"
  by (auto simp: receive_value_def split: prod.splits sum.splits)

lemma sendCommand_lfiles: "sendCommand e n args c = (r, c') \<Longrightarrow> lfiles c' = lfiles c"
  by (auto simp: sendCommand_def split: prod.splits option.splits
      dest!: send_cases receive_value_lfiles)

lemma statRemoteFile_lfiles: "statRemoteFile e p c = (r, c') \<Longrightarrow> lfiles c' = lfiles c"
  by (auto simp: statRemoteFile_def dest!: sendCommand_lfiles
      split: prod.splits option.splits sum.splits wvalue.splits if_splits)

text \<open>A well-formed value at the front of what the server sends is received.\<close>

abbreviation client_ok :: "wvalue \<Rightarrow> bool" where
  "client_ok v \<equiv> wire_ok (2 ^ 63 - 1) True v"

lemma receive_sent:
  "client_ok v \<Longrightarrow> incoming c = WriteTo v @ rest \<Longrightarrow> receive_value e c = (Inr v, c\<lparr>incoming := rest\<rparr>)"
  using readsD [OF Read_WriteTo [of "NewReader (conn_error e)" v], of rest]
  by (simp add: receive_value_def NewReader_def)

lemma receive_nothing:
  "incoming c = [] \<Longrightarrow> \<exists>m. receive_value e c = (Inl (Fatal_exit m), c)"
  by (cases c) (simp add: receive_value_def Read_def readValue.simps wrapIO_def read_failure_def)

section \<open>Downloads\<close>

text \<open>Only the file at \<open>p\<close> differs.\<close>

definition only_at :: "string \<Rightarrow> client \<Rightarrow> client \<Rightarrow> bool" where
  "only_at p c c' \<longleftrightarrow> (\<forall>q. q \<noteq> p \<longrightarrow> lfiles c' q = lfiles c q)"

lemma only_at_trans: "only_at p a b \<Longrightarrow> only_at p b c \<Longrightarrow> only_at p a c"
  unfolding only_at_def by metis

lemma only_at_same: "lfiles c' = lfiles c \<Longrightarrow> only_at p c c'"
  unfolding only_at_def by metis

lemma write_file_only: "write_file e n p d c = (x, c') \<Longrightarrow> only_at p c c'"
  by (auto simp: write_file_def append_to_def only_at_def split: option.splits prod.splits)

lemma receive_frames_only:
  "receive_frames e tag dst p n c = (x, c') \<Longrightarrow> only_at p c c'"
proof (induction e tag dst p n c arbitrary: x c' rule: receive_frames.induct)
  case (1 e tag dst p n c)
  obtain r c1 where r: "receive_value e c = (r, c1)" by fastforce
  then have c1: "only_at p c c1" by (rule only_at_same [OF receive_value_lfiles])
  show ?case
  proof (cases "\<exists>data. r = Inr (TaggedValue tag (Blob data))")
    case True
    then obtain data where data: "r = Inr (TaggedValue tag (Blob data))" by blast
    obtain y c2 where w: "write_file e n p data c1 = (y, c2)" by fastforce
    have c2: "only_at p c c2" by (rule only_at_trans [OF c1 write_file_only [OF w]])
    show ?thesis
    proof (cases y)
      case None
      with "1.prems" r w data have "receive_frames e tag dst p (Suc n) c2 = (x, c')"
        by (subst (asm) receive_frames.simps) simp
      with "1.IH" r w data None only_at_trans [OF c2] show ?thesis by auto
    next
      case (Some m)
      with "1.prems" r w data have "c' = c2" by (subst (asm) receive_frames.simps) simp
      with c2 show ?thesis by simp
    qed
  next
    case False
    with "1.prems" r have "c' = c1"
      by (subst (asm) receive_frames.simps) (auto split: sum.splits wvalue.splits if_splits)
    with c1 show ?thesis by simp
  qed
qed

lemma read_failure_exit [simp]: "read_failure x \<noteq> Finished"
  by (simp add: read_failure_def split: rerror.split)

lemma receive_value_exit: "receive_value e c = (Inl x, c') \<Longrightarrow> x \<noteq> Finished"
  by (auto simp: receive_value_def split: prod.splits sum.splits)

lemma sendCommand_exit: "sendCommand e n args c = (Inl x, c') \<Longrightarrow> x \<noteq> Finished"
  by (auto simp: sendCommand_def dest: receive_value_exit split: prod.splits option.splits)

lemma statRemoteFile_exit: "statRemoteFile e p c = (Inl x, c') \<Longrightarrow> x \<noteq> Finished"
  by (auto simp: statRemoteFile_def dest: sendCommand_exit
      split: prod.splits option.splits sum.splits wvalue.splits if_splits)

lemma receive_frames_exit: "receive_frames e tag dst p n c = (Some x, c') \<Longrightarrow> x \<noteq> Finished"
proof (induction e tag dst p n c arbitrary: x c' rule: receive_frames.induct)
  case (1 e tag dst p n c)
  then show ?case
    by (subst (asm) (2) receive_frames.simps)
      (auto dest: receive_value_exit split: prod.splits sum.splits wvalue.splits option.splits if_splits)
qed

definition tmp_path :: "string \<Rightarrow> string" where
  "tmp_path dst = dst @ ''.fly-download''"

lemma tmp_path_other [simp]: "tmp_path dst \<noteq> dst" "dst \<noteq> tmp_path dst"
  by (simp_all add: tmp_path_def)

text \<open>A transfer to \<open>dst\<close> that replaced it, or left it alone.\<close>

definition kept_or_replaced :: "string \<Rightarrow> client \<Rightarrow> exit \<times> client \<Rightarrow> bool" where
  "kept_or_replaced dst c r \<longleftrightarrow>
     (\<forall>p. p \<noteq> dst \<and> p \<noteq> tmp_path dst \<longrightarrow> lfiles (snd r) p = lfiles c p)
     \<and> (if fst r = Finished then lfiles (snd r) (tmp_path dst) = None
        else lfiles (snd r) dst = lfiles c dst)"

lemma stopped_keeps [simp]: "x \<noteq> Finished \<Longrightarrow> only_at (tmp_path dst) c c' \<Longrightarrow> kept_or_replaced dst c (x, c')"
  by (simp add: kept_or_replaced_def only_at_def)

lemma receive_file_safe:
  assumes "only_at (tmp_path dst) c c1"
  shows "kept_or_replaced dst c (receive_file e tag dst (tmp_path dst) c1)"
proof -
  obtain x c2 where r: "receive_frames e tag dst (tmp_path dst) 0 c1 = (x, c2)" by fastforce
  then have "only_at (tmp_path dst) c c2" by (rule only_at_trans [OF assms receive_frames_only])
  moreover from this have "kept_or_replaced dst c
      (Finished, c2\<lparr>lfiles := (lfiles c2)(dst := lfiles c2 (tmp_path dst), tmp_path dst := None)\<rparr>)"
    by (simp add: kept_or_replaced_def only_at_def)
  moreover have "x = Some y \<Longrightarrow> y \<noteq> Finished" for y using receive_frames_exit r by blast
  ultimately show ?thesis by (simp add: receive_file_def r split: option.split)
qed

lemma download_to_safe: "kept_or_replaced dst c (download_to e src dst c)"
proof (cases "create_fault e (tmp_path dst)")
  case (Some m)
  then show ?thesis by (simp add: download_to_def only_at_same tmp_path_def [symmetric])
next
  case None
  obtain r c1 where r: "sendCommand e ''STREAM'' [''R'', src]
      (c\<lparr>lfiles := (lfiles c)(tmp_path dst \<mapsto> Regular_file [])\<rparr>) = (r, c1)" by fastforce
  from sendCommand_lfiles [OF r] have "only_at (tmp_path dst) c c1" by (simp add: only_at_def)
  with None r receive_file_safe [OF this, of e] sendCommand_exit [of e _ _ _ _ c1] show ?thesis
    by (auto simp: download_to_def tmp_path_def [symmetric] split: sum.split wvalue.split)
qed

lemma download_safe:
  "kept_or_replaced (into_folder (lfiles c) src dst) c (download e src dst c)"
proof -
  obtain r c1 where r: "statRemoteFile e src c = (r, c1)" by fastforce
  then have "lfiles c1 = lfiles c" by (rule statRemoteFile_lfiles)
  moreover from this have "kept_or_replaced d c1 = kept_or_replaced d c" for d
    by (intro ext) (simp add: kept_or_replaced_def)
  ultimately show ?thesis
    using r download_to_safe [of "into_folder (lfiles c) src dst" c1 e src] statRemoteFile_exit [of e src c _ c1]
    by (auto simp: download_def only_at_same split: sum.split option.split)
qed

text \<open>
  C34. A download is safe against any server: whatever bytes the peer sends, no file of the user is
  touched but the destination and the temporary file beside it, and the destination is
  touched only by the final rename: unless the client finishes, it is what it was.
\<close>

theorem download_touches_only_its_file:
  assumes "download e src dst c = (x, c')" and "dst' = into_folder (lfiles c) src dst"
  shows "(\<forall>p. p \<noteq> dst' \<and> p \<noteq> dst' @ ''.fly-download'' \<longrightarrow> lfiles c' p = lfiles c p)
    \<and> (x \<noteq> Finished \<longrightarrow> lfiles c' dst' = lfiles c dst')"
  using download_safe [of c src dst e] assms
  by (auto simp: kept_or_replaced_def tmp_path_def split: if_splits)

text \<open>
  The frames of a file: they are written to the temporary file one after the other, unless the
  local disk fails.
\<close>

lemma receive_blobs:
  assumes "\<forall>p \<in> set ps. int (length p) \<le> 2 ^ 48" and "LF \<notin> set tag"
    and "incoming c = concat (map WriteTo (map (blob_frame tag) ps)) @ rest"
    and "lfiles c t = Some (Regular_file b)"
  shows "(\<exists>m c'. receive_frames e tag dst t n c = (Some (Fatal_exit m), c') \<and> write_fault e \<noteq> (\<lambda>_. None))
    \<or> receive_frames e tag dst t n c = receive_frames e tag dst t (n + length ps)
        (c\<lparr>incoming := rest, lfiles := (lfiles c)(t \<mapsto> Regular_file (b @ concat ps))\<rparr>)"
  using assms
proof (induction ps arbitrary: n b c)
  case Nil
  then have "c\<lparr>incoming := rest, lfiles := (lfiles c)(t \<mapsto> Regular_file (b @ concat []))\<rparr> = c"
    by (cases c) (auto simp: fun_upd_idem)
  then show ?case by (simp del: fun_upd_apply)
next
  case (Cons p ps)
  let ?rest = "concat (map WriteTo (map (blob_frame tag) ps)) @ rest"
  let ?c1 = "c\<lparr>incoming := ?rest\<rparr>"
  let ?c2 = "?c1\<lparr>lfiles := (lfiles c)(t \<mapsto> Regular_file (b @ p))\<rparr>"
  have r: "receive_value e c = (Inr (TaggedValue tag (Blob p)), ?c1)"
    using receive_sent [of "blob_frame tag p" c ?rest e] Cons.prems
    by (simp add: NewTaggedValue_def NewBlob_def)
  show ?case
  proof (cases "write_fault e n")
    case None
    then have "receive_frames e tag dst t n c = receive_frames e tag dst t (Suc n) ?c2"
      using r Cons.prems(4)
      by (subst receive_frames.simps) (simp add: write_file_def append_to_def)
    moreover have "?c2\<lparr>incoming := rest, lfiles := (lfiles ?c2)(t \<mapsto> Regular_file ((b @ p) @ concat ps))\<rparr>
        = c\<lparr>incoming := rest, lfiles := (lfiles c)(t \<mapsto> Regular_file (b @ concat (p # ps)))\<rparr>"
      by simp
    ultimately show ?thesis
      using Cons.IH [of ?c2 "b @ p" "Suc n"] Cons.prems by (simp del: fun_upd_apply) simp
  next
    case (Some kx)
    then have "\<exists>m c'. receive_frames e tag dst t n c = (Some (Fatal_exit m), c')"
      using r by (subst receive_frames.simps) (simp add: write_file_def split: prod.split)
    moreover have "write_fault e \<noteq> (\<lambda>_. None)" using Some by auto
    ultimately show ?thesis by blast
  qed
qed

text \<open>The three ways in which a stream can go on after its chunks.\<close>

lemma receive_end:
  assumes "LF \<notin> set tag" and "incoming c = WriteTo (end_frame tag)"
  shows "receive_frames e tag dst t n c = (None, c\<lparr>incoming := []\<rparr>)"
  using receive_sent [of "end_frame tag" c "[]" e] assms
  by (subst receive_frames.simps) (simp add: NewTaggedValue_def)

lemma receive_error:
  assumes "LF \<notin> set tag" and "incoming c = WriteTo (NewTaggedValue read_error tag)"
  shows "\<exists>m c'. receive_frames e tag dst t n c = (Some (Fatal_exit m), c')"
  using receive_sent [of "NewTaggedValue read_error tag" c "[]" e] assms
  by (subst receive_frames.simps)
    (simp add: NewTaggedValue_def read_error_def NewError_def)

lemma receive_break:
  "incoming c = [] \<Longrightarrow> \<exists>m c'. receive_frames e tag dst t n c = (Some (Fatal_exit m), c')"
  using receive_nothing [of c e] by (subst receive_frames.simps) auto

text \<open>No call of the client fails.\<close>

definition undisturbed :: "client_env \<Rightarrow> bool" where
  "undisturbed e \<longleftrightarrow> send_fault e = (\<lambda>_. None) \<and> stat_fault e = (\<lambda>_. None)
     \<and> create_fault e = (\<lambda>_. None) \<and> write_fault e = (\<lambda>_. None) \<and> rename_fault e = (\<lambda>_ _. None)"

lemma sendCommand_answered:
  assumes "client_ok v" and "incoming c = WriteTo v @ rest"
  shows "(\<exists>m. sendCommand e n args c = (Inl (Fatal_exit m), c) \<and> send_fault e \<noteq> (\<lambda>_. None))
    \<or> sendCommand e n args c = (Inr v, c\<lparr>incoming := rest,
         sent_values := sent_values c @ [NewArray (map NewString (n # args))]\<rparr>)"
  using receive_sent [OF assms(1), of "c\<lparr>sent_values := sent_values c @ [NewArray (map NewString (n # args))]\<rparr>" rest e]
    assms(2)
  by (auto simp: sendCommand_def send_def split: option.split)

lemma listed_file_table: "listed_file n r = Some True \<Longrightarrow> \<exists>a b d. r = Table a b d"
  by (cases r) (simp_all add: listed_file_def split: if_splits)

lemma stat_of_file:
  assumes "client_ok r" and "listed_file (Base src) r = Some True" and "incoming c = WriteTo r @ rest"
  shows "(\<exists>m c'. statRemoteFile e src c = (Inl (Fatal_exit m), c') \<and> send_fault e \<noteq> (\<lambda>_. None))
    \<or> (\<exists>c'. statRemoteFile e src c = (Inr (Some True), c') \<and> incoming c' = rest \<and> lfiles c' = lfiles c)"
  using sendCommand_answered [OF assms(1,3), of e "''LIST''" "[src]"] listed_file_table [OF assms(2)] assms(2)
  by (auto simp: statRemoteFile_def)

text \<open>What a worker's frames make of the rest of the download.\<close>

lemma receive_worker:
  assumes "(read_step tag)\<^sup>*\<^sup>* (handleReadStream content) w" and "LF \<notin> set tag"
    and "incoming c = concat (map WriteTo (written w))"
    and "lfiles c (tmp_path dst) = Some (Regular_file [])"
  shows "(\<exists>m c'. receive_file e tag dst (tmp_path dst) c = (Fatal_exit m, c')
        \<and> (undisturbed e \<longrightarrow> end_frame tag \<notin> set (written w)))
    \<or> (\<exists>c'. receive_file e tag dst (tmp_path dst) c = (Finished, c')
        \<and> lfiles c' dst = Some (Regular_file content) \<and> end_frame tag \<in> set (written w))"
proof -
  let ?t = "tmp_path dst"
  from read_frames [OF assms(1)] obtain ps where "written w = map (blob_frame tag) ps
      \<or> written w = map (blob_frame tag) ps @ [end_frame tag] \<and> concat ps = content
      \<or> written w = map (blob_frame tag) ps @ [NewTaggedValue read_error tag]" by blast
  then obtain tl where tl: "written w = map (blob_frame tag) ps @ tl"
    "tl = [] \<or> (tl = [end_frame tag] \<and> concat ps = content) \<or> tl = [NewTaggedValue read_error tag]"
    by (metis append_Nil2)
  have small: "\<forall>p \<in> set ps. int (length p) \<le> 2 ^ 48"
  proof
    fix p assume "p \<in> set ps"
    then have "chunk_frame tag (blob_frame tag p)" using chunks_small [OF assms(1)] tl(1) by simp
    then have "length p \<le> buf_size" unfolding chunk_frame_def by blast
    then show "int (length p) \<le> 2 ^ 48" by (simp add: buf_size_def)
  qed
  let ?c1 = "c\<lparr>incoming := concat (map WriteTo tl), lfiles := (lfiles c)(?t \<mapsto> Regular_file (concat ps))\<rparr>"
  have not_end: "end_frame tag \<notin> set (map (blob_frame tag) ps)" "end_frame tag \<noteq> NewTaggedValue read_error tag"
    by (auto simp: NewTaggedValue_def NewBlob_def read_error_def NewError_def)
  from receive_blobs [OF small assms(2) _ assms(4), of "concat (map WriteTo tl)" e dst 0]
  consider (failed) m c' where "receive_frames e tag dst ?t 0 c = (Some (Fatal_exit m), c')"
      "write_fault e \<noteq> (\<lambda>_. None)"
    | (got) "receive_frames e tag dst ?t 0 c = receive_frames e tag dst ?t (length ps) ?c1"
    using assms(3) tl(1) by auto
  then show ?thesis
  proof cases
    case failed
    then show ?thesis by (simp add: receive_file_def undisturbed_def)
  next
    case got
    show ?thesis
    proof (cases "tl = [end_frame tag]")
      case True
      then have "concat ps = content" using tl(2) by (auto simp: NewTaggedValue_def read_error_def NewError_def)
      with True got receive_end [of tag ?c1 e dst ?t "length ps"] assms(2) tl(1) show ?thesis
        by (auto simp: receive_file_def undisturbed_def split: option.split)
    next
      case False
      then obtain m c' where "receive_frames e tag dst ?t (length ps) ?c1 = (Some (Fatal_exit m), c')"
        using tl(2) receive_break [of ?c1 e tag dst ?t "length ps"]
          receive_error [of tag ?c1 e dst ?t "length ps"] assms(2) by auto
      with got False tl not_end show ?thesis by (auto simp: receive_file_def)
    qed
  qed
qed

text \<open>
  C5. A download ends with the server's file or with what was there: if the server answers the
  listing with one file, gives the stream a number and then sends whatever its stream worker
  writes on a file (until the connection breaks), the client finishes only if the worker has
  sent the end of the file, and then the destination holds the file byte for byte; in every
  other case, a broken connection, an error frame, a failing disk, it is what it was. And if
  nothing fails, the client does finish.
\<close>

theorem download_end_to_end:
  assumes "(read_step (Itoa i))\<^sup>*\<^sup>* (handleReadStream content) w" and "int64 i"
    and "client_ok r" and "listed_file (Base src) r = Some True"
    and "incoming c = WriteTo r @ WriteTo (NewInteger i) @ concat (map WriteTo (written w))"
    and "download e src dst c = (x, c')" and "dst' = into_folder (lfiles c) src dst"
  shows "(if x = Finished
      then lfiles c' dst' = Some (Regular_file content) \<and> end_frame (Itoa i) \<in> set (written w)
      else lfiles c' dst' = lfiles c dst')
    \<and> (undisturbed e \<and> end_frame (Itoa i) \<in> set (written w) \<longrightarrow> x = Finished)"
proof -
  have kept: "x \<noteq> Finished \<longrightarrow> lfiles c' dst' = lfiles c dst'"
    using download_safe [of c src dst e] assms(6,7) by (auto simp: kept_or_replaced_def)
  consider (no_list) m c1 where "statRemoteFile e src c = (Inl (Fatal_exit m), c1)" "\<not> undisturbed e"
    | (listed) c1 where "statRemoteFile e src c = (Inr (Some True), c1)" "lfiles c1 = lfiles c"
        "incoming c1 = WriteTo (NewInteger i) @ concat (map WriteTo (written w))"
    using stat_of_file [OF assms(3,4,5), of e] by (auto simp: undisturbed_def)
  then show ?thesis
  proof cases
    case no_list
    then show ?thesis using assms(6) kept by (auto simp: download_def)
  next
    case listed
    show ?thesis
    proof (cases "stat_fault e dst = None \<and> create_fault e (tmp_path dst') = None")
      case False
      with listed assms(6,7) kept show ?thesis
        by (auto simp: download_def download_to_def undisturbed_def tmp_path_def split: option.splits)
    next
      case True
      let ?c2 = "c1\<lparr>lfiles := (lfiles c1)(tmp_path dst' \<mapsto> Regular_file [])\<rparr>"
      have "download_to e src dst' c1 = (x, c')"
        using listed(1,2) True assms(6,7) by (simp add: download_def)
      then have d: "(case sendCommand e ''STREAM'' [''R'', src] ?c2 of
             (Inl y, c3) \<Rightarrow> (y, c3)
           | (Inr (Error code msg), c3) \<Rightarrow> (Fatal_exit (''Remote: '' @ msg), c3)
           | (Inr (Integer k), c3) \<Rightarrow> receive_file e (Itoa k) dst' (tmp_path dst') c3
           | (Inr _, c3) \<Rightarrow> (Crash ''interface conversion'', c3)) = (x, c')"
        using True by (simp add: download_to_def tmp_path_def [symmetric] Let_def)
      let ?cmd = "NewArray (map NewString [''STREAM'', ''R'', src])"
      let ?c3 = "?c2\<lparr>incoming := concat (map WriteTo (written w)), sent_values := sent_values c1 @ [?cmd]\<rparr>"
      from sendCommand_answered [of "NewInteger i" ?c2 "concat (map WriteTo (written w))" e "''STREAM''" "[''R'', src]"]
      consider m where "x = Fatal_exit m" "\<not> undisturbed e"
        | "receive_file e (Itoa i) dst' (tmp_path dst') ?c3 = (x, c')"
        using d listed assms(2) by (auto simp: NewInteger_def undisturbed_def)
      then show ?thesis
      proof cases
        case 1
        then show ?thesis using kept by simp
      next
        case 2
        with receive_worker [OF assms(1) Itoa_no_LF, of ?c3 dst' e] kept show ?thesis by auto
      qed
    qed
  qed
qed

section \<open>Uploads\<close>

abbreviation command :: "string list \<Rightarrow> wvalue" where
  "command ws \<equiv> NewArray (map NewString ws)"

text \<open>The frames of an upload.\<close>

definition upload_frames :: "string \<Rightarrow> bytes list \<Rightarrow> wvalue list" where
  "upload_frames tag ps = map (blob_frame tag) ps @ [end_frame tag]"

lemma sendCommand_sent:
  "sendCommand e n args c = (Inr v, c') \<Longrightarrow> sent_values c' = sent_values c @ [command (n # args)]"
  by (auto simp: sendCommand_def split: prod.splits option.splits
      dest!: send_cases receive_value_sent)

lemma statRemoteFile_sent:
  "statRemoteFile e p c = (Inr v, c') \<Longrightarrow> sent_values c' = sent_values c @ [command [''LIST'', p]]"
  by (auto simp: statRemoteFile_def dest!: sendCommand_sent
      split: prod.splits option.splits sum.splits wvalue.splits if_splits)

lemma send_frames_sent:
  "send_frames e src tag ps failure c = (None, c') \<Longrightarrow>
   failure = None \<and> c' = c\<lparr>sent_values := sent_values c @ upload_frames tag ps\<rparr>"
proof (induction e src tag ps failure c rule: send_frames.induct)
  case (3 e src tag p ps failure c)
  then show ?case
    by (auto simp: upload_frames_def split: prod.splits option.splits dest!: send_cases)
qed (auto simp: upload_frames_def split: prod.splits option.splits dest!: send_cases)

lemma send_frames_exit: "send_frames e src tag ps failure c = (Some x, c') \<Longrightarrow> x \<noteq> Finished"
  by (induction e src tag ps failure c rule: send_frames.induct)
    (auto split: prod.splits option.splits)

lemma poll_sent:
  "poll e dst n c = (Finished, c') \<Longrightarrow>
   \<exists>k. sent_values c' = sent_values c @ replicate (Suc k) (command [''LIST'', dst])"
proof (induction e dst n c rule: poll.induct)
  case (2 e dst n c)
  obtain r c1 where r: "sendCommand e ''LIST'' [dst] c = (r, c1)" by fastforce
  show ?case
  proof (cases "\<exists>a b. r = Inr (Error a b)")
    case True
    then obtain a b where ab: "r = Inr (Error a b)" by blast
    with 2(2) r have "poll e dst n c1 = (Finished, c')" by simp
    with "2.IH" r ab obtain k where
      "sent_values c' = sent_values c1 @ replicate (Suc k) (command [''LIST'', dst])" by metis
    with ab r sendCommand_sent [of e "''LIST''" "[dst]" c _ c1] show ?thesis
      by (intro exI [of _ "Suc k"]) auto
  next
    case False
    with 2(2) r obtain v where "r = Inr v" "c' = c1"
      by (auto split: sum.splits wvalue.splits dest: sendCommand_exit)
    with r sendCommand_sent [of e "''LIST''" "[dst]" c v c1] show ?thesis
      by (intro exI [of _ 0]) simp
  qed
qed simp

lemma received_integer: "sendCommand e n args c = (Inr (Integer i), c') \<Longrightarrow> int64 i"
  using readValue_shape [of _ _ True]
  by (fastforce simp: sendCommand_def receive_value_def Read_def split: prod.splits option.splits sum.splits)

text \<open>What a finished upload has sent.\<close>

lemma upload_sent:
  assumes "upload e src dst c = (Finished, c')"
  shows "\<exists>i dst' k. int64 i \<and> snd (chunks e src) = None \<and> dst' \<in> {dst, Join [dst, Base src]}
    \<and> sent_values c' = sent_values c @ [command [''LIST'', dst], command [''STREAM'', ''W'', dst']]
        @ upload_frames (Itoa i) (fst (chunks e src)) @ replicate (Suc k) (command [''LIST'', dst'])"
proof -
  from assms obtain info c1 dst' where s: "statRemoteFile e dst c = (Inr info, c1)"
    and d: "dst' \<in> {dst, Join [dst, Base src]}" and u: "upload_to e src dst' c1 = (Finished, c')"
    by (auto simp: upload_def split: option.splits node.splits prod.splits sum.splits if_splits
        dest: statRemoteFile_exit)
  from u obtain i c2 c3 where i: "sendCommand e ''STREAM'' [''W'', dst'] c1 = (Inr (Integer i), c2)"
    and f: "send_frames e src (Itoa i) (fst (chunks e src)) (snd (chunks e src)) c2 = (None, c3)"
    and p: "poll e dst' 10 c3 = (Finished, c')"
    by (auto simp: upload_to_def split: prod.splits sum.splits wvalue.splits option.splits
        dest: sendCommand_exit send_frames_exit)
  from poll_sent [OF p] obtain k where
    "sent_values c' = sent_values c3 @ replicate (Suc k) (command [''LIST'', dst'])" by blast
  with statRemoteFile_sent [OF s] sendCommand_sent [OF i] send_frames_sent [OF f] received_integer [OF i] d
  show ?thesis by (intro exI [of _ i] exI [of _ dst'] exI [of _ k]) simp
qed

text \<open>What the server's reader makes of the next \<open>n\<close> values.\<close>

fun readings :: "session \<Rightarrow> nat \<Rightarrow> bytes \<Rightarrow> reading list" where
  "readings s 0 bs = []"
| "readings s (Suc n) bs =
     (case Read conn_reader bs of (Inr v, rest) \<Rightarrow> on_value s v # readings s n rest | _ \<Rightarrow> [])"

lemma readings_WriteTo:
  assumes "wire_ok (MaxBlobSize conn_reader) True v"
  shows "readings s (Suc n) (WriteTo v @ rest) = on_value s v # readings s n rest"
  using readsD [OF Read_WriteTo [OF assms], of rest] by simp

lemma getStream_index: "getStream i s = Some st \<Longrightarrow> 0 \<le> i"
  by (simp add: getStream_def split: if_splits)

lemma on_upload_frame:
  assumes "getStream i s = Some (WriteStream n fs p x)" and "int64 i"
  shows "on_value s (blob_frame (Itoa i) d) = Frame_for (nat i) x (DataFrame d)"
    and "on_value s (end_frame (Itoa i)) = Frame_for (nat i) x FinishFrame"
  using assms
  by (simp_all add: NewTaggedValue_def NewBlob_def on_value_def handleStreamFrame_def payload_frame_def)

lemma readings_upload:
  assumes "getStream i s = Some (WriteStream n fs p x)" and "int64 i"
    and "\<forall>d \<in> set ps. length d \<le> buf_size"
  shows "readings s (Suc (length ps)) (concat (map WriteTo (upload_frames (Itoa i) ps)) @ rest)
    = map (Frame_for (nat i) x) (map DataFrame ps @ [FinishFrame])"
  using assms(3)
proof (induction ps)
  case Nil
  have "wire_ok (MaxBlobSize conn_reader) True (end_frame (Itoa i))" by (simp add: NewTaggedValue_def)
  from readings_WriteTo [OF this, of s 0 rest] show ?case
    by (simp add: upload_frames_def on_upload_frame [OF assms(1,2)] del: readings.simps(2))
next
  case (Cons d ps)
  have "wire_ok (MaxBlobSize conn_reader) True (blob_frame (Itoa i) d)"
    using Cons.prems by (simp add: NewTaggedValue_def NewBlob_def conn_reader_def buf_size_def)
  from readings_WriteTo [OF this] Cons show ?case
    by (simp add: upload_frames_def on_upload_frame [OF assms(1,2)] del: readings.simps(2) WriteTo.simps)
qed

lemma data_then_finish: "map DataFrame ps @ FinishFrame # rest = map DataFrame qs @ [FinishFrame] \<Longrightarrow> ps = qs"
proof (induction ps arbitrary: qs)
  case Nil
  then show ?case by (cases qs) simp_all
next
  case (Cons p ps)
  then show ?case by (cases qs) auto
qed

text \<open>A write worker that is fed a beginning of an upload.\<close>

lemma fed_upload:
  assumes "(write_step tag)\<^sup>*\<^sup>* (handleWriteStream old) w"
    and "prefix (fed w) (map DataFrame ps @ [FinishFrame])"
  shows "final w = old \<or> final w = Some (concat ps)"
proof -
  have "final (handleWriteStream old) = old" by (simp add: handleWriteStream_def)
  with upload_target.old_or_whole [OF assms(1) write_start]
  consider "final w = old" | qs rest where "fed w = map DataFrame qs @ FinishFrame # rest" "final w = Some (concat qs)"
    by (auto simp: uploaded_def data_frames_def)
  then show ?thesis
  proof cases
    case (2 qs rest)
    with assms(2) obtain more where "map DataFrame qs @ FinishFrame # (rest @ more) = map DataFrame ps @ [FinishFrame]"
      by (auto simp: prefix_def)
    with 2 data_then_finish show ?thesis by blast
  qed simp
qed


section \<open>What the client takes for success\<close>

text \<open>While a write worker runs, and when it has failed, the old file is in place.\<close>

definition failing_ok :: "string \<Rightarrow> bytes option \<Rightarrow> write_worker \<Rightarrow> bool" where
  "failing_ok tag old w \<longleftrightarrow> (running w \<longrightarrow> final w = old)
     \<and> (\<forall>v. woffered w = Some v \<longrightarrow> final w = old
          \<and> (\<exists>code msg. v = TaggedValue tag (Error code msg)) \<and> (LF \<notin> set tag \<longrightarrow> client_ok v))"

lemma failing_step: "write_step tag w w' \<Longrightarrow> failing_ok tag old w \<Longrightarrow> failing_ok tag old w'"
  by (induction rule: write_step.induct)
    (auto simp: failing_ok_def running_def fail_with_def cancelWriteStream_def NewTaggedValue_def
      NewError_def)

lemma failing_steps:
  "(write_step tag)\<^sup>*\<^sup>* (handleWriteStream old) w \<Longrightarrow> failing_ok tag old w"
  by (induction rule: rtranclp_induct)
    (auto simp: failing_ok_def handleWriteStream_def dest: failing_step)

lemma send_frames_ok:
  "send_fault e = (\<lambda>_. None) \<Longrightarrow>
   send_frames e src tag ps None c = (None, c\<lparr>sent_values := sent_values c @ upload_frames tag ps\<rparr>)"
  by (induction ps arbitrary: c) (simp_all add: send_def upload_frames_def)

text \<open>
  C37. The client reports a failed upload as done: whatever goes wrong on the server (the disk is
  full, the rename fails, the stream times out), the old file stays, the server says so in a
  tagged error frame, and the client takes that frame for the answer to its next LIST; since it
  is a tagged value and no error, it finishes without a message.
\<close>

theorem failed_upload_looks_done:
  assumes "(write_step (Itoa i))\<^sup>*\<^sup>* (handleWriteStream old) w" and "woffered w = Some v"
    and "int64 i" and "send_fault e = (\<lambda>_. None)" and "chunks e src = (ps, None)"
    and "incoming c = WriteTo (NewInteger i) @ WriteTo v @ rest"
  shows "fst (upload_to e src dst c) = Finished \<and> final w = old"
proof
  have w: "failing_ok (Itoa i) old w" by (rule failing_steps [OF assms(1)])
  then show "final w = old" using assms(2) by (simp add: failing_ok_def)
  from w assms(2) obtain code msg where v: "v = TaggedValue (Itoa i) (Error code msg)" "client_ok v"
    by (auto simp: failing_ok_def)
  let ?c1 = "c\<lparr>incoming := WriteTo v @ rest, sent_values := sent_values c @ [command [''STREAM'', ''W'', dst]]\<rparr>"
  let ?c2 = "?c1\<lparr>sent_values := sent_values ?c1 @ upload_frames (Itoa i) ps\<rparr>"
  have "sendCommand e ''STREAM'' [''W'', dst] c = (Inr (Integer i), ?c1)"
    using sendCommand_answered [of "NewInteger i" c "WriteTo v @ rest" e "''STREAM''" "[''W'', dst]"] assms(3,4,6)
    by (simp add: NewInteger_def)
  moreover have "send_frames e src (Itoa i) ps None ?c1 = (None, ?c2)"
    by (rule send_frames_ok [OF assms(4)])
  moreover have "\<exists>c3. sendCommand e ''LIST'' [dst] ?c2 = (Inr v, c3)"
    using sendCommand_answered [OF v(2), of ?c2 rest e "''LIST''" "[dst]"] assms(4) by simp
  then have "fst (poll e dst 10 ?c2) = Finished"
    using v(1) by (auto simp: numeral_eq_Suc)
  ultimately show "fst (upload_to e src dst c) = Finished"
    using assms(5) by (simp add: upload_to_def)
qed

section \<open>Concrete transfers\<close>

definition one_file :: wvalue where
  "one_file = Table 1 4 [String ''F'', String ''a.txt'', Integer 2, String ''today'']"

lemma quiet_undisturbed [simp]: "undisturbed quiet_env"
  by (simp add: quiet_env_def undisturbed_def)

lemma one_file_ok: "client_ok one_file" "listed_file (Base ''/pub/a.txt'') one_file = Some True"
  by (simp_all add: one_file_def table_wire_def int64_def value_size_def listed_file_def Row_def Base_def
      TrimRight_def)

theorem download_touches_only_its_file_witness:
  "lfiles (snd (download quiet_env ''/pub/a.txt'' ''docs'' (client_with []))) ''a.txt'' = Some (Regular_file ''hi'')"
proof -
  obtain x c' where d: "download quiet_env ''/pub/a.txt'' ''docs'' (client_with []) = (x, c')" by fastforce
  have "into_folder (lfiles (client_with [])) ''/pub/a.txt'' ''docs'' = ''docs/a.txt''"
    by (simp add: into_folder_def Base_def TrimRight_def go_defs)
  with download_touches_only_its_file [OF d refl] d show ?thesis by simp
qed

theorem download_end_to_end_witness:
  "\<exists>bs c'. download quiet_env ''/pub/a.txt'' ''b'' (client_with bs) = (Finished, c')
    \<and> lfiles c' ''b'' = Some (Regular_file ''content'')"
proof -
  obtain w ps where w: "(read_step (Itoa 0))\<^sup>*\<^sup>* (handleReadStream ''content'') w"
    "written w = map (blob_frame (Itoa 0)) ps @ [end_frame (Itoa 0)]"
    using deliver_all [OF idle_start, of "Itoa 0" "''content''"] by (auto simp: handleReadStream_def)
  let ?bs = "WriteTo one_file @ WriteTo (NewInteger 0) @ concat (map WriteTo (written w))"
  obtain x c' where d: "download quiet_env ''/pub/a.txt'' ''b'' (client_with ?bs) = (x, c')" by fastforce
  have "into_folder (lfiles (client_with ?bs)) ''/pub/a.txt'' ''b'' = ''b''" by (simp add: into_folder_def)
  with download_end_to_end [OF w(1) _ one_file_ok _ d refl] w(2) d show ?thesis
    by (intro exI [of _ ?bs] exI [of _ c']) (auto simp: int64_def split: if_splits)
qed

lemma quiet_answered:
  "client_ok v \<Longrightarrow> incoming c = WriteTo v @ rest \<Longrightarrow> sendCommand quiet_env n args c =
    (Inr v, c\<lparr>incoming := rest, sent_values := sent_values c @ [command (n # args)]\<rparr>)"
  using sendCommand_answered [of v c rest quiet_env n args] by simp

lemma sample_upload:
  "\<exists>c'. upload quiet_env ''a.txt'' ''b'' (client_with (WriteTo (Error ''NOTFOUND'' ''no'')
      @ WriteTo (Integer 0) @ WriteTo one_file)) = (Finished, c')"
proof -
  let ?c = "client_with (WriteTo (Error ''NOTFOUND'' ''no'') @ WriteTo (Integer 0) @ WriteTo one_file)"
  have 1: "sendCommand quiet_env ''LIST'' [''b''] ?c = (Inr (Error ''NOTFOUND'' ''no''),
      ?c\<lparr>incoming := WriteTo (Integer 0) @ WriteTo one_file, sent_values := sent_values ?c @ [command [''LIST'', ''b'']]\<rparr>)"
    by (rule quiet_answered) simp_all
  have 2: "sendCommand quiet_env ''STREAM'' [''W'', ''b''] d = (Inr (Integer 0),
      d\<lparr>incoming := WriteTo one_file, sent_values := sent_values d @ [command [''STREAM'', ''W'', ''b'']]\<rparr>)"
    if "incoming d = WriteTo (Integer 0) @ WriteTo one_file" for d
    using quiet_answered [OF _ that] by (simp add: int64_def)
  have 3: "fst (poll quiet_env ''b'' 10 d) = Finished" if "incoming d = WriteTo one_file" for d
    using quiet_answered [OF one_file_ok(1), of d "[]" "''LIST''" "[''b'']"] that
    by (simp add: numeral_eq_Suc) (simp add: one_file_def)
  show ?thesis
    using 3 by (auto simp: upload_def statRemoteFile_def 1 upload_to_def 2 send_frames_ok prod_eq_iff
        simp del: WriteTo.simps send_frames.simps poll.simps)
qed


theorem failed_upload_looks_done_witness:
  "\<exists>bs. fst (upload_to quiet_env ''a.txt'' ''b'' (client_with bs)) = Finished"
proof -
  let ?w = "fail_with (Itoa 3) ''TIMEOUT'' ''Timed out due to inactivity'' (cancelWriteStream (handleWriteStream None))"
  have "write_step (Itoa 3) (handleWriteStream None) ?w"
    by (rule write_step.handleTimeout) (simp add: running_def handleWriteStream_def)
  then have run: "(write_step (Itoa 3))\<^sup>*\<^sup>* (handleWriteStream None) ?w" by simp
  let ?v = "NewTaggedValue (NewError ''TIMEOUT'' ''Timed out due to inactivity'') (Itoa 3)"
  have "woffered ?w = Some ?v" by (simp add: fail_with_def)
  from failed_upload_looks_done [OF run this, of quiet_env "''a.txt''" "[''hi'']"
      "client_with (WriteTo (NewInteger 3) @ WriteTo ?v @ [])" "[]" "''b''"]
  show ?thesis by (auto simp: int64_def simp del: WriteTo.simps)
qed

end
