(* ===== verification/Go_Flag.thy ===== *)
theory Go_Flag
  imports Fly_Prelude "HOL-Library.Sublist"
begin

text \<open>
  Package \<^verbatim>\<open>flag\<close> as the client uses it: \<open>FlagSet.Parse\<close> for a set with one boolean flag.
  \<open>None\<close> is an error (a malformed or unknown flag, or a request for help).
\<close>

definition ParseBool :: "string \<Rightarrow> bool option" where
  "ParseBool s =
     (if s \<in> {''1'', ''t'', ''T'', ''true'', ''TRUE'', ''True''} then Some True
      else if s \<in> {''0'', ''f'', ''F'', ''false'', ''FALSE'', ''False''} then Some False
      else None)"

text \<open>What an argument is: no flag, the end of the flags, a value for the flag, an error.\<close>

datatype flag_arg = No_flag | End_of_flags | Flag_value bool | Bad_flag

definition flag_value :: "string \<Rightarrow> string \<Rightarrow> flag_arg" where
  "flag_value flag s =
     (case s of
        [] \<Rightarrow> Bad_flag
      | c # cs \<Rightarrow>
          if c = CHR ''-'' \<or> c = CHR ''='' then Bad_flag
          else
            let name = c # takeWhile (\<lambda>d. d \<noteq> CHR ''='') cs in
            if name \<noteq> flag then Bad_flag
            else if CHR ''='' \<notin> set cs then Flag_value True
            else (case ParseBool (tl (dropWhile (\<lambda>d. d \<noteq> CHR ''='') cs)) of
                    Some v \<Rightarrow> Flag_value v
                  | None \<Rightarrow> Bad_flag))"

definition flag_arg :: "string \<Rightarrow> string \<Rightarrow> flag_arg" where
  "flag_arg flag s =
     (if length s < 2 \<or> hd s \<noteq> CHR ''-'' then No_flag
      else if s = ''--'' then End_of_flags
      else flag_value flag (if s ! 1 = CHR ''-'' then drop 2 s else drop 1 s))"

fun parse_flags :: "string \<Rightarrow> bool \<Rightarrow> string list \<Rightarrow> (bool \<times> string list) option" where
  "parse_flags flag v [] = Some (v, [])"
| "parse_flags flag v (a # as) =
     (case flag_arg flag a of
        No_flag \<Rightarrow> Some (v, a # as)
      | End_of_flags \<Rightarrow> Some (v, as)
      | Flag_value w \<Rightarrow> parse_flags flag w as
      | Bad_flag \<Rightarrow> None)"

lemma parse_flags_suffix: "parse_flags flag v as = Some (w, rest) \<Longrightarrow> suffix rest as"
  by (induction flag v as rule: parse_flags.induct)
    (auto split: flag_arg.splits intro: suffix_ConsI)

text \<open>Flags come first: what does not begin with a minus ends them.\<close>

lemma parse_flags_none [simp]:
  "as = [] \<or> take 1 (hd as) \<noteq> ''-'' \<Longrightarrow> parse_flags flag v as = Some (v, as)"
  by (cases as; cases "hd as") (auto simp: flag_arg_def)

end
