(* ===== verification/Known_Hosts.thy ===== *)
theory Known_Hosts
  imports Client Go_Csv Go_Flag
begin

text \<open>
  The command line client, second part: targets, the file of known hosts, the decision to trust
  a certificate, and the command \<open>cp\<close> as a whole, from \<^verbatim>\<open>src/cmd/fly/fly-cp.go\<close>,
  \<^verbatim>\<open>src/cmd/fly/utils.go\<close> and \<^verbatim>\<open>src/cmd/fly/main.go\<close>.
\<close>

section \<open>Targets\<close>

record target =
  tpath :: string
  thost :: string

definition parseTarget :: "string \<Rightarrow> target" where
  "parseTarget s0 =
     (if \<not> prefix ''//'' s0 then \<lparr>tpath = s0, thost = []\<rparr>
      else
        let s = drop 2 s0;
            t = (if SLASH \<notin> set s then \<lparr>tpath = ''/'', thost = s\<rparr>
                 else \<lparr>tpath = tl (dropWhile (\<lambda>c. c \<noteq> SLASH) s), thost = takeWhile (\<lambda>c. c \<noteq> SLASH) s\<rparr>)
        in if CHR '':'' \<in> set (thost t) then t else t\<lparr>thost := thost t @ '':6767''\<rparr>)"

section \<open>The file of known hosts\<close>

record knownHost =
  khost :: string
  kfingerprint :: string

text \<open>An error of reading the file, or a panic: a record with one field has no fingerprint.\<close>

datatype hosts_error = Hosts_unreadable string | Hosts_panic string

definition hosts_path :: "string \<Rightarrow> string" where
  "hosts_path homeDir = Join [homeDir, ''.fly/known_hosts'']"

fun known_hosts :: "string list list \<Rightarrow> hosts_error + knownHost list" where
  "known_hosts [] = Inr []"
| "known_hosts ((h # fp # _) # rs) =
     (case known_hosts rs of Inl x \<Rightarrow> Inl x | Inr ks \<Rightarrow> Inr (\<lparr>khost = h, kfingerprint = fp\<rparr> # ks))"
| "known_hosts (_ # rs) = Inl (Hosts_panic ''runtime error: index out of range'')"

definition readKnownHosts :: "client_env \<Rightarrow> client \<Rightarrow> hosts_error + knownHost list" where
  "readKnownHosts e c =
     (case home e of
        Inl x \<Rightarrow> Inl (Hosts_unreadable (''failed to get user home: '' @ x))
      | Inr homeDir \<Rightarrow>
          (case open_fault e (hosts_path homeDir) of
             Some x \<Rightarrow> Inl (Hosts_unreadable (''failed to open .fly/known_hosts for reading: '' @ x))
           | None \<Rightarrow>
               (case lfiles c (hosts_path homeDir) of
                  None \<Rightarrow> Inr []
                | Some (Regular_file b) \<Rightarrow>
                    (case csv_read_all None (csv_normalize b) of
                       Inl x \<Rightarrow> Inl (Hosts_unreadable ''failed to read .fly/known_hosts'')
                     | Inr records \<Rightarrow> known_hosts records)
                | Some _ \<Rightarrow> Inl (Hosts_unreadable ''failed to read .fly/known_hosts''))))"

text \<open>
  Appending a record: the folder is made if it is not there, the file is opened for appending
  and created if it is not there.
\<close>

definition allowFingerprint ::
  "client_env \<Rightarrow> string \<Rightarrow> string \<Rightarrow> client \<Rightarrow> string option \<times> client" where
  "allowFingerprint e host fingerprint c =
     (case home e of
        Inl x \<Rightarrow> (Some (''failed to get user home: '' @ x), c)
      | Inr homeDir \<Rightarrow>
          let flyFolder = Join [homeDir, ''.fly'']; hostPath = Join [flyFolder, ''known_hosts''] in
          case (if stat_fault e flyFolder = None \<and> lfiles c flyFolder = None
                then (case create_fault e flyFolder of
                        Some x \<Rightarrow> Inl (''failed to create .fly: '' @ x)
                      | None \<Rightarrow> Inr (c\<lparr>lfiles := (lfiles c)(flyFolder \<mapsto> Folder)\<rparr>))
                else Inr c) of
            Inl x \<Rightarrow> (Some x, c)
          | Inr c1 \<Rightarrow>
              (case create_fault e hostPath of
                 Some x \<Rightarrow> (Some (''failed to open .fly/known_hosts for writing: '' @ x), c1)
               | None \<Rightarrow>
                   (case write_file e 0 hostPath (csv_line [host, fingerprint]) c1 of
                      (Some x, c2) \<Rightarrow> (Some (''failed to write to .fly/known_hosts: '' @ x), c2)
                    | (None, c2) \<Rightarrow> (None, c2))))"

section \<open>Trust\<close>

text \<open>\<open>fmt.Sprintf "%x"\<close> of a byte sequence.\<close>

definition hex_digit :: "nat \<Rightarrow> char" where
  "hex_digit n = ''0123456789abcdef'' ! n"

definition hex :: "bytes \<Rightarrow> string" where
  "hex b = concat (map (\<lambda>c. [hex_digit (of_char c div 16), hex_digit (of_char c mod 16)]) b)"

datatype verdict = Accepted | Untrusted string bool | Unverifiable hosts_error

definition fingerprint_of :: "client_env \<Rightarrow> bytes \<Rightarrow> string" where
  "fingerprint_of e rawCert = hex (sha256 e rawCert)"

text \<open>The loop over the known hosts: the first record of a host decides.\<close>

fun check_hosts :: "knownHost list \<Rightarrow> string \<Rightarrow> string \<Rightarrow> verdict" where
  "check_hosts [] host fingerprint = Untrusted fingerprint False"
| "check_hosts (k # ks) host fingerprint =
     (if khost k = host
      then if kfingerprint k = fingerprint then Accepted else Untrusted fingerprint True
      else check_hosts ks host fingerprint)"

definition verifyPeerCertificate :: "client_env \<Rightarrow> string \<Rightarrow> bytes \<Rightarrow> client \<Rightarrow> verdict" where
  "verifyPeerCertificate e host rawCert c =
     (case readKnownHosts e c of
        Inl x \<Rightarrow> Unverifiable x
      | Inr ks \<Rightarrow> check_hosts ks host (fingerprint_of e rawCert))"

text \<open>The answers typed by the user, line by line; the end of the input is a no.\<close>

function trustPrompt :: "bytes \<Rightarrow> bool" where
  "trustPrompt s =
     (if LF \<notin> set s then False
      else
        let line = takeWhile (\<lambda>c. c \<noteq> LF) s; rest = tl (dropWhile (\<lambda>c. c \<noteq> LF) s) in
        if line = ''yes'' then True else if line = ''no'' then False else trustPrompt rest)"
  by pat_completeness auto
termination
proof (relation "measure length", goal_cases)
  case (2 s line rest)
  then show ?case using split_at_first [of LF s] by (metis (no_types, lifting) in_measure
        length_append length_Cons less_add_Suc2 add_Suc_right)
qed simp

declare trustPrompt.simps [simp del]

section \<open>Connecting\<close>

datatype connection = Connected | Fingerprint_error string bool | Not_connected string | Connect_panic string

text \<open>The \<open>n\<close>-th connection, with TLS unless it is disabled.\<close>

definition connect :: "client_env \<Rightarrow> nat \<Rightarrow> string \<Rightarrow> bool \<Rightarrow> client \<Rightarrow> connection" where
  "connect e n host disableTls c =
     (case dial_fault e host of
        Some x \<Rightarrow> Not_connected x
      | None \<Rightarrow>
          if disableTls then Connected
          else
            (case verifyPeerCertificate e host (peer_cert e n) c of
               Accepted \<Rightarrow> Connected
             | Untrusted fingerprint changed \<Rightarrow> Fingerprint_error fingerprint changed
             | Unverifiable (Hosts_unreadable x) \<Rightarrow>
                 Not_connected (''failed to read .fly/known_hosts: '' @ x)
             | Unverifiable (Hosts_panic x) \<Rightarrow> Connect_panic x))"

section \<open>The command\<close>

definition transfer :: "client_env \<Rightarrow> target \<Rightarrow> target \<Rightarrow> client \<Rightarrow> exit \<times> client" where
  "transfer e source dest c =
     (if thost source = [] then upload e (tpath source) (tpath dest) c
      else download e (tpath source) (tpath dest) c)"

definition connection_failed :: "string \<Rightarrow> connection \<Rightarrow> exit" where
  "connection_failed host r =
     (case r of
        Connect_panic x \<Rightarrow> Crash x
      | Fingerprint_error _ changed \<Rightarrow>
          Returned (''Failed to connect to '' @ host @ '': ''
            @ (if changed then ''TLS fingerprint was changed'' else ''unknown TLS fingerprint''))
      | Not_connected x \<Rightarrow> Returned (''Failed to connect to '' @ host @ '': '' @ x)
      | Connected \<Rightarrow> Finished)"

definition usage :: exit where
  "usage = Returned ''Usage: fly cp SOURCE DEST''"

text \<open>
  \<open>flycp\<close> behind the parsing of its flags: \<open>notls\<close> and the arguments that remain. A host that
  is empty stands for a local path.
\<close>

definition copy_command :: "client_env \<Rightarrow> bool \<Rightarrow> string list \<Rightarrow> bytes \<Rightarrow> client \<Rightarrow> exit \<times> client" where
  "copy_command e notls args typed c =
     (case args of
        [a, b] \<Rightarrow>
          let source = parseTarget a; dest = parseTarget b;
              host = (if thost dest \<noteq> [] then thost dest else thost source) in
          if thost source \<noteq> [] \<and> thost dest \<noteq> []
          then (Returned ''Transfers between servers are not currently supported'', c)
          else if thost source = [] \<and> thost dest = []
          then (Returned ''Local file transfers are not currently supported'', c)
          else
            (case connect e 0 host notls c of
               Connected \<Rightarrow> transfer e source dest c
             | Fingerprint_error fingerprint changed \<Rightarrow>
                 if changed
                 then (Returned ''REMOTE HOST IDENTIFICATION HAS CHANGED!!!'', c)
                 else if \<not> trustPrompt typed then (Returned [], c)
                 else
                   (case allowFingerprint e host fingerprint c of
                      (Some x, c1) \<Rightarrow>
                        (Returned (''Failed to add fingerprint to known hosts: '' @ x), c1)
                    | (None, c1) \<Rightarrow>
                        (case connect e 1 host notls c1 of
                           Connected \<Rightarrow> transfer e source dest c1
                         | r \<Rightarrow> (connection_failed host r, c1)))
             | r \<Rightarrow> (connection_failed host r, c))
      | _ \<Rightarrow> (usage, c))"

definition flycp :: "client_env \<Rightarrow> string list \<Rightarrow> bytes \<Rightarrow> client \<Rightarrow> exit \<times> client" where
  "flycp e args typed c =
     (case parse_flags ''notls'' False args of
        None \<Rightarrow> (usage, c)
      | Some (notls, rest) \<Rightarrow> copy_command e notls rest typed c)"

text \<open>\<open>main\<close> of \<^verbatim>\<open>src/cmd/fly/main.go\<close>, on the arguments of the process, the program's name first.\<close>

definition fly_main :: "client_env \<Rightarrow> string list \<Rightarrow> bytes \<Rightarrow> client \<Rightarrow> exit \<times> client" where
  "fly_main e args typed c =
     (case args of
        _ # cmd # rest \<Rightarrow> if cmd = ''cp'' then flycp e rest typed c else (usage, c)
      | _ \<Rightarrow> (usage, c))"

end
