(* ===== verification/Trust_Props.thy ===== *)
theory Trust_Props
  imports Known_Hosts
begin

text \<open>
  The properties of the client's trust in a server: what the file of known hosts remembers, and
  that nothing is sent over TLS to a server whose certificate is neither the remembered one nor
  the one the user has just accepted.
\<close>

section \<open>Paths\<close>

lemma clean_segs_plain:
  "\<forall>s \<in> set ss. plain s \<Longrightarrow> clean_segs True (build_path True ss) = ss"
proof -
  assume p: "\<forall>s \<in> set ss. plain s"
  have "clean_segs True ([] @ SLASH # join_on ''/'' ss) = clean_segs True [] @ segs (join_on ''/'' ss)"
  proof (rule clean_segs_append_plain)
    show "\<forall>s \<in> set (split_on SLASH (join_on ''/'' ss)). \<not> dotted s"
      using p by (cases "ss = []") (auto simp: plain_def dotted_def split_join)
  qed
  also have "clean_segs True [] = []" by (simp add: clean_segs_def clean_step_def)
  also have "segs (join_on ''/'' ss) = ss"
    using p by (cases "ss = []") (auto simp: segs_def plain_def split_join filter_id_conv)
  finally show ?thesis by (simp add: build_path_def)
qed

lemma rooted_build [simp]: "rooted (build_path True ss)"
  by (simp add: rooted_def build_path_def)

lemma Join_rooted:
  assumes "rooted h" and "\<forall>s \<in> set (split_on SLASH q). \<not> dotted s"
  shows "Join [h, q] = build_path True (clean_segs True h @ segs q)"
proof -
  have "h \<noteq> []" using assms(1) by (simp add: rooted_def)
  from Join_below [OF this assms(2)] assms(1) show ?thesis by (simp add: below_def)
qed

lemma fly_split:
  "split_on SLASH ''.fly'' = [''.fly'']" "split_on SLASH ''known_hosts'' = [''known_hosts'']"
  "split_on SLASH ''.fly/known_hosts'' = [''.fly'', ''known_hosts'']"
proof -
  show 1: "split_on SLASH ''.fly'' = [''.fly'']" by (rule split_on_no_sep) simp
  show 2: "split_on SLASH ''known_hosts'' = [''known_hosts'']" by (rule split_on_no_sep) simp
  have "split_on SLASH (''.fly'' @ SLASH # ''known_hosts'') = [''.fly'', ''known_hosts'']"
    by (subst split_on_append_sep) (simp only: 1 2 append.simps)
  then show "split_on SLASH ''.fly/known_hosts'' = [''.fly'', ''known_hosts'']"
    by (simp only: append.simps)
qed

lemma fly_segs:
  "segs ''.fly'' = [''.fly'']" "segs ''known_hosts'' = [''known_hosts'']"
  "segs ''.fly/known_hosts'' = [''.fly'', ''known_hosts'']"
  "\<forall>s \<in> set (split_on SLASH ''.fly''). \<not> dotted s"
  "\<forall>s \<in> set (split_on SLASH ''known_hosts''). \<not> dotted s"
  "\<forall>s \<in> set (split_on SLASH ''.fly/known_hosts''). \<not> dotted s"
  unfolding segs_def fly_split by (simp_all add: dotted_def)

text \<open>The folder and the file, named in two steps or in one.\<close>

lemma fly_paths:
  assumes "rooted h"
  shows "Join [h, ''.fly''] = build_path True (clean_segs True h @ [''.fly''])"
    and "hosts_path h = build_path True (clean_segs True h @ [''.fly'', ''known_hosts''])"
  using Join_rooted [OF assms fly_segs(4)] Join_rooted [OF assms fly_segs(6)]
  by (simp_all only: hosts_path_def fly_segs)

lemma fly_plain: "\<forall>s \<in> set (clean_segs True h @ [''.fly'', ''known_hosts'']). plain s"
  using clean_segs_rooted_plain [of _ h] by (auto simp: plain_def dotted_def)

lemma hosts_path_twice:
  assumes "rooted h"
  shows "Join [Join [h, ''.fly''], ''known_hosts''] = hosts_path h"
proof -
  have "clean_segs True (build_path True (clean_segs True h @ [''.fly''])) = clean_segs True h @ [''.fly'']"
    using clean_segs_plain [of "clean_segs True h @ [''.fly'']"] fly_plain [of h] by simp
  with Join_rooted [OF rooted_build fly_segs(5), of "clean_segs True h @ [''.fly'']"]
  show ?thesis by (simp only: fly_paths [OF assms] fly_segs append_assoc append.simps)
qed

lemma fly_folder_other: "rooted h \<Longrightarrow> Join [h, ''.fly''] \<noteq> hosts_path h"
proof
  assume r: "rooted h" and eq: "Join [h, ''.fly''] = hosts_path h"
  have "clean_segs True (Join [h, ''.fly'']) = clean_segs True h @ [''.fly'']"
    using clean_segs_plain [of "clean_segs True h @ [''.fly'']"] fly_plain [of h]
    by (simp add: fly_paths(1) [OF r])
  moreover have "clean_segs True (hosts_path h) = clean_segs True h @ [''.fly'', ''known_hosts'']"
    unfolding fly_paths(2) [OF r] by (rule clean_segs_plain [OF fly_plain])
  ultimately show False unfolding eq by simp
qed

section \<open>The file of known hosts\<close>

definition host_records :: "knownHost list \<Rightarrow> string list list" where
  "host_records ks = map (\<lambda>k. [khost k, kfingerprint k]) ks"

text \<open>The file holds the records of \<open>ks\<close> as the client writes them, or is not there yet.\<close>

definition hosts_file :: "client_env \<Rightarrow> client \<Rightarrow> knownHost list \<Rightarrow> bool" where
  "hosts_file e c ks \<longleftrightarrow>
     (\<exists>h. home e = Inr h \<and> rooted h \<and> open_fault e (hosts_path h) = None
        \<and> (lfiles c (hosts_path h) = None \<and> ks = []
           \<or> lfiles c (hosts_path h) = Some (Regular_file (csv_file (host_records ks)))))
     \<and> (\<forall>k \<in> set ks. LF \<notin> set (khost k) \<and> LF \<notin> set (kfingerprint k))"

lemma known_hosts_records: "known_hosts (host_records ks) = Inr ks"
  by (induction ks) (simp_all add: host_records_def)

lemma read_hosts: "hosts_file e c ks \<Longrightarrow> readKnownHosts e c = Inr ks"
proof -
  assume a: "hosts_file e c ks"
  then have "\<forall>fs \<in> set (host_records ks). \<forall>f \<in> set fs. LF \<notin> set f"
    by (auto simp: hosts_file_def host_records_def)
  then have "csv_normalize (csv_file (host_records ks)) = csv_file (host_records ks)"
    by (rule csv_normalize_file)
  moreover have "csv_read_all None (csv_file (host_records ks)) = Inr (host_records ks)"
    by (rule csv_read_all_file [of _ 2]) (auto simp: host_records_def)
  ultimately show ?thesis
    using a by (auto simp: hosts_file_def readKnownHosts_def known_hosts_records)
qed

lemma csv_file_snoc: "csv_file (host_records (ks @ [k])) = csv_file (host_records ks) @ csv_line [khost k, kfingerprint k]"
  by (simp add: csv_file_def host_records_def)

lemma allow_writes:
  assumes "hosts_file e c ks" and "LF \<notin> set host" and "LF \<notin> set fp"
    and "allowFingerprint e host fp c = (None, c')"
  shows "hosts_file e c' (ks @ [\<lparr>khost = host, kfingerprint = fp\<rparr>])"
proof -
  from assms(1) obtain h where h: "home e = Inr h" "rooted h" "open_fault e (hosts_path h) = None"
    "lfiles c (hosts_path h) = None \<and> ks = []
     \<or> lfiles c (hosts_path h) = Some (Regular_file (csv_file (host_records ks)))"
    by (auto simp: hosts_file_def)
  let ?f = "Join [h, ''.fly'']"
  note other = fly_folder_other [OF h(2)]
  define c1 where "c1 = (if stat_fault e (Join [h, ''.fly'']) = None \<and> lfiles c (Join [h, ''.fly'']) = None
    then c\<lparr>lfiles := (lfiles c)(Join [h, ''.fly''] \<mapsto> Folder)\<rparr> else c)"
  have "lfiles c1 (hosts_path h) = lfiles c (hosts_path h)" using other by (simp add: c1_def)
  moreover have "write_file e 0 (hosts_path h) (csv_line [host, fp]) c1 = (None, c')"
    using assms(4) h(1)
    by (auto simp: c1_def allowFingerprint_def Let_def hosts_path_twice [OF h(2)]
        split: if_splits option.splits prod.splits)
  ultimately show ?thesis
    using h assms(1-3)
    by (auto simp: hosts_file_def write_file_def append_to_def csv_file_snoc csv_file_def
        host_records_def split: option.splits)
qed

lemma allow_sent:
  "allowFingerprint e host fp c = (x, c') \<Longrightarrow> sent_values c' = sent_values c"
  by (auto simp: allowFingerprint_def Let_def write_file_def append_to_def
      split: sum.splits if_splits option.splits prod.splits)

lemma allow_incoming:
  "allowFingerprint e host fp c = (x, c') \<Longrightarrow> incoming c' = incoming c"
  by (auto simp: allowFingerprint_def Let_def write_file_def append_to_def
      split: sum.splits if_splits option.splits prod.splits)

section \<open>Trust\<close>

lemma check_hosts_snoc:
  "check_hosts (ks @ [k]) h fp =
    (if h \<in> khost ` set ks then check_hosts ks h fp
     else if khost k = h then (if kfingerprint k = fp then Accepted else Untrusted fp True)
     else check_hosts ks h fp)"
  by (induction ks) auto

lemma check_hosts_verdict [simp]: "check_hosts ks h fp \<noteq> Unverifiable y"
  by (induction ks) auto

lemma check_hosts_new: "check_hosts ks h fp = Untrusted fp' False \<Longrightarrow> h \<notin> khost ` set ks \<and> fp' = fp"
  by (induction ks) (auto split: if_splits)

lemma check_hosts_unknown: "h \<notin> khost ` set ks \<Longrightarrow> check_hosts ks h fp = Untrusted fp False"
  by (induction ks) auto

lemma verify_hosts:
  "hosts_file e c ks \<Longrightarrow> verifyPeerCertificate e h cert c = check_hosts ks h (fingerprint_of e cert)"
  by (simp add: verifyPeerCertificate_def read_hosts)

text \<open>
  C33. What is trusted once is remembered, and only that: after a fingerprint has been added for a
  host, the file reads back as it was with the new record at its end; a host that was not
  known is from then on accepted with exactly this fingerprint and reported as changed with
  any other; for every other host nothing changes. Nor does it for a host that was known
  already: the first record of a host decides, so that adding the new fingerprint of a changed
  host, as the client's message advises, does not make it accepted.
\<close>

theorem known_hosts_remember:
  assumes "hosts_file e c ks" and "LF \<notin> set host" and "LF \<notin> set fp"
    and "allowFingerprint e host fp c = (None, c')"
  shows "readKnownHosts e c' = Inr (ks @ [\<lparr>khost = host, kfingerprint = fp\<rparr>])
    \<and> verifyPeerCertificate e h cert c' =
      (if h = host \<and> host \<notin> khost ` set ks
       then if fingerprint_of e cert = fp then Accepted else Untrusted (fingerprint_of e cert) True
       else verifyPeerCertificate e h cert c)"
  using allow_writes [OF assms] assms(1)
  by (auto simp: read_hosts verify_hosts check_hosts_snoc)

lemma hex_digits: "n < 16 \<Longrightarrow> hex_digit n \<in> set ''0123456789abcdef''"
  unfolding hex_digit_def by (rule nth_mem) simp

lemma hex_no_LF: "LF \<notin> set (hex b)"
proof -
  have "hex_digit n \<noteq> LF" if "n < 16" for n using hex_digits [OF that] by auto
  moreover have "(of_char c :: nat) div 16 < 16" for c :: char
    using of_char_of [of 0] by (simp add: less_mult_imp_div_less)
  moreover have "(of_char c :: nat) mod 16 < 16" for c :: char by simp
  ultimately show ?thesis unfolding hex_def by (induction b) (simp_all add: eq_commute [of LF])
qed

lemma parseTarget_host: "LF \<notin> set s \<Longrightarrow> LF \<notin> set (thost (parseTarget s))"
  by (auto simp: parseTarget_def Let_def dest: in_set_dropD set_takeWhileD)

text \<open>The fingerprint of the connection is the known one, or the one the user has accepted.\<close>

definition trusted_connection :: "client_env \<Rightarrow> knownHost list \<Rightarrow> string \<Rightarrow> bytes \<Rightarrow> bool" where
  "trusted_connection e ks host typed \<longleftrightarrow>
     check_hosts ks host (fingerprint_of e (peer_cert e 0)) = Accepted
     \<or> host \<notin> khost ` set ks \<and> trustPrompt typed
       \<and> fingerprint_of e (peer_cert e 1) = fingerprint_of e (peer_cert e 0)"

lemma copy_command_trusted:
  assumes "copy_command e False [a, b] typed c = (x, c')" and "sent_values c' \<noteq> sent_values c"
    and "hosts_file e c ks" and "LF \<notin> set a" and "LF \<notin> set b"
    and "host = (if thost (parseTarget b) \<noteq> [] then thost (parseTarget b) else thost (parseTarget a))"
  shows "trusted_connection e ks host typed"
proof -
  have LF: "LF \<notin> set host" using assms(4-6) parseTarget_host by simp
  consider (known) "connect e 0 host False c = Connected"
    | (new) fp c1 where "connect e 0 host False c = Fingerprint_error fp False" "trustPrompt typed"
        "allowFingerprint e host fp c = (None, c1)" "connect e 1 host False c1 = Connected"
    using assms(1,2,6)
    by (auto simp: copy_command_def Let_def split: if_splits connection.splits prod.splits option.splits
        dest: allow_sent)
  then show ?thesis
  proof cases
    case known
    then show ?thesis
      using verify_hosts [OF assms(3)]
      by (auto simp: trusted_connection_def connect_def split: option.splits verdict.splits hosts_error.splits)
  next
    case new
    then have "check_hosts ks host (fingerprint_of e (peer_cert e 0)) = Untrusted fp False"
      using verify_hosts [OF assms(3)]
      by (auto simp: connect_def split: option.splits verdict.splits hosts_error.splits)
    from check_hosts_new [OF this] have fp: "host \<notin> khost ` set ks" "fp = fingerprint_of e (peer_cert e 0)"
      by simp_all
    have "hosts_file e c1 (ks @ [\<lparr>khost = host, kfingerprint = fp\<rparr>])"
      by (rule allow_writes [OF assms(3) LF _ new(3)]) (simp add: fp(2) fingerprint_of_def hex_no_LF)
    from verify_hosts [OF this] new(4) fp(1) have "fp = fingerprint_of e (peer_cert e 1)"
      by (auto simp: connect_def check_hosts_snoc split: option.splits verdict.splits hosts_error.splits if_splits)
    with fp new(2) show ?thesis by (simp add: trusted_connection_def)
  qed
qed

lemma copy_command_args:
  "copy_command e notls args typed c = (x, c') \<Longrightarrow> sent_values c' \<noteq> sent_values c \<Longrightarrow> \<exists>a b. args = [a, b]"
  by (auto simp: copy_command_def split: list.splits)

text \<open>
  C15. Over TLS nothing is sent to a server that is not trusted: if the program, called with any
  arguments at all, has sent anything, then it was the command cp with two operands; and unless
  TLS was disabled by the flag, the certificate of the connection has the fingerprint in the
  first record of that host, or the host had no record, the user has answered yes, and the
  certificate of the connection that is used has the fingerprint that the user was shown.
\<close>

theorem nothing_sent_without_trust:
  assumes "fly_main e args typed c = (x, c')" and "sent_values c' \<noteq> sent_values c"
    and "hosts_file e c ks" and "\<forall>a \<in> set args. LF \<notin> set a"
  shows "\<exists>p rest notls a b. args = p # ''cp'' # rest \<and> parse_flags ''notls'' False rest = Some (notls, [a, b])
    \<and> (notls \<or> trusted_connection e ks
        (if thost (parseTarget b) \<noteq> [] then thost (parseTarget b) else thost (parseTarget a)) typed)"
proof -
  from assms(1,2) obtain p rest notls ops where f: "args = p # ''cp'' # rest"
    "parse_flags ''notls'' False rest = Some (notls, ops)" "copy_command e notls ops typed c = (x, c')"
    by (auto simp: fly_main_def flycp_def split: list.splits if_splits option.splits)
  from copy_command_args [OF f(3) assms(2)] obtain a b where ab: "ops = [a, b]" by blast
  have "LF \<notin> set a" "LF \<notin> set b"
    using assms(4) f(1) ab set_mono_suffix [OF parse_flags_suffix [OF f(2)]] by auto
  then have "\<not> notls \<Longrightarrow> trusted_connection e ks
      (if thost (parseTarget b) \<noteq> [] then thost (parseTarget b) else thost (parseTarget a)) typed"
    using copy_command_trusted [OF _ assms(2,3) _ _ refl] f(3) ab by simp
  with f ab show ?thesis by blast
qed

section \<open>A first connection\<close>

abbreviation HOST :: string where "HOST \<equiv> ''h:1''"

lemma sample_hosts: "hosts_file quiet_env (client_with bs) []"
proof -
  have r: "rooted ''/home/u''" by (simp add: rooted_def)
  then have "rooted (hosts_path ''/home/u'')" by (simp add: fly_paths(2))
  then have "hosts_path ''/home/u'' \<noteq> ''a.txt''" "hosts_path ''/home/u'' \<noteq> ''docs''"
    by (auto simp: rooted_def)
  with r show ?thesis by (simp add: hosts_file_def quiet_env_def client_with_def)
qed

lemma sample_allow: "\<exists>c'. allowFingerprint quiet_env h fp c = (None, c')"
  by (simp add: allowFingerprint_def Let_def quiet_env_def write_file_def)

theorem known_hosts_remember_witness:
  "\<exists>c'. allowFingerprint quiet_env HOST ''ab'' (client_with []) = (None, c')
    \<and> readKnownHosts quiet_env c' = Inr [\<lparr>khost = HOST, kfingerprint = ''ab''\<rparr>]"
proof -
  obtain c' where c': "allowFingerprint quiet_env HOST ''ab'' (client_with []) = (None, c')"
    using sample_allow by blast
  from known_hosts_remember [OF sample_hosts _ _ this] c' show ?thesis by simp
qed

lemma quiet_connect:
  "hosts_file quiet_env c ks \<Longrightarrow> connect quiet_env n h False c =
    (case check_hosts ks h [] of Accepted \<Rightarrow> Connected | Untrusted fp changed \<Rightarrow> Fingerprint_error fp changed
     | Unverifiable y \<Rightarrow> Connect_panic [])"
  using verify_hosts [of quiet_env c ks h "[]"]
  by (simp add: connect_def quiet_env_def fingerprint_of_def hex_def split: verdict.split)

lemma download_sends:
  assumes "incoming c = []"
  shows "sent_values (snd (download quiet_env p d c)) \<noteq> sent_values c"
proof -
  let ?c1 = "c\<lparr>sent_values := sent_values c @ [NewArray (map NewString [''LIST'', p])]\<rparr>"
  have "\<exists>x. receive_value quiet_env ?c1 = (Inl x, ?c1)"
    using assms by (cases c) (simp add: receive_value_def Read_def readValue.simps wrapIO_def)
  then show ?thesis
    by (auto simp: download_def statRemoteFile_def sendCommand_def send_def)
qed

theorem nothing_sent_without_trust_witness:
  "\<exists>x c'. fly_main quiet_env [''fly'', ''cp'', ''//h:1/x'', ''b''] (''yes'' @ [LF]) (client_with []) = (x, c')
    \<and> sent_values c' \<noteq> [] \<and> trusted_connection quiet_env [] HOST (''yes'' @ [LF])"
proof -
  let ?call = "fly_main quiet_env [''fly'', ''cp'', ''//h:1/x'', ''b''] (''yes'' @ [LF]) (client_with [])"
  obtain c1 where c1: "allowFingerprint quiet_env HOST [] (client_with []) = (None, c1)"
    using sample_allow by blast
  have h1: "hosts_file quiet_env c1 [\<lparr>khost = HOST, kfingerprint = []\<rparr>]"
    using allow_writes [OF sample_hosts _ _ c1] by simp
  have t: "parseTarget ''//h:1/x'' = \<lparr>tpath = ''x'', thost = HOST\<rparr>" "parseTarget ''b'' = \<lparr>tpath = ''b'', thost = []\<rparr>"
    by (simp_all add: parseTarget_def)
  have yes: "trustPrompt (''yes'' @ [LF])" by (simp add: trustPrompt.simps)
  have s1: "incoming c1 = []" "sent_values c1 = []"
    using allow_incoming [OF c1] allow_sent [OF c1] by simp_all
  have "parse_flags ''notls'' False [''//h:1/x'', ''b''] = Some (False, [''//h:1/x'', ''b''])"
    by (simp add: flag_arg_def)
  then have "?call = download quiet_env ''x'' ''b'' c1"
    using yes by (simp add: fly_main_def flycp_def copy_command_def t quiet_connect [OF sample_hosts]
        quiet_connect [OF h1] c1 transfer_def del: parse_flags.simps)
  moreover obtain x c' where f: "?call = (x, c')" by fastforce
  ultimately have sent: "sent_values c' \<noteq> []"
    using download_sends [OF s1(1), of "''x''" "''b''"] s1(2) by (metis snd_conv)
  then have "sent_values c' \<noteq> sent_values (client_with [])" by simp
  from nothing_sent_without_trust [OF f this sample_hosts] t f sent show ?thesis by (auto simp: flag_arg_def)
qed

end
