(* ===== verification/Tls_Props.thy ===== *)
theory Tls_Props
  imports Tls_Facts Auth_Props
begin

text \<open>
  The properties of the TLS certificate: it touches no table of the database, the certificate
  that is served is in date until after the timer that renews it, and a renewal that fails
  takes the whole database down.
\<close>

section \<open>Certificates in date\<close>

text \<open>
  The documented behaviour of the libraries: PEM encoding is undone by decoding; a certificate
  is valid until the time asked for, cut to whole seconds; the pair that is loaded holds the
  certificate as it is on disk.
\<close>

definition tls_laws :: "tls_lib \<Rightarrow> bool" where
  "tls_laws L \<longleftrightarrow> (\<forall>b. pem_decode L (pem_encode L ''CERTIFICATE'' b) = Some (''CERTIFICATE'', b))
     \<and> (\<forall>key serial from upto d. create_cert L key serial from upto = Inr d \<longrightarrow>
          (\<exists>e. not_after L d = Inr e \<and> upto - 10 ^ 9 < e \<and> e \<le> upto))
     \<and> (\<forall>c k pair. load_pair L c k = Inr pair \<longrightarrow> fst pair = c)"

text \<open>The end of validity of a certificate in PEM form.\<close>

definition valid_until :: "tls_lib \<Rightarrow> bytes \<Rightarrow> int option" where
  "valid_until L c =
     (case pem_decode L c of
        Some (kind, b) \<Rightarrow>
          if kind = ''CERTIFICATE'' then (case not_after L b of Inr e \<Rightarrow> Some e | Inl _ \<Rightarrow> None) else None
      | None \<Rightarrow> None)"

lemma getCertExpiry_valid:
  "getCertExpiry L f db = Inr e \<longleftrightarrow>
   cert_read f = None \<and> (\<exists>c. disk db (cert_path db) = Some c \<and> valid_until L c = Some e)"
  by (auto simp: getCertExpiry_def valid_until_def split: option.splits sum.splits prod.splits if_splits)

lemma LoadX509KeyPair_file:
  "tls_laws L \<Longrightarrow> LoadX509KeyPair L f db = Inr pair \<Longrightarrow> disk db (cert_path db) = Some (fst pair)"
  by (cases pair) (fastforce simp: LoadX509KeyPair_def tls_laws_def split: option.splits)

lemma generated:
  assumes "tls_laws L" and "err (generateTlsCert L f seed t db) = None"
  shows "err db = None \<and> tls_only db (generateTlsCert L f seed t db)
    \<and> cert_path (generateTlsCert L f seed t db) = cert_path db
    \<and> (\<exists>c e. disk (generateTlsCert L f seed t db) (cert_path db) = Some c \<and> valid_until L c = Some e
        \<and> t + year - 10 ^ 9 < e)"
proof -
  have ok: "err db = None"
    using assms(2) by (auto simp: generateTlsCert_def generateCert_def split: if_splits)
  from generateCert_cases [OF ok, of L f seed t year] assms(2)
  obtain priv serial d k where d: "create_cert L priv serial t (t + year) = Inr d"
    "generateTlsCert L f seed t db
      = put_file (key_path db) k (put_file (cert_path db) (pem_encode L ''CERTIFICATE'' d) db)"
    by (auto simp: generateTlsCert_def)
  from assms(1) d(1) obtain e where e: "not_after L d = Inr e" "t + year - 10 ^ 9 < e"
    unfolding tls_laws_def by blast
  have "valid_until L (pem_encode L ''CERTIFICATE'' d) = Some e"
    using assms(1) e(1) by (simp add: valid_until_def tls_laws_def)
  moreover have "cert_path db \<noteq> key_path db" by (simp add: tls_names)
  ultimately show ?thesis using ok e(2) by (simp add: d(2))
qed

text \<open>What loading leaves when it succeeds.\<close>

lemma loaded:
  assumes "tls_laws L" and "err (tdb (loadTlsCert L f seed t s)) = None"
  shows "err (tdb s) = None \<and> tls_only (tdb s) (tdb (loadTlsCert L f seed t s))
    \<and> (\<exists>pair e due. certificate (loadTlsCert L f seed t s) = Some pair \<and> valid_until L (fst pair) = Some e
        \<and> timer (loadTlsCert L f seed t s) = Some due \<and> t \<le> due \<and> due + hour - 10 ^ 9 < e)"
proof -
  have ok: "err (tdb s) = None"
  proof (rule ccontr)
    assume "err (tdb s) \<noteq> None"
    then show False using assms(2) by (simp add: loadTlsCert_def)
  qed
  define db1 where "db1 = (if certExists f (tdb s) then tdb s else generateTlsCert L f seed t (tdb s))"
  have l: "loadTlsCert L f seed t s =
      (case getCertExpiry L f db1 of
          Inl x \<Rightarrow> s\<lparr>tdb := set_err (''Failed to get TLS certificate expiry: '' @ x) No_cause db1\<rparr>
        | Inr e1 \<Rightarrow>
            let expired = e1 < t + hour;
                expiry = (if expired then t + year else e1);
                db2 = (if expired then generateTlsCert L f (Suc seed) t db1 else db1);
                s1 = s\<lparr>tdb := db2, timer := Some (t + (expiry - (t + hour)))\<rparr>
            in case LoadX509KeyPair L f db2 of
                 Inl x \<Rightarrow> s1\<lparr>tdb := set_err (''Failed to load TLS certificate: '' @ x) No_cause db2\<rparr>
               | Inr cert \<Rightarrow> s1\<lparr>certificate := Some cert\<rparr>)"
    unfolding loadTlsCert_def db1_def Let_def using ok by simp
  from assms(2) obtain e1 where e1: "getCertExpiry L f db1 = Inr e1"
    unfolding l by (auto simp: set_err_def split: sum.splits)
  define db2 where "db2 = (if e1 < t + hour then generateTlsCert L f (Suc seed) t db1 else db1)"
  define due where "due = (if e1 < t + hour then t + year - hour else e1 - hour)"
  from assms(2) obtain pair where pair: "LoadX509KeyPair L f db2 = Inr pair" and ok2: "err db2 = None"
    unfolding l by (auto simp: e1 db2_def Let_def set_err_def split: sum.splits if_splits)
  have s': "loadTlsCert L f seed t s = s\<lparr>tdb := db2, timer := Some due, certificate := Some pair\<rparr>"
    using pair by (simp add: l e1 db2_def due_def Let_def)
  have ok1: "err db1 = None" using ok2 generate_broken [of db1 L f "Suc seed" t]
    unfolding db2_def by (metis (full_types))
  have t1: "tls_only (tdb s) db1" using generated [OF assms(1), of f seed t "tdb s"] ok1 by (auto simp: db1_def)
  have t2: "tls_only db1 db2" "cert_path db2 = cert_path db1"
    using generated [OF assms(1), of f "Suc seed" t db1] ok2 by (auto simp: db2_def)
  have "disk db2 (cert_path db1) = Some (fst pair)"
    using LoadX509KeyPair_file [OF assms(1) pair] t2(2) by simp
  moreover have "\<exists>c e. disk db2 (cert_path db1) = Some c \<and> valid_until L c = Some e \<and> due + hour - 10 ^ 9 < e"
    using generated [OF assms(1), of f "Suc seed" t db1] ok2 e1 [unfolded getCertExpiry_valid]
    by (auto simp: db2_def due_def)
  moreover have "t \<le> due" by (simp add: due_def year_def hour_def)
  ultimately show ?thesis
    using ok tls_only_trans [OF t1 t2(1)] by (simp add: s')
qed

text \<open>
  C21. The certificate that is served is in date: whenever loading or renewing succeeds, whatever
  was on disk before, the server serves the certificate that is on disk then, it is valid for
  more than an hour (less the second to which its end is cut) beyond the moment at which the
  timer renews it again, and that moment is not in the past. The tables of the database and
  all other files stay as they are.
\<close>

theorem certificate_in_date:
  assumes "tls_laws L" and "s' = loadTlsCert L f seed t s \<or> s' = renew L f seed t s"
    and "err (tdb s') = None"
  shows "tls_only (tdb s) (tdb s')
    \<and> (\<exists>pair e due. certificate s' = Some pair \<and> valid_until L (fst pair) = Some e
        \<and> timer s' = Some due \<and> t \<le> due \<and> due + hour - 10 ^ 9 < e)"
  using assms(2)
proof
  assume "s' = loadTlsCert L f seed t s"
  with loaded [OF assms(1), of f seed t s] assms(3) show ?thesis by simp
next
  assume s': "s' = renew L f seed t s"
  let ?s1 = "s\<lparr>tdb := generateTlsCert L f seed t (tdb s)\<rparr>"
  from loaded [OF assms(1), of f "Suc seed" t ?s1] assms(3)
  have l: "err (tdb ?s1) = None" "tls_only (tdb ?s1) (tdb s')" and r: "\<exists>pair e due. certificate s' = Some pair
      \<and> valid_until L (fst pair) = Some e \<and> timer s' = Some due \<and> t \<le> due \<and> due + hour - 10 ^ 9 < e"
    by (simp_all add: s' renew_def)
  from generated [OF assms(1), of f seed t "tdb s"] l(1) have "tls_only (tdb s) (tdb ?s1)" by simp
  from tls_only_trans [OF this l(2)] r show ?thesis by simp
qed

section \<open>A renewal that fails\<close>

lemma generate_fails:
  assumes "cert_create f = Some x"
  shows "err (generateTlsCert L f seed t db) \<noteq> None"
  using generateCert_cases [of db L f seed t year] assms generate_broken [of db L f seed t]
  by (cases "err db = None") (auto simp: generateTlsCert_def)

lemma broken_writes: "err db \<noteq> None \<Longrightarrow> writeUsers f db = db"
  by (simp add: writeUsers_def)

text \<open>
  C40. A failed renewal takes the server down with the next change: when the certificate cannot be
  written as the timer expires, for want of disk space at that moment, say, the error stays in the
  handle that the commands share, although the old certificate is still served; and from then
  on every password change, also when nothing else fails, ends the process.
\<close>

theorem failed_renewal_is_fatal:
  assumes "cert_create f = Some x" and "flydb g = tdb (renew L f seed t st)"
    and "suser s = Some u" and "Admin u" and "username s \<noteq> []"
    and "FindUser (flydb g) (username s) = Some v" and "FindUser (flydb g) n = Some w"
    and "pw \<noteq> []" and "GenerateFromPassword (bc e) (rand g) pw = Inr h" and "fault e = No_fault"
  shows "certificate (renew L f seed t st) = certificate st
    \<and> (\<exists>y. fst (dispatchCommand e [String ''SETPWD'', String n, String pw] s g)
         = Fatal ''Failed to update user'' (Db_failed y))"
proof -
  have broken: "err (generateTlsCert L f seed t (tdb st)) \<noteq> None" by (rule generate_fails [OF assms(1)])
  then have r: "renew L f seed t st = st\<lparr>tdb := generateTlsCert L f seed t (tdb st)\<rparr>"
    by (simp add: renew_def load_broken)
  with broken assms(2) obtain y where y: "err (flydb g) = Some y" by auto
  have "users (flydb g) \<noteq> []" using assms(6) by (auto simp: FindUser_def)
  then have s0: "update (flydb g) s = s\<lparr>singleUser := False\<rparr>"
    using assms(5,6) by (simp add: update_def NumUsers_def)
  have "\<exists>db2. UpdateUser No_fault n (\<lambda>a. a\<lparr>Password := h\<rparr>) (flydb g) = (Some (Db_failed y), db2)"
    using assms(7) y by (simp add: UpdateUser_def db_result_def put_user_def broken_writes)
  then have "fst (dispatchCommand e [String ''SETPWD'', String n, String pw] s g)
      = Fatal ''Failed to update user'' (Db_failed y)"
    using assms(3,4,8-10) s0
    by (auto simp: dispatchCommand_def getCommandHandler_def commandHandlers_def go_defs
        handleSetpwd_def hash_password_def is_admin_def commit_def split: prod.split)
  then show ?thesis using r by simp
qed

section \<open>A certificate of a toy authority\<close>

text \<open>Certificates and PEM blocks in which everything is written in the clear, times in unary.\<close>

definition toy_tls :: tls_lib where
  "toy_tls = \<lparr>gen_key = (\<lambda>_. Inr ''key''), gen_serial = (\<lambda>_. Inr ''1''),
     create_cert = (\<lambda>key serial from upto. if upto < 0 then Inl ''too early'' else Inr (stamp (nat upto))),
     marshal_key = (\<lambda>k. Inr k), pem_encode = (\<lambda>k b. k @ [LF] @ b),
     pem_decode = (\<lambda>s. if LF \<in> set s then Some (takeWhile (\<lambda>c. c \<noteq> LF) s, tl (dropWhile (\<lambda>c. c \<noteq> LF) s)) else None),
     not_after = (\<lambda>d. Inr (int (unstamp d))), load_pair = (\<lambda>c k. Inr (c, k))\<rparr>"

definition no_tls_fault :: tls_fault where
  "no_tls_fault = \<lparr>cert_create = None, cert_write = None, key_open = None, key_write = None,
     cert_stat = None, cert_read = None, key_read = None\<rparr>"

definition fresh_tls :: tls_state where
  "fresh_tls = \<lparr>tdb = new_handle ''/srv'' Map.empty, certificate = None, timer = None\<rparr>"

lemma toy_simps [simp]:
  "gen_key toy_tls n = Inr ''key''" "gen_serial toy_tls n = Inr ''1''"
  "create_cert toy_tls key serial since z = (if z < 0 then Inl ''too early'' else Inr (stamp (nat z)))"
  "marshal_key toy_tls k = Inr k" "pem_encode toy_tls k b = k @ [LF] @ b"
  "pem_decode toy_tls (''CERTIFICATE'' @ [LF] @ b) = Some (''CERTIFICATE'', b)"
  "not_after toy_tls d = Inr (int (unstamp d))" "load_pair toy_tls c k = Inr (c, k)"
  by (simp_all add: toy_tls_def)

lemma no_tls_fault_simps [simp]:
  "cert_create no_tls_fault = None" "cert_write no_tls_fault = None" "key_open no_tls_fault = None"
  "key_write no_tls_fault = None" "cert_stat no_tls_fault = None" "cert_read no_tls_fault = None"
  "key_read no_tls_fault = None"
  by (simp_all add: no_tls_fault_def)

lemma toy_laws: "tls_laws toy_tls"
  using toy_simps(6) by (auto simp: tls_laws_def unstamp_stamp split: if_splits)

lemma year_later [simp]: "0 \<le> year" "\<not> year < hour" "\<not> year < 0"
  by (simp_all add: year_def hour_def)

lemma toy_generated:
  assumes "err db = None"
  shows "generateTlsCert toy_tls no_tls_fault 0 0 db
    = put_file (key_path db) (''PRIVATE KEY'' @ [LF] @ ''key'')
        (put_file (cert_path db) (''CERTIFICATE'' @ [LF] @ stamp (nat year)) db)"
  using assms by (simp add: generateTlsCert_def generateCert_def)

lemma toy_loaded: "err (tdb (loadTlsCert toy_tls no_tls_fault 0 0 fresh_tls)) = None"
proof -
  let ?db = "new_handle ''/srv'' Map.empty"
  have ok: "err ?db = None" "disk ?db = Map.empty" by (simp_all add: new_handle_def)
  note g = toy_generated [OF ok(1)]
  have differ: "cert_path ?db \<noteq> key_path ?db" by (simp add: tls_names)
  then have e: "getCertExpiry toy_tls no_tls_fault (generateTlsCert toy_tls no_tls_fault 0 0 ?db) = Inr year"
    using toy_simps(6) [of "stamp (nat year)"] by (simp add: g getCertExpiry_def unstamp_stamp)
  have p: "\<exists>pair. LoadX509KeyPair toy_tls no_tls_fault (generateTlsCert toy_tls no_tls_fault 0 0 ?db) = Inr pair"
    using differ by (simp add: g LoadX509KeyPair_def)
  have "err (generateTlsCert toy_tls no_tls_fault 0 0 ?db) = None" by (simp add: g ok)
  moreover have "\<not> certExists no_tls_fault ?db" by (simp add: certExists_def ok)
  ultimately show ?thesis
    using e p ok(1) by (auto simp: loadTlsCert_def fresh_tls_def Let_def)
qed

theorem certificate_in_date_witness:
  "\<exists>pair e. certificate (loadTlsCert toy_tls no_tls_fault 0 0 fresh_tls) = Some pair
    \<and> valid_until toy_tls (fst pair) = Some e"
  using certificate_in_date [OF toy_laws disjI1 [OF refl] toy_loaded] by blast

theorem failed_renewal_is_fatal_witness:
  "\<exists>st y. fst (dispatchCommand plain_env [String ''SETPWD'', String ''bob'', String ''x'']
      (new_sessionInfo\<lparr>username := ''bob'', suser := Some bob_admin\<rparr>)
      (server_with (tdb (renew toy_tls (no_tls_fault\<lparr>cert_create := Some ''ENOSPC''\<rparr>) 0 0 st))))
    = Fatal ''Failed to update user'' (Db_failed y)"
proof -
  let ?f = "no_tls_fault\<lparr>cert_create := Some ''ENOSPC''\<rparr>"
  let ?st = "\<lparr>tdb = sample_db, certificate = None, timer = None\<rparr>"
  have "err (generateTlsCert toy_tls ?f 0 0 sample_db) \<noteq> None"
    by (rule generate_fails [of _ "''ENOSPC''"]) simp
  then have "tdb (renew toy_tls ?f 0 0 ?st) = generateTlsCert toy_tls ?f 0 0 sample_db"
    by (simp add: renew_def load_broken)
  moreover have "users (generateTlsCert toy_tls ?f 0 0 sample_db) = users sample_db"
    by (simp add: generateTlsCert_def generateCert_def write_pem_def tls_failed_def)
  ultimately have f: "FindUser (flydb (server_with (tdb (renew toy_tls ?f 0 0 ?st)))) ''bob'' = Some bob"
    by (simp add: FindUser_def)
  show ?thesis
    using failed_renewal_is_fatal [of ?f "''ENOSPC''" "server_with (tdb (renew toy_tls ?f 0 0 ?st))" toy_tls 0 0 ?st
        "new_sessionInfo\<lparr>username := ''bob'', suser := Some bob_admin\<rparr>" bob_admin bob "''bob''" bob "''x''" plain_env "''hash''"]
      f by (intro exI [of _ ?st]) (auto simp: bob_admin_def any_hash_def)
qed

end
